(* ===== verification/Binnacle_Base.thy ===== *)
theory Binnacle_Base
  imports Complex_Main "HOL-Library.Char_ord"
begin

section \<open>Shared vocabulary of the development\<close>

text \<open>
  What every component of Binnacle uses: Go's \<open>time.Time\<close> and \<open>time.Duration\<close>, signed
  64-bit wrap-around, errors as values, strings, and SQLite tables as lists of rows in
  rowid order with the statements the Go code sends (\<^verbatim>\<open>UPDATE .. WHERE\<close>,
  \<^verbatim>\<open>DELETE .. WHERE\<close>, \<^verbatim>\<open>INSERT .. ON CONFLICT\<close>, \<^verbatim>\<open>SELECT .. LIMIT\<close>) as list functions.
  The lemmas here are the ones the component theories share.
\<close>

named_theorems time_defs \<open>definitions of the time arithmetic\<close>
named_theorems table_simps \<open>rules that push queries through table updates\<close>

subsection \<open>Time\<close>

text \<open>
  A \<open>time.Time\<close> is its number of nanoseconds since the Unix epoch (always in UTC here), a
  \<open>time.Duration\<close> a number of nanoseconds. \<open>Time.Unix\<close> and \<open>Time.UnixMilli\<close> round towards
  minus infinity. \<open>Time.Sub\<close> saturates at the ends of the 64-bit range.
\<close>

type_synonym time = int
type_synonym duration = int

text \<open>Finite \<open>float64\<close> values, where the code only stores and compares them.\<close>

type_synonym float64 = rat

definition nanos :: "int" where
  [time_defs]: "nanos = 1000000000"

definition seconds :: "int \<Rightarrow> duration" where
  [time_defs]: "seconds n = n * 1000000000"

definition minutes :: "int \<Rightarrow> duration" where
  [time_defs]: "minutes n = n * 60000000000"

definition hours :: "int \<Rightarrow> duration" where
  [time_defs]: "hours n = n * 3600000000000"

definition unix :: "time \<Rightarrow> int" where
  [time_defs]: "unix t = t div 1000000000"

definition unix_milli :: "time \<Rightarrow> int" where
  [time_defs]: "unix_milli t = t div 1000000"

definition from_unix :: "int \<Rightarrow> time" where
  [time_defs]: "from_unix s = s * 1000000000"

definition from_milli :: "int \<Rightarrow> time" where
  [time_defs]: "from_milli s = s * 1000000"

definition min_duration :: duration where
  "min_duration = - (2 ^ 63)"

definition max_duration :: duration where
  "max_duration = 2 ^ 63 - 1"

definition time_sub :: "time \<Rightarrow> time \<Rightarrow> duration" where
  "time_sub t u = max min_duration (min max_duration (t - u))"

lemma unix_from_unix [simp]: "unix (from_unix s) = s"
  by (simp add: unix_def from_unix_def)

lemma unix_milli_from_milli [simp]: "unix_milli (from_milli s) = s"
  by (simp add: unix_milli_def from_milli_def)

lemma unix_mono: "t \<le> u \<Longrightarrow> unix t \<le> unix u"
  by (simp add: unix_def zdiv_mono1)

lemma unix_milli_mono: "t \<le> u \<Longrightarrow> unix_milli t \<le> unix_milli u"
  by (simp add: unix_milli_def zdiv_mono1)

lemma from_unix_le: "from_unix (unix t) \<le> t"
  by (simp add: unix_def from_unix_def)

lemma from_unix_gt: "t < from_unix (unix t) + nanos"
  unfolding unix_def from_unix_def nanos_def
  by (metis add_strict_left_mono div_mult_mod_eq pos_mod_bound zero_less_numeral)

lemma time_sub_mono: "t \<le> t' \<Longrightarrow> time_sub t u \<le> time_sub t' u"
  by (simp add: time_sub_def)

lemma time_sub_anti: "u \<le> u' \<Longrightarrow> time_sub t u' \<le> time_sub t u"
  by (simp add: time_sub_def)

lemma time_sub_exact:
  "min_duration \<le> t - u \<Longrightarrow> t - u \<le> max_duration \<Longrightarrow> time_sub t u = t - u"
  by (simp add: time_sub_def)

lemma time_sub_pos: "(0 < time_sub t u) = (u < t)"
  by (auto simp: time_sub_def min_duration_def max_duration_def)

subsection \<open>Signed 64-bit integers\<close>

definition in_int64 :: "int \<Rightarrow> bool" where
  "in_int64 x = (min_duration \<le> x \<and> x \<le> max_duration)"

definition wrap64 :: "int \<Rightarrow> int" where
  "wrap64 x = (let r = x mod 18446744073709551616
               in if r \<le> max_duration then r else r - 18446744073709551616)"

lemma wrap64_in_range [simp]: "in_int64 (wrap64 x)"
proof -
  define r where "r = x mod 18446744073709551616"
  have "0 \<le> r" "r < 18446744073709551616" by (simp_all add: r_def)
  then show ?thesis
    unfolding wrap64_def r_def [symmetric] Let_def
    by (auto simp: in_int64_def min_duration_def max_duration_def)
qed

lemma wrap64_id:
  assumes "in_int64 x" shows "wrap64 x = x"
proof (cases "0 \<le> x")
  case True
  then show ?thesis using assms by (simp add: wrap64_def in_int64_def max_duration_def)
next
  case False
  then have "x mod 18446744073709551616 = x + 18446744073709551616"
    using assms by (intro int_mod_pos_eq [of _ _ "- 1"]) (simp_all add: in_int64_def min_duration_def)
  then show ?thesis using False assms
    by (simp add: wrap64_def in_int64_def min_duration_def max_duration_def Let_def)
qed

text \<open>Go's integer division by a positive number truncates towards zero.\<close>

definition trunc_div :: "int \<Rightarrow> int \<Rightarrow> int" where
  "trunc_div a b = (if 0 \<le> a then a div b else - ((- a) div b))"

lemma trunc_div_nonneg: "0 \<le> a \<Longrightarrow> trunc_div a b = a div b"
  by (simp add: trunc_div_def)

lemma trunc_div_mult: "trunc_div (n * b) b = n" if "0 < b"
  using that by (simp add: trunc_div_def flip: mult_minus_left)

subsection \<open>Errors\<close>

text \<open>
  \<open>ErrMsg\<close> is \<open>errors.New\<close>, \<open>ErrNoRows\<close> is \<open>sql.ErrNoRows\<close>, \<open>ErrConstraint\<close> a statement that
  SQLite refuses because of a key, uniqueness or check constraint, \<open>NilDeref\<close> the run-time
  panic of a nil pointer dereference. A \<open>defer tx.Rollback()\<close> without a commit leaves the
  database as it was: the functions return the error and no state.
\<close>

datatype go_error = ErrMsg string | ErrNoRows | ErrConstraint string | NilDeref

type_synonym 's result = "go_error + 's"

definition bind_result :: "'a result \<Rightarrow> ('a \<Rightarrow> 'b result) \<Rightarrow> 'b result" where
  "bind_result r f = (case r of Inl e \<Rightarrow> Inl e | Inr x \<Rightarrow> f x)"

lemma bind_result_simps [simp]:
  "bind_result (Inl e) f = Inl e"
  "bind_result (Inr x) f = f x"
  by (simp_all add: bind_result_def)

lemma bind_result_Inr:
  "(bind_result r f = Inr y) = (\<exists>x. r = Inr x \<and> f x = Inr y)"
  by (auto simp: bind_result_def split: sum.splits)

lemma bind_result_Inl:
  "(bind_result r f = Inl e) = (r = Inl e \<or> (\<exists>x. r = Inr x \<and> f x = Inl e))"
  by (auto simp: bind_result_def split: sum.splits)

text \<open>A loop whose body may return early with an error.\<close>

fun fold_result :: "('a \<Rightarrow> 's \<Rightarrow> 's result) \<Rightarrow> 'a list \<Rightarrow> 's \<Rightarrow> 's result" where
  "fold_result f [] s = Inr s"
| "fold_result f (x # xs) s = bind_result (f x s) (fold_result f xs)"

lemma fold_result_append:
  "fold_result f (xs @ ys) s = bind_result (fold_result f xs s) (fold_result f ys)"
proof (induction xs arbitrary: s)
  case Nil
  then show ?case by simp
next
  case (Cons x xs)
  then show ?case by (cases "f x s") simp_all
qed

lemma fold_result_inv:
  assumes "fold_result f xs s = Inr s'" and "P s"
    and "\<And>x s s'. x \<in> set xs \<Longrightarrow> P s \<Longrightarrow> f x s = Inr s' \<Longrightarrow> P s'"
  shows "P s'"
  using assms
proof (induction xs arbitrary: s)
  case Nil
  then show ?case by simp
next
  case (Cons x xs)
  from Cons.prems(1) obtain t where t: "f x s = Inr t" "fold_result f xs t = Inr s'"
    by (auto simp: bind_result_Inr)
  have "P t" using Cons.prems(3) [OF _ Cons.prems(2) t(1)] by simp
  with t(2) show ?case using Cons.IH Cons.prems(3) by (metis list.set_intros(2))
qed

text \<open>
  A handler that runs several transactions one after the other: what earlier transactions
  committed stays when a later one fails. The outcome is the database together with the
  error the handler returned, if any.
\<close>

type_synonym 's outcome = "'s \<times> go_error option"

definition commit :: "'s \<Rightarrow> 's result \<Rightarrow> 's outcome" where
  "commit s r = (case r of Inl e \<Rightarrow> (s, Some e) | Inr s' \<Rightarrow> (s', None))"

definition and_then :: "'s outcome \<Rightarrow> ('s \<Rightarrow> 's outcome) \<Rightarrow> 's outcome" where
  "and_then r f = (case r of (s, None) \<Rightarrow> f s | (s, Some e) \<Rightarrow> (s, Some e))"

fun for_each :: "('a \<Rightarrow> 's \<Rightarrow> 's outcome) \<Rightarrow> 'a list \<Rightarrow> 's \<Rightarrow> 's outcome" where
  "for_each f [] s = (s, None)"
| "for_each f (x # xs) s = and_then (f x s) (for_each f xs)"

lemma commit_simps [simp]:
  "commit s (Inl e) = (s, Some e)"
  "commit s (Inr s') = (s', None)"
  by (simp_all add: commit_def)

lemma and_then_simps [simp]:
  "and_then (s, None) f = f s"
  "and_then (s, Some e) f = (s, Some e)"
  by (simp_all add: and_then_def)

lemma commit_inv: "P s \<Longrightarrow> (\<And>s'. r = Inr s' \<Longrightarrow> P s') \<Longrightarrow> P (fst (commit s r))"
  by (simp add: commit_def split: sum.splits)

lemma and_then_inv:
  "P (fst r) \<Longrightarrow> (\<And>s. P s \<Longrightarrow> P (fst (f s))) \<Longrightarrow> P (fst (and_then r f))"
  by (cases r; cases "snd r") simp_all

lemma for_each_inv:
  assumes "P s" and "\<And>x s. x \<in> set xs \<Longrightarrow> P s \<Longrightarrow> P (fst (f x s))"
  shows "P (fst (for_each f xs s))"
  using assms
proof (induction xs arbitrary: s)
  case Nil
  then show ?case by simp
next
  case (Cons x xs)
  show ?case unfolding for_each.simps
  proof (rule and_then_inv [of P])
    show "P (fst (f x s))" using Cons.prems(2) [OF _ Cons.prems(1)] by simp
    show "P (fst (for_each f xs t))" if "P t" for t
      by (rule Cons.IH [OF that]) (simp add: Cons.prems(2))
  qed
qed

lemma for_each_append:
  "for_each f (xs @ ys) s = and_then (for_each f xs s) (for_each f ys)"
proof (induction xs arbitrary: s)
  case Nil
  then show ?case by simp
next
  case (Cons x xs)
  obtain t e where "f x s = (t, e)" by force
  then show ?case using Cons.IH by (cases e) simp_all
qed

subsection \<open>Tables\<close>

text \<open>\<^verbatim>\<open>UPDATE t SET .. WHERE p\<close>, \<^verbatim>\<open>DELETE FROM t WHERE p\<close> and \<^verbatim>\<open>SELECT COUNT(*) .. WHERE p\<close>.\<close>

definition upd_where :: "('r \<Rightarrow> bool) \<Rightarrow> ('r \<Rightarrow> 'r) \<Rightarrow> 'r list \<Rightarrow> 'r list" where
  "upd_where p f t = map (\<lambda>r. if p r then f r else r) t"

definition del_where :: "('r \<Rightarrow> bool) \<Rightarrow> 'r list \<Rightarrow> 'r list" where
  "del_where p t = filter (\<lambda>r. \<not> p r) t"

definition count_where :: "('r \<Rightarrow> bool) \<Rightarrow> 'r list \<Rightarrow> nat" where
  "count_where p t = length (filter p t)"

text \<open>
  \<^verbatim>\<open>INSERT .. ON CONFLICT(key) DO UPDATE\<close>: the row with the same key is updated in place,
  otherwise the new row is appended.
\<close>

definition upsert :: "('r \<Rightarrow> bool) \<Rightarrow> ('r \<Rightarrow> 'r) \<Rightarrow> 'r \<Rightarrow> 'r list \<Rightarrow> 'r list" where
  "upsert same f row t = (if list_ex same t then upd_where same f t else t @ [row])"

text \<open>\<^verbatim>\<open>INSERT OR IGNORE\<close> and \<^verbatim>\<open>ON CONFLICT DO NOTHING\<close>.\<close>

definition insert_ignore :: "('r \<Rightarrow> bool) \<Rightarrow> 'r \<Rightarrow> 'r list \<Rightarrow> 'r list" where
  "insert_ignore same row t = (if list_ex same t then t else t @ [row])"

text \<open>\<^verbatim>\<open>ORDER BY k LIMIT 1\<close> and \<^verbatim>\<open>ORDER BY k DESC LIMIT 1\<close>.\<close>

definition first_by :: "('r \<Rightarrow> 'k::linorder) \<Rightarrow> 'r list \<Rightarrow> 'r option" where
  "first_by k t = (case sort_key k t of [] \<Rightarrow> None | r # _ \<Rightarrow> Some r)"

definition latest_by :: "('r \<Rightarrow> int) \<Rightarrow> 'r list \<Rightarrow> 'r option" where
  "latest_by k t = first_by (\<lambda>r. - k r) t"

lemma upd_where_Nil [simp]: "upd_where p f [] = []"
  by (simp add: upd_where_def)

lemma upd_where_Cons [simp]:
  "upd_where p f (r # t) = (if p r then f r else r) # upd_where p f t"
  by (simp add: upd_where_def)

lemma upd_where_append [simp]: "upd_where p f (s @ t) = upd_where p f s @ upd_where p f t"
  by (simp add: upd_where_def)

lemma length_upd_where [simp]: "length (upd_where p f t) = length t"
  by (simp add: upd_where_def)

lemma set_upd_where:
  "set (upd_where p f t) = f ` {r \<in> set t. p r} \<union> {r \<in> set t. \<not> p r}"
  by (auto simp: upd_where_def)

lemma map_upd_where [table_simps]:
  "(\<And>r. g (f r) = g r) \<Longrightarrow> map g (upd_where p f t) = map g t"
  by (simp add: upd_where_def)

lemma upd_where_none: "(\<And>r. r \<in> set t \<Longrightarrow> \<not> p r) \<Longrightarrow> upd_where p f t = t"
  by (simp add: upd_where_def map_idI)

lemma count_where_Nil [simp]: "count_where p [] = 0"
  by (simp add: count_where_def)

lemma count_where_Cons [simp]:
  "count_where p (r # t) = (if p r then Suc (count_where p t) else count_where p t)"
  by (simp add: count_where_def)

lemma count_where_append [simp]: "count_where p (s @ t) = count_where p s + count_where p t"
  by (simp add: count_where_def)

lemma count_where_0_iff: "count_where p t = 0 \<longleftrightarrow> (\<forall>r \<in> set t. \<not> p r)"
  by (induction t) auto

lemma count_where_pos_iff: "0 < count_where p t \<longleftrightarrow> (\<exists>r \<in> set t. p r)"
  by (induction t) auto

lemma count_where_unique:
  "count_where p t \<le> 1 \<Longrightarrow> x \<in> set t \<Longrightarrow> y \<in> set t \<Longrightarrow> p x \<Longrightarrow> p y \<Longrightarrow> x = y"
proof (induction t)
  case Nil
  then show ?case by simp
next
  case (Cons z t)
  show ?case
  proof (cases "p z")
    case True
    then have "\<forall>r \<in> set t. \<not> p r" using Cons.prems(1) by (simp add: count_where_0_iff)
    then show ?thesis using Cons.prems by auto
  next
    case False
    then show ?thesis using Cons by auto
  qed
qed

lemma count_where_upd_same [table_simps]:
  "(\<And>r. q (f r) = q r) \<Longrightarrow> count_where q (upd_where p f t) = count_where q t"
  by (induction t) auto

lemma count_where_upd_le:
  "(\<And>r. q (f r) \<Longrightarrow> q r) \<Longrightarrow> count_where q (upd_where p f t) \<le> count_where q t"
  by (induction t) (auto simp: le_SucI)

lemma count_where_del_le: "count_where q (del_where p t) \<le> count_where q t"
  by (induction t) (auto simp: del_where_def le_SucI)

lemma count_where_del [table_simps]:
  "count_where q (del_where p t) = count_where (\<lambda>r. q r \<and> \<not> p r) t"
  by (simp add: count_where_def del_where_def) (metis (lifting) filter_filter)

lemma count_where_cong:
  "(\<And>r. r \<in> set t \<Longrightarrow> p r = q r) \<Longrightarrow> count_where p t = count_where q t"
  by (induction t) auto

lemma count_where_mono:
  "(\<And>r. r \<in> set t \<Longrightarrow> p r \<Longrightarrow> q r) \<Longrightarrow> count_where p t \<le> count_where q t"
  by (induction t) (auto simp: le_SucI)

lemma set_del_where [simp]: "set (del_where p t) = {r \<in> set t. \<not> p r}"
  by (auto simp: del_where_def)

lemma del_where_subset: "set (del_where p t) \<subseteq> set t"
  by auto

lemma first_by_Some: "first_by k t = Some r \<Longrightarrow> r \<in> set t \<and> (\<forall>r' \<in> set t. k r \<le> k r')"
proof -
  assume "first_by k t = Some r"
  then obtain rs where rs: "sort_key k t = r # rs"
    by (auto simp: first_by_def split: list.splits)
  have "sorted (map k (r # rs))" by (metis rs sorted_sort_key)
  moreover have "set t = set (r # rs)" by (metis rs set_sort)
  ultimately show ?thesis by auto
qed

lemma first_by_None: "(first_by k t = None) = (t = [])"
proof -
  have "(sort_key k t = []) = (t = [])" by (metis length_0_conv length_sort)
  then show ?thesis by (auto simp: first_by_def split: list.splits)
qed

lemma latest_by_Some: "latest_by k t = Some r \<Longrightarrow> r \<in> set t \<and> (\<forall>r' \<in> set t. k r' \<le> k r)"
  by (auto simp: latest_by_def dest: first_by_Some)

lemma latest_by_None: "(latest_by k t = None) = (t = [])"
  by (simp add: latest_by_def first_by_None)

text \<open>Keys: a column whose values are pairwise different identifies at most one row.\<close>

lemma distinct_map_filter: "distinct (map k t) \<Longrightarrow> distinct (map k (filter p t))"
  by (induction t) auto

lemma distinct_map_del [table_simps]: "distinct (map k t) \<Longrightarrow> distinct (map k (del_where p t))"
  by (simp add: del_where_def distinct_map_filter)

lemma distinct_map_unique:
  "distinct (map k t) \<Longrightarrow> r \<in> set t \<Longrightarrow> r' \<in> set t \<Longrightarrow> k r = k r' \<Longrightarrow> r = r'"
  by (metis distinct_map inj_onD)

lemma count_where_key:
  "distinct (map k t) \<Longrightarrow> r \<in> set t \<Longrightarrow> count_where (\<lambda>r'. k r' = k r \<and> q r') t = (if q r then 1 else 0)"
proof (induction t)
  case Nil
  then show ?case by simp
next
  case (Cons x t)
  have none: "k x \<notin> k ` set t" and d: "distinct (map k t)"
    using Cons.prems(1) by auto
  show ?case
  proof (cases "x = r")
    case True
    have "count_where (\<lambda>r'. k r' = k r \<and> q r') t = 0"
      using none True by (auto simp: count_where_0_iff image_iff)
    then show ?thesis using True by simp
  next
    case False
    then have r: "r \<in> set t" using Cons.prems(2) by simp
    then have "k x \<noteq> k r" using none by (metis imageI)
    then show ?thesis using Cons.IH [OF d r] by simp
  qed
qed

lemma find_Some_in: "find p t = Some r \<Longrightarrow> r \<in> set t \<and> p r"
  by (auto simp: find_Some_iff)

lemma find_None: "(find p t = None) = (\<forall>r \<in> set t. \<not> p r)"
  by (auto simp: find_None_iff)

lemma list_ex_find: "list_ex p t = (find p t \<noteq> None)"
  by (induction t) simp_all

lemma find_upd_where:
  assumes "\<And>r. kf (f r) = key"
  shows "find (\<lambda>r. kf r = k) (upd_where (\<lambda>r. kf r = key) f t) =
         (if k = key then map_option f (find (\<lambda>r. kf r = key) t) else find (\<lambda>r. kf r = k) t)"
  by (induction t) (auto simp: assms)

lemma find_upd_keep:
  assumes "\<And>r. kf (f r) = kf r"
  shows "find (\<lambda>r. kf r = k) (upd_where p f t) = map_option (\<lambda>r. if p r then f r else r) (find (\<lambda>r. kf r = k) t)"
  using assms by (induction t) auto

lemma find_append: "find p (s @ t) = (case find p s of None \<Rightarrow> find p t | Some r \<Rightarrow> Some r)"
  by (induction s) simp_all

lemma find_key: "distinct (map k t) \<Longrightarrow> n \<in> set t \<Longrightarrow> find (\<lambda>m. k m = k n) t = Some n"
  by (induction t) (auto simp: image_iff)

lemma find_only:
  assumes "n \<in> set t" "p n" "\<And>m. m \<in> set t \<Longrightarrow> p m \<Longrightarrow> m = n"
  shows "find p t = Some n"
proof (cases "find p t")
  case None
  then show ?thesis using assms(1,2) by (simp add: find_None)
next
  case (Some m)
  then show ?thesis using find_Some_in [OF Some] assms(3) by blast
qed

lemma upd_where_hit: "n \<in> set t \<Longrightarrow> p n \<Longrightarrow> f n \<in> set (upd_where p f t)"
  by (force simp: upd_where_def)

lemma upd_where_miss: "n \<in> set t \<Longrightarrow> \<not> p n \<Longrightarrow> n \<in> set (upd_where p f t)"
  by (force simp: upd_where_def)

lemma upd_whereE:
  assumes "m \<in> set (upd_where p f t)"
  obtains n where "n \<in> set t" "m = (if p n then f n else n)"
  using assms unfolding upd_where_def set_map by blast

lemma find_upsert:
  assumes "\<And>r. kf (f r) = key" and "kf row = key"
  shows "find (\<lambda>r. kf r = k) (upsert (\<lambda>r. kf r = key) f row t) =
         (if k = key then Some (case find (\<lambda>r. kf r = key) t of None \<Rightarrow> row | Some r \<Rightarrow> f r)
          else find (\<lambda>r. kf r = k) t)"
  using assms
  by (auto simp: upsert_def find_upd_where find_append list_ex_find split: option.splits)

lemma map_upd_where_key:
  assumes "\<And>r. kf (f r) = key"
  shows "map kf (upd_where (\<lambda>r. kf r = key) f t) = map kf t"
  by (induction t) (auto simp: assms)

lemma distinct_upsert:
  assumes "\<And>r. kf (f r) = key" and "kf row = key" and "distinct (map kf t)"
  shows "distinct (map kf (upsert (\<lambda>r. kf r = key) f row t))"
  using assms by (auto simp: upsert_def map_upd_where_key list_ex_iff)

lemma set_upsert_subset:
  "set (upsert same f row t) \<subseteq> insert row (set t \<union> f ` {r \<in> set t. same r})"
  by (auto simp: upsert_def set_upd_where)

subsection \<open>Strings\<close>

text \<open>
  Go strings are byte sequences. \<open>strings.HasPrefix\<close>, \<open>strings.TrimSpace\<close> and
  \<open>strings.ToLower\<close> on ASCII text.
\<close>

definition has_prefix :: "string \<Rightarrow> string \<Rightarrow> bool" where
  "has_prefix s p = (take (length p) s = p)"

definition is_space :: "char \<Rightarrow> bool" where
  "is_space c = (c \<in> {CHR '' '', CHR 0x09, CHR 0x0A, CHR 0x0B, CHR 0x0C, CHR 0x0D})"

definition trim_space :: "string \<Rightarrow> string" where
  "trim_space s = rev (dropWhile is_space (rev (dropWhile is_space s)))"

definition lower_char :: "char \<Rightarrow> char" where
  "lower_char c = (if CHR ''A'' \<le> c \<and> c \<le> CHR ''Z'' then char_of (of_char c + 32 :: nat) else c)"

definition to_lower :: "string \<Rightarrow> string" where
  "to_lower s = map lower_char s"

lemma has_prefix_append [simp]: "has_prefix (p @ s) p"
  by (simp add: has_prefix_def)

definition has_suffix :: "string \<Rightarrow> string \<Rightarrow> bool" where
  "has_suffix s p = has_prefix (rev s) (rev p)"

definition trim_suffix :: "string \<Rightarrow> string \<Rightarrow> string" where
  "trim_suffix s p = (if has_suffix s p then take (length s - length p) s else s)"

definition trim_prefix :: "string \<Rightarrow> string \<Rightarrow> string" where
  "trim_prefix s p = (if has_prefix s p then drop (length p) s else s)"

fun contains :: "string \<Rightarrow> string \<Rightarrow> bool" where
  "contains [] p = (p = [])"
| "contains (c # s) p = (has_prefix (c # s) p \<or> contains s p)"

text \<open>Decimal numbers: \<^verbatim>\<open>%d\<close> and \<open>strconv.Atoi\<close> (a sign, then at least one digit, within 64 bits).\<close>

definition digit :: "nat \<Rightarrow> char" where
  "digit n = char_of (48 + n)"

fun show_nat :: "nat \<Rightarrow> string" where
  "show_nat n = (if n < 10 then [digit n] else show_nat (n div 10) @ [digit (n mod 10)])"

declare show_nat.simps [simp del]

definition show_int :: "int \<Rightarrow> string" where
  "show_int i = (if i < 0 then CHR ''-'' # show_nat (nat (- i)) else show_nat (nat i))"

definition is_digit :: "char \<Rightarrow> bool" where
  "is_digit c = (48 \<le> (of_char c :: nat) \<and> (of_char c :: nat) \<le> 57)"

definition digit_val :: "char \<Rightarrow> nat" where
  "digit_val c = of_char c - 48"

definition nat_of_digits :: "string \<Rightarrow> nat" where
  "nat_of_digits s = fold (\<lambda>c n. 10 * n + digit_val c) s 0"

definition parse_digits :: "string \<Rightarrow> nat option" where
  "parse_digits s = (if s \<noteq> [] \<and> list_all is_digit s then Some (nat_of_digits s) else None)"

definition atoi :: "string \<Rightarrow> int option" where
  "atoi s =
    (let v = (case s of
                CHR ''-'' # ds \<Rightarrow> map_option (\<lambda>n. - int n) (parse_digits ds)
              | CHR ''+'' # ds \<Rightarrow> map_option int (parse_digits ds)
              | ds \<Rightarrow> map_option int (parse_digits ds))
     in case v of Some i \<Rightarrow> if in_int64 i then Some i else None | None \<Rightarrow> None)"

lemma of_char_digit: "n < 10 \<Longrightarrow> (of_char (digit n) :: nat) = 48 + n"
  by (simp add: digit_def)

lemma is_digit_digit [simp]: "n < 10 \<Longrightarrow> is_digit (digit n)"
  by (simp add: is_digit_def of_char_digit)

lemma digit_val_digit [simp]: "n < 10 \<Longrightarrow> digit_val (digit n) = n"
  by (simp add: digit_val_def of_char_digit)

lemma nat_of_digits_snoc: "nat_of_digits (s @ [c]) = 10 * nat_of_digits s + digit_val c"
  by (simp add: nat_of_digits_def)

lemma show_nat_digits: "show_nat n \<noteq> [] \<and> list_all is_digit (show_nat n)"
  by (induction n rule: show_nat.induct) (simp add: show_nat.simps)

lemma nat_of_show_nat [simp]: "nat_of_digits (show_nat n) = n"
proof (induction n rule: show_nat.induct)
  case (1 n)
  show ?case
  proof (cases "n < 10")
    case True
    then show ?thesis by (simp add: show_nat.simps nat_of_digits_def)
  next
    case False
    then have "nat_of_digits (show_nat n) = 10 * nat_of_digits (show_nat (n div 10)) + n mod 10"
      by (subst show_nat.simps) (simp add: nat_of_digits_snoc)
    then show ?thesis using 1 False by simp
  qed
qed

lemma parse_show_nat [simp]: "parse_digits (show_nat n) = Some n"
  by (simp add: parse_digits_def show_nat_digits)

lemma inj_show_nat: "inj show_nat"
  by (rule injI) (metis nat_of_show_nat)

lemma atoi_show_int: "in_int64 i \<Longrightarrow> atoi (show_int i) = Some i"
proof (cases "i < 0")
  case True
  assume "in_int64 i"
  then show ?thesis using True by (simp add: atoi_def show_int_def)
next
  case False
  assume i: "in_int64 i"
  obtain c cs where s: "show_nat (nat i) = c # cs" using show_nat_digits [of "nat i"] by (cases "show_nat (nat i)") auto
  have "is_digit c" using show_nat_digits [of "nat i"] by (simp add: s)
  then have "c \<noteq> CHR ''-''" "c \<noteq> CHR ''+''" by (auto simp: is_digit_def)
  then have "atoi (c # cs) = (case map_option int (parse_digits (c # cs)) of Some i \<Rightarrow> if in_int64 i then Some i else None | None \<Rightarrow> None)"
    unfolding atoi_def Let_def by (auto split: char.splits bool.splits)
  then show ?thesis using False i parse_show_nat [of "nat i"] by (simp add: show_int_def s)
qed

end
