(* ===== verification/Alert_State.thy ===== *)
theory Alert_State
  imports Binnacle_Base
begin

section \<open>The alert lifecycle\<close>

text \<open>
  \<^verbatim>\<open>internal/alerts/types.go\<close> and \<^verbatim>\<open>internal/alerts/state.go\<close>: severities, phases, rules, the
  catalogue of default rules, the presets of a silence, and the transition function
  \<open>Advance\<close>. Severities and phases are strings in Go; the named constants are constructors
  here and any other string is kept by the last constructor.
\<close>

datatype Severity = Warning | Critical | SeverityOther string

datatype Phase = NoPhase | Healthy | Pending | Firing | Recovering | PhaseOther string

definition severity_str :: "Severity \<Rightarrow> string" where
  "severity_str s = (case s of Warning \<Rightarrow> ''warning'' | Critical \<Rightarrow> ''critical'' | SeverityOther x \<Rightarrow> x)"

definition FamilyHostCPU :: string where "FamilyHostCPU = ''host_cpu_warning''"
definition FamilyHostMemory :: string where "FamilyHostMemory = ''host_memory_warning''"
definition FamilyFilesystemWarning :: string where "FamilyFilesystemWarning = ''filesystem_warning''"
definition FamilyFilesystemCritical :: string where "FamilyFilesystemCritical = ''filesystem_critical''"
definition FamilyInodeWarning :: string where "FamilyInodeWarning = ''inode_warning''"
definition FamilyInodeCritical :: string where "FamilyInodeCritical = ''inode_critical''"
definition FamilyRestartStorm :: string where "FamilyRestartStorm = ''restart_storm''"
definition FamilyOOMLoop :: string where "FamilyOOMLoop = ''oom_loop''"
definition FamilyRequiredCheck :: string where "FamilyRequiredCheck = ''required_check_failure''"
definition FamilyOptionalCheck :: string where "FamilyOptionalCheck = ''optional_check_failure''"
definition FamilyDockerDown :: string where "FamilyDockerDown = ''docker_collector_down''"
definition FamilyPersistence :: string where "FamilyPersistence = ''persistence_failure''"

lemmas family_defs =
  FamilyHostCPU_def FamilyHostMemory_def FamilyFilesystemWarning_def FamilyFilesystemCritical_def
  FamilyInodeWarning_def FamilyInodeCritical_def FamilyRestartStorm_def FamilyOOMLoop_def
  FamilyRequiredCheck_def FamilyOptionalCheck_def FamilyDockerDown_def FamilyPersistence_def

record Rule =
  rule_ID :: string
  rule_Family :: string
  rule_Name :: string
  rule_BuiltIn :: bool
  rule_Enabled :: bool
  rule_Severity :: Severity
  rule_ScopeType :: string
  rule_ScopeID :: string
  rule_Threshold :: "float64 option"
  rule_RecoveryThreshold :: "float64 option"
  rule_TriggerDuration :: duration
  rule_RecoveryDuration :: duration
  rule_Window :: duration
  rule_Cooldown :: duration
  rule_Repeat :: duration
  rule_SuppressDuringDeployment :: bool

record State =
  Phase_of :: Phase
  Since :: time
  LastNotifiedAt :: "time option"
  CooldownUntil :: "time option"

record Transition =
  State_of :: State
  Triggered :: bool
  Repeated :: bool
  Resolved :: bool

subsection \<open>The catalogue of default rules and the silence presets\<close>

definition DefaultRules :: "Rule list" where
  "DefaultRules =
    [\<lparr>rule_ID = ''builtin-host-cpu-warning'', rule_Family = FamilyHostCPU, rule_Name = ''Host CPU warning'',
      rule_BuiltIn = True, rule_Enabled = True, rule_Severity = Warning, rule_ScopeType = ''global'', rule_ScopeID = [],
      rule_Threshold = Some 90, rule_RecoveryThreshold = Some 80, rule_TriggerDuration = minutes 5,
      rule_RecoveryDuration = minutes 2, rule_Window = 0, rule_Cooldown = 0, rule_Repeat = 0,
      rule_SuppressDuringDeployment = False\<rparr>,
     \<lparr>rule_ID = ''builtin-host-memory-warning'', rule_Family = FamilyHostMemory, rule_Name = ''Host memory warning'',
      rule_BuiltIn = True, rule_Enabled = True, rule_Severity = Warning, rule_ScopeType = ''global'', rule_ScopeID = [],
      rule_Threshold = Some 85, rule_RecoveryThreshold = Some 80, rule_TriggerDuration = minutes 10,
      rule_RecoveryDuration = minutes 2, rule_Window = 0, rule_Cooldown = 0, rule_Repeat = 0,
      rule_SuppressDuringDeployment = False\<rparr>,
     \<lparr>rule_ID = ''builtin-filesystem-warning'', rule_Family = FamilyFilesystemWarning, rule_Name = ''Filesystem warning'',
      rule_BuiltIn = True, rule_Enabled = True, rule_Severity = Warning, rule_ScopeType = ''global'', rule_ScopeID = [],
      rule_Threshold = Some 80, rule_RecoveryThreshold = Some 80, rule_TriggerDuration = minutes 5,
      rule_RecoveryDuration = minutes 2, rule_Window = 0, rule_Cooldown = 0, rule_Repeat = 0,
      rule_SuppressDuringDeployment = False\<rparr>,
     \<lparr>rule_ID = ''builtin-filesystem-critical'', rule_Family = FamilyFilesystemCritical, rule_Name = ''Filesystem critical'',
      rule_BuiltIn = True, rule_Enabled = True, rule_Severity = Critical, rule_ScopeType = ''global'', rule_ScopeID = [],
      rule_Threshold = Some 95, rule_RecoveryThreshold = Some 90, rule_TriggerDuration = minutes 2,
      rule_RecoveryDuration = minutes 2, rule_Window = 0, rule_Cooldown = 0, rule_Repeat = 0,
      rule_SuppressDuringDeployment = False\<rparr>,
     \<lparr>rule_ID = ''builtin-inode-warning'', rule_Family = FamilyInodeWarning, rule_Name = ''Inode warning'',
      rule_BuiltIn = True, rule_Enabled = True, rule_Severity = Warning, rule_ScopeType = ''global'', rule_ScopeID = [],
      rule_Threshold = Some 80, rule_RecoveryThreshold = Some 80, rule_TriggerDuration = minutes 5,
      rule_RecoveryDuration = minutes 2, rule_Window = 0, rule_Cooldown = 0, rule_Repeat = 0,
      rule_SuppressDuringDeployment = False\<rparr>,
     \<lparr>rule_ID = ''builtin-inode-critical'', rule_Family = FamilyInodeCritical, rule_Name = ''Inode critical'',
      rule_BuiltIn = True, rule_Enabled = True, rule_Severity = Critical, rule_ScopeType = ''global'', rule_ScopeID = [],
      rule_Threshold = Some 95, rule_RecoveryThreshold = Some 90, rule_TriggerDuration = minutes 2,
      rule_RecoveryDuration = minutes 2, rule_Window = 0, rule_Cooldown = 0, rule_Repeat = 0,
      rule_SuppressDuringDeployment = False\<rparr>,
     \<lparr>rule_ID = ''builtin-restart-storm'', rule_Family = FamilyRestartStorm, rule_Name = ''Restart storm'',
      rule_BuiltIn = True, rule_Enabled = True, rule_Severity = Warning, rule_ScopeType = ''global'', rule_ScopeID = [],
      rule_Threshold = Some 3, rule_RecoveryThreshold = None, rule_TriggerDuration = 0,
      rule_RecoveryDuration = minutes 10, rule_Window = minutes 10, rule_Cooldown = 0, rule_Repeat = 0,
      rule_SuppressDuringDeployment = True\<rparr>,
     \<lparr>rule_ID = ''builtin-oom-loop'', rule_Family = FamilyOOMLoop, rule_Name = ''OOM loop'',
      rule_BuiltIn = True, rule_Enabled = True, rule_Severity = Critical, rule_ScopeType = ''global'', rule_ScopeID = [],
      rule_Threshold = Some 2, rule_RecoveryThreshold = None, rule_TriggerDuration = 0,
      rule_RecoveryDuration = minutes 10, rule_Window = minutes 10, rule_Cooldown = 0, rule_Repeat = 0,
      rule_SuppressDuringDeployment = False\<rparr>,
     \<lparr>rule_ID = ''builtin-required-check'', rule_Family = FamilyRequiredCheck, rule_Name = ''Required check failure'',
      rule_BuiltIn = True, rule_Enabled = True, rule_Severity = Critical, rule_ScopeType = ''global'', rule_ScopeID = [],
      rule_Threshold = None, rule_RecoveryThreshold = None, rule_TriggerDuration = minutes 2,
      rule_RecoveryDuration = minutes 2, rule_Window = 0, rule_Cooldown = 0, rule_Repeat = 0,
      rule_SuppressDuringDeployment = True\<rparr>,
     \<lparr>rule_ID = ''builtin-optional-check'', rule_Family = FamilyOptionalCheck, rule_Name = ''Optional check failure'',
      rule_BuiltIn = True, rule_Enabled = True, rule_Severity = Warning, rule_ScopeType = ''global'', rule_ScopeID = [],
      rule_Threshold = None, rule_RecoveryThreshold = None, rule_TriggerDuration = minutes 2,
      rule_RecoveryDuration = minutes 2, rule_Window = 0, rule_Cooldown = 0, rule_Repeat = 0,
      rule_SuppressDuringDeployment = True\<rparr>,
     \<lparr>rule_ID = ''builtin-docker-down'', rule_Family = FamilyDockerDown, rule_Name = ''Docker collector down'',
      rule_BuiltIn = True, rule_Enabled = True, rule_Severity = Critical, rule_ScopeType = ''global'', rule_ScopeID = [],
      rule_Threshold = None, rule_RecoveryThreshold = None, rule_TriggerDuration = minutes 2,
      rule_RecoveryDuration = minutes 1, rule_Window = 0, rule_Cooldown = 0, rule_Repeat = 0,
      rule_SuppressDuringDeployment = False\<rparr>,
     \<lparr>rule_ID = ''builtin-persistence-failure'', rule_Family = FamilyPersistence, rule_Name = ''Persistence failure'',
      rule_BuiltIn = True, rule_Enabled = True, rule_Severity = Critical, rule_ScopeType = ''global'', rule_ScopeID = [],
      rule_Threshold = None, rule_RecoveryThreshold = None, rule_TriggerDuration = 0,
      rule_RecoveryDuration = minutes 1, rule_Window = 0, rule_Cooldown = 0, rule_Repeat = 0,
      rule_SuppressDuringDeployment = False\<rparr>]"

text \<open>
  \<open>SilencePresetEnd\<close>: the start of a silence carries a time zone with a fixed \<open>offset\<close> from UTC
  (UTC itself or the offset written in the request); midnight is midnight there.
\<close>

definition SilencePresetEnd :: "duration \<Rightarrow> time \<Rightarrow> string \<Rightarrow> time \<Rightarrow> time result" where
  "SilencePresetEnd offset now preset custom =
    (if preset = ''30m'' then Inr (now + minutes 30)
     else if preset = ''1h'' then Inr (now + hours 1)
     else if preset = ''4h'' then Inr (now + hours 4)
     else if preset = ''tomorrow'' then
       (let next = now + hours 24 in Inr ((next + offset) div hours 24 * hours 24 - offset))
     else if preset = ''custom'' \<and> now < custom then Inr custom
     else Inl (ErrMsg ''invalid silence end''))"

subsection \<open>The transition function\<close>

definition Advance :: "time \<Rightarrow> State \<Rightarrow> bool \<Rightarrow> bool \<Rightarrow> bool \<Rightarrow> Rule \<Rightarrow> Transition" where
  "Advance now prev failing recovered suppressed rule =
    (let previous = (if Phase_of prev = NoPhase
                     then \<lparr>Phase_of = Healthy, Since = now, LastNotifiedAt = None, CooldownUntil = None\<rparr>
                     else prev);
         out = \<lparr>State_of = previous, Triggered = False, Repeated = False, Resolved = False\<rparr>
     in case Phase_of previous of
          Healthy \<Rightarrow>
            if failing
            then out\<lparr>State_of := \<lparr>Phase_of = Pending, Since = now, LastNotifiedAt = None,
                                 CooldownUntil = CooldownUntil previous\<rparr>\<rparr>
            else out
        | Pending \<Rightarrow>
            if \<not> failing
            then out\<lparr>State_of := \<lparr>Phase_of = Healthy, Since = now, LastNotifiedAt = None,
                                 CooldownUntil = CooldownUntil previous\<rparr>\<rparr>
            else if rule_TriggerDuration rule \<le> time_sub now (Since previous) \<and> \<not> suppressed \<and>
                    (case CooldownUntil previous of None \<Rightarrow> True | Some c \<Rightarrow> \<not> now < c)
            then out\<lparr>State_of := previous\<lparr>Phase_of := Firing, Since := now, LastNotifiedAt := Some now\<rparr>,
                     Triggered := True\<rparr>
            else out
        | Firing \<Rightarrow>
            if recovered
            then out\<lparr>State_of := previous\<lparr>Phase_of := Recovering, Since := now\<rparr>\<rparr>
            else if \<not> suppressed \<and> 0 < rule_Repeat rule \<and>
                    (case LastNotifiedAt previous of
                       None \<Rightarrow> False | Some n \<Rightarrow> rule_Repeat rule \<le> time_sub now n)
            then out\<lparr>State_of := previous\<lparr>LastNotifiedAt := Some now\<rparr>, Repeated := True\<rparr>
            else out
        | Recovering \<Rightarrow>
            if failing
            then out\<lparr>State_of := previous\<lparr>Phase_of := Firing, Since := now\<rparr>\<rparr>
            else if recovered \<and> rule_RecoveryDuration rule \<le> time_sub now (Since previous)
            then out\<lparr>State_of := \<lparr>Phase_of = Healthy, Since = now, LastNotifiedAt = None,
                                 CooldownUntil = Some (now + rule_Cooldown rule)\<rparr>,
                     Resolved := True\<rparr>
            else out
        | _ \<Rightarrow> out)"

text \<open>The phases in which an alert is open: a firing alert row exists for its key.\<close>

definition active :: "Phase \<Rightarrow> bool" where
  "active p = (p = Firing \<or> p = Recovering)"

text \<open>The four phases the database accepts in \<^verbatim>\<open>alert_evaluation_state.phase\<close>.\<close>

definition valid_phase :: "Phase \<Rightarrow> bool" where
  "valid_phase p = (p \<in> {Healthy, Pending, Firing, Recovering})"

lemma active_simps [simp]:
  "active Firing" "active Recovering" "\<not> active Healthy" "\<not> active Pending" "\<not> active NoPhase"
  "\<not> active (PhaseOther x)"
  by (simp_all add: active_def)

lemma valid_phase_simps [simp]:
  "valid_phase Firing" "valid_phase Recovering" "valid_phase Healthy" "valid_phase Pending"
  "\<not> valid_phase NoPhase" "\<not> valid_phase (PhaseOther x)"
  by (simp_all add: valid_phase_def)

lemma Advance_valid_phase:
  "valid_phase (Phase_of s) \<Longrightarrow> valid_phase (Phase_of (State_of (Advance now s f r sp rule)))"
  by (cases "Phase_of s") (simp_all add: Advance_def Let_def)

lemma Advance_at_most_one_flag:
  "\<not> (Triggered (Advance now s f r sp rule) \<and> Repeated (Advance now s f r sp rule))"
  "\<not> (Triggered (Advance now s f r sp rule) \<and> Resolved (Advance now s f r sp rule))"
  "\<not> (Repeated (Advance now s f r sp rule) \<and> Resolved (Advance now s f r sp rule))"
  by (cases "Phase_of s"; simp add: Advance_def Let_def)+

lemma Advance_Triggered_iff:
  "Triggered (Advance now s f r sp rule) \<longleftrightarrow>
     Phase_of s = Pending \<and> f \<and> \<not> sp \<and> rule_TriggerDuration rule \<le> time_sub now (Since s) \<and>
     (\<forall>c. CooldownUntil s = Some c \<longrightarrow> c \<le> now)"
  by (cases "Phase_of s") (auto simp: Advance_def Let_def split: option.splits)

lemma Advance_Resolved_iff:
  "Resolved (Advance now s f r sp rule) \<longleftrightarrow>
     Phase_of s = Recovering \<and> \<not> f \<and> r \<and> rule_RecoveryDuration rule \<le> time_sub now (Since s)"
  by (cases "Phase_of s") (auto simp: Advance_def Let_def)

lemma Advance_Repeated_iff:
  "Repeated (Advance now s f r sp rule) \<longleftrightarrow>
     Phase_of s = Firing \<and> \<not> r \<and> \<not> sp \<and> 0 < rule_Repeat rule \<and>
     (\<exists>n. LastNotifiedAt s = Some n \<and> rule_Repeat rule \<le> time_sub now n)"
  by (cases "Phase_of s") (auto simp: Advance_def Let_def split: option.splits)

lemma Advance_active:
  "active (Phase_of (State_of (Advance now s f r sp rule))) \<longleftrightarrow>
     Triggered (Advance now s f r sp rule) \<or>
     active (Phase_of s) \<and> \<not> Resolved (Advance now s f r sp rule)"
  by (cases "Phase_of s") (auto simp: Advance_def Let_def)

lemma Advance_inactive_cooldown:
  "\<not> active (Phase_of s) \<Longrightarrow> Phase_of s \<noteq> NoPhase \<Longrightarrow>
   CooldownUntil (State_of (Advance now s f r sp rule)) = CooldownUntil s"
  by (cases "Phase_of s") (auto simp: Advance_def Let_def)

lemma Advance_Resolved_state:
  "Resolved (Advance now s f r sp rule) \<Longrightarrow>
   State_of (Advance now s f r sp rule) =
     \<lparr>Phase_of = Healthy, Since = now, LastNotifiedAt = None, CooldownUntil = Some (now + rule_Cooldown rule)\<rparr>"
  by (cases "Phase_of s") (auto simp: Advance_def Let_def split: if_splits)

lemma Advance_Triggered_state:
  "Triggered (Advance now s f r sp rule) \<Longrightarrow>
   State_of (Advance now s f r sp rule) = s\<lparr>Phase_of := Firing, Since := now, LastNotifiedAt := Some now\<rparr>"
  by (cases "Phase_of s") (auto simp: Advance_def Let_def split: if_splits option.splits)

subsection \<open>Runs of the lifecycle over a restarting process\<close>

text \<open>
  Between two evaluations the state lives in \<^verbatim>\<open>alert_evaluation_state\<close>, whose time columns hold
  whole seconds: \<open>reload\<close> is the state the next evaluation reads back
  (\<^verbatim>\<open>evaluator.go\<close>, \<open>evaluate\<close> and \<open>timePtr\<close>). A run reads, advances and stores once per
  observation; the rule may be edited between two observations.
\<close>

definition reload :: "State \<Rightarrow> State" where
  "reload s = \<lparr>Phase_of = Phase_of s, Since = from_unix (unix (Since s)),
               LastNotifiedAt = map_option (\<lambda>t. from_unix (unix t)) (LastNotifiedAt s),
               CooldownUntil = map_option (\<lambda>t. from_unix (unix t)) (CooldownUntil s)\<rparr>"

record Observation =
  ob_rule :: Rule
  ob_now :: time
  ob_failing :: bool
  ob_recovered :: bool
  ob_suppressed :: bool

definition observe :: "State \<Rightarrow> Observation \<Rightarrow> Transition" where
  "observe s ob = Advance (ob_now ob) (reload s) (ob_failing ob) (ob_recovered ob) (ob_suppressed ob) (ob_rule ob)"

fun run :: "State \<Rightarrow> Observation list \<Rightarrow> Transition list" where
  "run s [] = []"
| "run s (ob # obs) = observe s ob # run (State_of (observe s ob)) obs"

fun run_state :: "State \<Rightarrow> Observation list \<Rightarrow> State" where
  "run_state s [] = s"
| "run_state s (ob # obs) = run_state (State_of (observe s ob)) obs"

lemma reload_simps [simp]:
  "Phase_of (reload s) = Phase_of s"
  "Since (reload s) = from_unix (unix (Since s))"
  "CooldownUntil (reload s) = map_option (\<lambda>t. from_unix (unix t)) (CooldownUntil s)"
  "LastNotifiedAt (reload s) = map_option (\<lambda>t. from_unix (unix t)) (LastNotifiedAt s)"
  by (simp_all add: reload_def)

lemma reload_idem [simp]: "reload (reload s) = reload s"
  by (simp add: reload_def option.map_comp comp_def)

lemma length_run [simp]: "length (run s obs) = length obs"
  by (induction s obs rule: run.induct) simp_all

lemma run_nth:
  "i < length obs \<Longrightarrow> run s obs ! i = observe (run_state s (take i obs)) (obs ! i)"
  by (induction s obs arbitrary: i rule: run.induct) (auto simp: nth_Cons split: nat.splits)

lemma run_state_append: "run_state s (xs @ ys) = run_state (run_state s xs) ys"
  by (induction s xs rule: run_state.induct) simp_all

lemma run_append: "run s (xs @ ys) = run s xs @ run (run_state s xs) ys"
  by (induction s xs rule: run.induct) simp_all

lemma run_balance:
  "count_where Triggered (run s obs) + of_bool (active (Phase_of s)) =
   count_where Resolved (run s obs) + of_bool (active (Phase_of (run_state s obs)))"
proof (induction s obs rule: run.induct)
  case (1 s)
  then show ?case by simp
next
  case (2 s ob obs)
  let ?t = "observe s ob"
  have step: "of_bool (Triggered ?t) + of_bool (active (Phase_of s)) =
              (of_bool (Resolved ?t) + of_bool (active (Phase_of (State_of ?t))) :: nat)"
    using Advance_Triggered_iff [of "ob_now ob" "reload s" "ob_failing ob" "ob_recovered ob" "ob_suppressed ob" "ob_rule ob"]
      Advance_Resolved_iff [of "ob_now ob" "reload s" "ob_failing ob" "ob_recovered ob" "ob_suppressed ob" "ob_rule ob"]
      Advance_active [of "ob_now ob" "reload s" "ob_failing ob" "ob_recovered ob" "ob_suppressed ob" "ob_rule ob"]
    unfolding observe_def by (cases "Phase_of s") (auto simp: active_def)
  show ?case using "2.IH" step by (auto split: if_splits)
qed

lemma observe_inactive_cooldown:
  "\<not> active (Phase_of s) \<Longrightarrow> valid_phase (Phase_of s) \<Longrightarrow>
   CooldownUntil (State_of (observe s ob)) = map_option (\<lambda>t. from_unix (unix t)) (CooldownUntil s)"
  unfolding observe_def by (subst Advance_inactive_cooldown) (auto simp: valid_phase_def)

lemma observe_valid_phase:
  "valid_phase (Phase_of s) \<Longrightarrow> valid_phase (Phase_of (State_of (observe s ob)))"
  by (simp add: observe_def Advance_valid_phase)

lemma observe_Resolved_state:
  "Resolved (observe s ob) \<Longrightarrow>
   State_of (observe s ob) =
     \<lparr>Phase_of = Healthy, Since = ob_now ob, LastNotifiedAt = None,
      CooldownUntil = Some (ob_now ob + rule_Cooldown (ob_rule ob))\<rparr>"
  by (simp add: observe_def Advance_Resolved_state)

lemma run_first_trigger_after_cooldown:
  assumes "\<not> active (Phase_of s)" "valid_phase (Phase_of s)"
    and "CooldownUntil s = Some c"
    and "j < length obs" "Triggered (run s obs ! j)" "\<forall>k < j. \<not> Triggered (run s obs ! k)"
  shows "from_unix (unix c) \<le> ob_now (obs ! j)"
  using assms
proof (induction s obs arbitrary: j c rule: run.induct)
  case (1 s)
  then show ?case by simp
next
  case (2 s ob obs)
  show ?case
  proof (cases j)
    case 0
    then have "Triggered (observe s ob)" using "2.prems" by simp
    then show ?thesis using "2.prems"(3) 0 by (simp add: observe_def Advance_Triggered_iff)
  next
    case (Suc i)
    let ?s = "State_of (observe s ob)"
    have nt: "\<not> Triggered (observe s ob)" using "2.prems"(6) Suc by auto
    then have "\<not> active (Phase_of ?s)" using "2.prems"(1) by (simp add: observe_def Advance_active)
    moreover have "valid_phase (Phase_of ?s)" using "2.prems"(2) by (rule observe_valid_phase)
    moreover have "CooldownUntil ?s = Some (from_unix (unix c))"
      using "2.prems" by (simp add: observe_inactive_cooldown)
    moreover have "\<forall>k < i. \<not> Triggered (run ?s obs ! k)" using "2.prems"(6) Suc by auto
    ultimately have "from_unix (unix (from_unix (unix c))) \<le> ob_now (obs ! i)"
      using "2.IH" "2.prems"(4,5) Suc by fastforce
    then show ?thesis using Suc by simp
  qed
qed

lemma run_suppressed_pending:
  assumes "Phase_of s = Pending" and "\<forall>ob \<in> set obs. ob_failing ob \<and> ob_suppressed ob"
  shows "reload (run_state s obs) = reload s"
    and "\<forall>t \<in> set (run s obs). \<not> Triggered t \<and> \<not> Repeated t \<and> \<not> Resolved t"
proof -
  have "reload (run_state s obs) = reload s \<and>
        (\<forall>t \<in> set (run s obs). \<not> Triggered t \<and> \<not> Repeated t \<and> \<not> Resolved t)"
    using assms
  proof (induction s obs rule: run.induct)
    case (1 s)
    then show ?case by simp
  next
    case (2 s ob obs)
    have "State_of (observe s ob) = reload s"
      "\<not> Triggered (observe s ob)" "\<not> Repeated (observe s ob)" "\<not> Resolved (observe s ob)"
      using "2.prems" by (simp_all add: observe_def Advance_def)
    then show ?case using "2.IH" "2.prems" by simp
  qed
  then show "reload (run_state s obs) = reload s"
    and "\<forall>t \<in> set (run s obs). \<not> Triggered t \<and> \<not> Repeated t \<and> \<not> Resolved t" by auto
qed

subsection \<open>Properties of the lifecycle\<close>

text \<open>
  C5. However often the process restarts between evaluations and however rules, silences and
  observations change, triggers and resolutions strictly alternate: starting from a state
  with no open alert, after every prefix of a run the number of triggers equals the number
  of resolutions, plus one exactly when the stored phase is firing or recovering. No alert
  is opened twice and none is resolved that was not opened.
\<close>

theorem lifecycle_alternates:
  assumes "\<not> active (Phase_of s)"
  shows "count_where Triggered (run s (take n obs)) =
         count_where Resolved (run s (take n obs)) +
         (if active (Phase_of (run_state s (take n obs))) then 1 else 0)"
  using run_balance [of s "take n obs"] assms by (auto split: if_splits)

text \<open>
  C6. Cooldown: after a resolution at time \<open>t\<close> under a rule with cooldown \<open>c\<close>, the next trigger
  of that key happens no earlier than \<open>t + c\<close>, up to the one-second truncation of the stored
  deadline.
\<close>

theorem lifecycle_cooldown:
  assumes "valid_phase (Phase_of s)" "i < j" "j < length obs"
    and "Resolved (run s obs ! i)" "Triggered (run s obs ! j)"
    and "\<forall>k \<in> {i<..<j}. \<not> Triggered (run s obs ! k)"
  shows "ob_now (obs ! i) + rule_Cooldown (ob_rule (obs ! i)) - seconds 1 < ob_now (obs ! j)"
proof -
  let ?s = "run_state s (take (Suc i) obs)" and ?obs = "drop (Suc i) obs" and ?j = "j - Suc i"
  have i: "i < length obs" using assms by simp
  have st: "?s = State_of (run s obs ! i)"
    using i by (simp add: take_Suc_conv_app_nth run_state_append run_nth)
  have rest: "run s obs ! k = run ?s ?obs ! (k - Suc i)" if "i < k" "k < length obs" for k
  proof -
    have "run s obs = run s (take (Suc i) obs) @ run ?s ?obs"
      by (metis append_take_drop_id run_append)
    moreover have "length (run s (take (Suc i) obs)) = Suc i" using i by simp
    ultimately show ?thesis using that by (simp add: nth_append)
  qed
  have res: "?s = \<lparr>Phase_of = Healthy, Since = ob_now (obs ! i), LastNotifiedAt = None,
       CooldownUntil = Some (ob_now (obs ! i) + rule_Cooldown (ob_rule (obs ! i)))\<rparr>"
    using st assms(4) i by (simp add: run_nth observe_Resolved_state)
  have "from_unix (unix (ob_now (obs ! i) + rule_Cooldown (ob_rule (obs ! i)))) \<le> ob_now (?obs ! ?j)"
  proof (rule run_first_trigger_after_cooldown [of ?s])
    show "Triggered (run ?s ?obs ! ?j)" using rest [of j] assms by simp
    show "\<forall>k < ?j. \<not> Triggered (run ?s ?obs ! k)"
    proof (intro allI impI)
      fix k assume "k < ?j"
      then have k: "i < Suc i + k" "Suc i + k < j" by auto
      then have "\<not> Triggered (run s obs ! (Suc i + k))" using assms(6) by simp
      then show "\<not> Triggered (run ?s ?obs ! k)" using rest [of "Suc i + k"] k assms(3) by simp
    qed
  qed (use res assms in simp_all)
  moreover have "?obs ! ?j = obs ! j" using assms(2,3) by simp
  ultimately show ?thesis
    using from_unix_gt [of "ob_now (obs ! i) + rule_Cooldown (ob_rule (obs ! i))"]
    by (simp add: seconds_def nanos_def)
qed

definition check_rule :: Rule where
  "check_rule = (DefaultRules ! 8)\<lparr>rule_Cooldown := seconds 300, rule_Repeat := seconds 7200\<rparr>"

definition sample_ob :: "int \<Rightarrow> bool \<Rightarrow> bool \<Rightarrow> Observation" where
  "sample_ob t f sp = \<lparr>ob_rule = check_rule, ob_now = seconds t, ob_failing = f, ob_recovered = \<not> f, ob_suppressed = sp\<rparr>"

definition sample_state :: "Phase \<Rightarrow> int \<Rightarrow> State" where
  "sample_state p t = \<lparr>Phase_of = p, Since = seconds t, LastNotifiedAt = None, CooldownUntil = None\<rparr>"

theorem lifecycle_alternates_witness:
  "let s = sample_state Healthy 0; obs = [sample_ob 0 True False, sample_ob 120 True False]
   in \<not> active (Phase_of s) \<and>
      count_where Triggered (run s (take 2 obs)) =
      count_where Resolved (run s (take 2 obs)) +
      (if active (Phase_of (run_state s (take 2 obs))) then 1 else 0)"
  unfolding Let_def
  apply (intro conjI)
   apply code_simp
  apply (rule lifecycle_alternates)
  apply code_simp
  done

theorem lifecycle_cooldown_witness:
  "let s = sample_state Recovering 0;
       obs = [sample_ob 120 False False, sample_ob 130 True False, sample_ob 300 True False, sample_ob 420 True False]
   in Resolved (run s obs ! 0) \<and> Triggered (run s obs ! 3) \<and>
      ob_now (obs ! 0) + rule_Cooldown (ob_rule (obs ! 0)) - seconds 1 < ob_now (obs ! 3)"
  unfolding Let_def
  apply (intro conjI)
    apply code_simp
   apply code_simp
  apply (rule lifecycle_cooldown [of "sample_state Recovering 0"])
       apply code_simp+
  done

end
