(* ===== verification/Monitor_Schema.thy ===== *)
theory Monitor_Schema
  imports Alert_State "HOL-Library.Product_Lexorder" "HOL-Library.List_Lexorder"
begin

section \<open>The tables of checks, alerts, incidents and notifications\<close>

text \<open>
  The rows of the SQLite tables that the alert evaluator, the incident repository, the
  delivery worker and the check scheduler share (\<^verbatim>\<open>migrations/004, 015, 017\<close>), and the database as
  the record of these tables. A nullable column is an option; times are the integers the code
  stores (whole seconds, milliseconds for events). \<open>channel_secrets\<close> is the part of
  \<^verbatim>\<open>encrypted_secrets\<close> that holds channel secrets, by key, as the values that were encrypted. \<open>draws\<close> counts the identifiers taken from
  \<open>crypto/rand\<close> so far; the source of identifiers is a parameter \<open>rnd\<close> of the operations, and
  the \<open>n\<close>-th identifier is \<open>rnd n\<close>.
\<close>

record alert_rule_row =
  ar_id :: string
  ar_family :: string
  ar_name :: string
  ar_built_in :: bool
  ar_enabled :: bool
  ar_severity :: Severity
  ar_scope_type :: string
  ar_scope_id :: string
  ar_threshold :: "float64 option"
  ar_recovery_threshold :: "float64 option"
  ar_trigger_seconds :: int
  ar_recovery_seconds :: int
  ar_window_seconds :: int
  ar_cooldown_seconds :: int
  ar_repeat_seconds :: int
  ar_suppress :: bool
  ar_created_at :: int
  ar_updated_at :: int

record eval_row =
  es_key :: string
  es_rule_id :: string
  es_target_type :: string
  es_target_id :: string
  es_phase :: Phase
  es_since :: int
  es_evaluated_at :: int
  es_notified_at :: "int option"
  es_cooldown_until :: "int option"
  es_observed :: float64

record alert_row =
  al_id :: string
  al_key :: string
  al_rule_id :: string
  al_family :: string
  al_severity :: Severity
  al_target_type :: string
  al_target_id :: string
  al_status :: string
  al_started_at :: int
  al_resolved_at :: "int option"
  al_last_observed_at :: int
  al_observed :: "float64 option"
  al_message :: string

record silence_row =
  si_id :: string
  si_scope_type :: string
  si_scope_id :: string
  si_reason :: string
  si_starts_at :: int
  si_ends_at :: int
  si_created_by :: string
  si_created_at :: int

record grace_row =
  gp_resource_id :: string
  gp_starts_at :: int
  gp_ends_at :: int
  gp_confidence :: string

record event_row =
  ev_id :: string
  ev_ts :: int
  ev_resource_id :: "string option"
  ev_type :: string
  ev_severity :: string
  ev_summary :: string
  ev_correlation_key :: string
  ev_source :: string
  ev_created_at :: int

record resource_row =
  rs_id :: string
  rs_project_name :: "string option"
  rs_status :: string
  rs_archived_at :: "int option"

record check_row =
  hc_id :: string
  hc_resource_id :: string
  hc_name :: string
  hc_url :: string
  hc_method :: string
  hc_interval_seconds :: int
  hc_timeout_seconds :: int
  hc_status_min :: int
  hc_status_max :: int
  hc_body_substring :: "string option"
  hc_required :: bool
  hc_enabled :: bool
  hc_created_at :: int
  hc_updated_at :: int

record check_state_row =
  cs_check_id :: string
  cs_status :: string
  cs_failure_code :: "string option"
  cs_latency_ms :: "int option"
  cs_checked_at :: "int option"
  cs_successes :: int
  cs_failures :: int
  cs_next_run_at :: "int option"
  cs_updated_at :: int

record filesystem_row =
  fs_mount_key :: string
  fs_ts :: int
  fs_used_pct :: "float64 option"
  fs_inodes_pct :: "float64 option"

record incident_row =
  in_id :: string
  in_group_key :: string
  in_status :: string
  in_severity :: string
  in_target_type :: string
  in_target_id :: string
  in_title :: string
  in_opened_at :: int
  in_updated_at :: int
  in_resolved_at :: "int option"
  in_version :: int
  in_next_reminder_at :: "int option"

record member_row =
  ia_incident_id :: string
  ia_alert_id :: string
  ia_joined_at :: int
  ia_resolved_at :: "int option"

text \<open>
  A delivery stores the JSON text of its payload and a channel the JSON text of its
  configuration: the tables hold the encoded values here. \<open>Channel.Config\<close> is a
  \<^verbatim>\<open>map[string]any\<close> of which only string values are read.
\<close>

record MemberAlert =
  ma_ID :: string
  ma_Family :: string
  ma_Severity :: Severity
  ma_Status :: string
  ma_Message :: string
  ma_StartedAt :: time
  ma_ResolvedAt :: "time option"

record Incident =
  inc_ID :: string
  inc_GroupKey :: string
  inc_Status :: string
  inc_Severity :: string
  inc_TargetType :: string
  inc_TargetID :: string
  inc_Title :: string
  inc_AlertCount :: nat
  inc_FiringCount :: nat
  inc_OpenedAt :: time
  inc_UpdatedAt :: time
  inc_ResolvedAt :: "time option"
  inc_Version :: int
  inc_Alerts :: "MemberAlert list"

datatype Payload =
    IncidentPayload (payload_event: string) (payload_delivery: string) (payload_key: string) (payload_incident: Incident)
  | TestPayload (payload_delivery: string) (payload_key: string)

datatype json = JStr string | JOther string

type_synonym config = "string \<Rightarrow> json option"

record ChannelSecrets =
  sec_URL :: string
  sec_BearerToken :: string
  sec_SigningSecret :: string
  sec_Host :: string
  sec_Username :: string
  sec_Password :: string
  sec_Sender :: string
  sec_Recipients :: "string list"

record channel_row =
  ch_id :: string
  ch_name :: string
  ch_kind :: string
  ch_enabled :: bool
  ch_minimum_severity :: string
  ch_notify_resolved :: bool
  ch_config :: config
  ch_secret_ref :: string
  ch_created_at :: int
  ch_updated_at :: int
  ch_deleted_at :: "int option"

record delivery_row =
  nd_id :: string
  nd_channel_id :: string
  nd_incident_id :: "string option"
  nd_event_type :: string
  nd_payload :: Payload
  nd_idempotency_key :: string
  nd_status :: string
  nd_attempts :: int
  nd_next_attempt_at :: "int option"
  nd_started_at :: "int option"
  nd_completed_at :: "int option"
  nd_failure_code :: "string option"
  nd_created_at :: int
  nd_updated_at :: int

record db =
  alert_rules :: "alert_rule_row list"
  alert_evaluation_state :: "eval_row list"
  alerts :: "alert_row list"
  silences :: "silence_row list"
  deployment_grace_periods :: "grace_row list"
  events :: "event_row list"
  resources :: "resource_row list"
  health_checks :: "check_row list"
  health_check_state :: "check_state_row list"
  filesystem_samples_1m :: "filesystem_row list"
  incidents :: "incident_row list"
  incident_alerts :: "member_row list"
  notification_channels :: "channel_row list"
  notification_deliveries :: "delivery_row list"
  channel_secrets :: "string \<Rightarrow> ChannelSecrets option"
  draws :: nat

definition empty_db :: db where
  "empty_db = \<lparr>alert_rules = [], alert_evaluation_state = [], alerts = [], silences = [],
    deployment_grace_periods = [], events = [], resources = [], health_checks = [],
    health_check_state = [], filesystem_samples_1m = [], incidents = [], incident_alerts = [],
    notification_channels = [], notification_deliveries = [], channel_secrets = (\<lambda>_. None), draws = 0\<rparr>"

text \<open>A new identifier.\<close>

definition draw :: "(nat \<Rightarrow> string) \<Rightarrow> db \<Rightarrow> string \<times> db" where
  "draw rnd d = (rnd (draws d), d\<lparr>draws := Suc (draws d)\<rparr>)"

end
