(* ===== verification/Alert_Store.thy ===== *)
theory Alert_Store
  imports Monitor_Schema
begin

section \<open>The alert repository\<close>

text \<open>
  \<^verbatim>\<open>internal/alerts/repository.go\<close>: seeding, listing and editing rules, listing alerts, silences,
  and the periodic cleanup. \<open>now\<close> is the reading of \<open>time.Now()\<close>. A statement refused by a
  primary key, a uniqueness or a check constraint returns \<open>ErrConstraint\<close>.
\<close>

subsection \<open>Rules\<close>

definition rule_row :: "Rule \<Rightarrow> bool \<Rightarrow> int \<Rightarrow> int \<Rightarrow> int \<Rightarrow> alert_rule_row" where
  "rule_row v built_in cooldown repeat now =
    \<lparr>ar_id = rule_ID v, ar_family = rule_Family v, ar_name = rule_Name v, ar_built_in = built_in,
     ar_enabled = rule_Enabled v, ar_severity = rule_Severity v, ar_scope_type = rule_ScopeType v,
     ar_scope_id = rule_ScopeID v, ar_threshold = rule_Threshold v,
     ar_recovery_threshold = rule_RecoveryThreshold v,
     ar_trigger_seconds = trunc_div (rule_TriggerDuration v) (seconds 1),
     ar_recovery_seconds = trunc_div (rule_RecoveryDuration v) (seconds 1),
     ar_window_seconds = trunc_div (rule_Window v) (seconds 1),
     ar_cooldown_seconds = cooldown, ar_repeat_seconds = repeat,
     ar_suppress = rule_SuppressDuringDeployment v, ar_created_at = now, ar_updated_at = now\<rparr>"

definition same_scope :: "alert_rule_row \<Rightarrow> alert_rule_row \<Rightarrow> bool" where
  "same_scope a b = (ar_family a = ar_family b \<and> ar_scope_type a = ar_scope_type b \<and> ar_scope_id a = ar_scope_id b)"

definition valid_severity :: "Severity \<Rightarrow> bool" where
  "valid_severity s = (s = Warning \<or> s = Critical)"

definition seed_rule :: "time \<Rightarrow> Rule \<Rightarrow> db \<Rightarrow> db result" where
  "seed_rule now v d =
    (let row = rule_row v (rule_BuiltIn v) 300 7200 (unix now)
     in if list_ex (\<lambda>r. ar_id r = ar_id row) (alert_rules d) then Inr d
        else if list_ex (same_scope row) (alert_rules d) then Inl (ErrConstraint ''alert_rules'')
        else Inr (d\<lparr>alert_rules := alert_rules d @ [row]\<rparr>))"

definition SeedDefaults :: "time \<Rightarrow> db \<Rightarrow> db result" where
  "SeedDefaults now d = fold_result (seed_rule now) DefaultRules d"

definition scan_rule :: "alert_rule_row \<Rightarrow> Rule" where
  "scan_rule r =
    \<lparr>rule_ID = ar_id r, rule_Family = ar_family r, rule_Name = ar_name r, rule_BuiltIn = ar_built_in r,
     rule_Enabled = ar_enabled r, rule_Severity = ar_severity r, rule_ScopeType = ar_scope_type r,
     rule_ScopeID = ar_scope_id r, rule_Threshold = ar_threshold r,
     rule_RecoveryThreshold = ar_recovery_threshold r,
     rule_TriggerDuration = wrap64 (seconds (ar_trigger_seconds r)),
     rule_RecoveryDuration = wrap64 (seconds (ar_recovery_seconds r)),
     rule_Window = wrap64 (seconds (ar_window_seconds r)),
     rule_Cooldown = wrap64 (seconds (ar_cooldown_seconds r)),
     rule_Repeat = wrap64 (seconds (ar_repeat_seconds r)),
     rule_SuppressDuringDeployment = ar_suppress r\<rparr>"

definition Rules :: "db \<Rightarrow> Rule list" where
  "Rules d = map scan_rule (sort_key (\<lambda>r. (\<not> ar_built_in r, ar_name r)) (alert_rules d))"

definition UpdateRule :: "time \<Rightarrow> Rule \<Rightarrow> db \<Rightarrow> db result" where
  "UpdateRule now v d =
    (if \<not> valid_severity (rule_Severity v) then Inl (ErrMsg ''invalid severity'')
     else if rule_TriggerDuration v < 0 \<or> rule_RecoveryDuration v < 0 \<or> rule_Repeat v < 0 \<or> rule_Cooldown v < 0
     then Inl (ErrMsg ''invalid duration'')
     else if \<not> list_ex (\<lambda>r. ar_id r = rule_ID v) (alert_rules d) then Inl ErrNoRows
     else Inr (d\<lparr>alert_rules := upd_where (\<lambda>r. ar_id r = rule_ID v)
       (\<lambda>r. r\<lparr>ar_enabled := rule_Enabled v, ar_severity := rule_Severity v,
              ar_threshold := rule_Threshold v, ar_recovery_threshold := rule_RecoveryThreshold v,
              ar_trigger_seconds := trunc_div (rule_TriggerDuration v) (seconds 1),
              ar_recovery_seconds := trunc_div (rule_RecoveryDuration v) (seconds 1),
              ar_window_seconds := trunc_div (rule_Window v) (seconds 1),
              ar_cooldown_seconds := trunc_div (rule_Cooldown v) (seconds 1),
              ar_repeat_seconds := trunc_div (rule_Repeat v) (seconds 1),
              ar_suppress := rule_SuppressDuringDeployment v, ar_updated_at := unix now\<rparr>)
       (alert_rules d)\<rparr>))"

definition CreateRule :: "time \<Rightarrow> Rule \<Rightarrow> db \<Rightarrow> db result" where
  "CreateRule now v d =
    (if rule_ID v = [] \<or> rule_Family v = [] \<or> rule_Name v = [] \<or> rule_ScopeType v = ''global'' \<or> rule_ScopeID v = []
     then Inl (ErrMsg ''invalid scoped rule'')
     else if \<not> valid_severity (rule_Severity v) then Inl (ErrMsg ''invalid severity'')
     else if rule_ScopeType v \<notin> {''host'', ''filesystem'', ''project'', ''resource'', ''check''}
     then Inl (ErrMsg ''invalid scope'')
     else let row = rule_row v False (trunc_div (rule_Cooldown v) (seconds 1))
                      (trunc_div (rule_Repeat v) (seconds 1)) (unix now)
          in if list_ex (\<lambda>r. ar_id r = ar_id row \<or> same_scope row r) (alert_rules d)
             then Inl (ErrConstraint ''alert_rules'')
             else Inr (d\<lparr>alert_rules := alert_rules d @ [row]\<rparr>))"

subsection \<open>Alerts\<close>

record Alert =
  alert_ID :: string
  alert_DedupKey :: string
  alert_RuleID :: string
  alert_Family :: string
  alert_Severity :: Severity
  alert_TargetType :: string
  alert_TargetID :: string
  alert_Status :: string
  alert_StartedAt :: time
  alert_ResolvedAt :: "time option"
  alert_LastObservedAt :: time
  alert_ObservedValue :: "float64 option"
  alert_Message :: string
  alert_IncidentID :: string

definition scan_alert :: "alert_row \<Rightarrow> string \<Rightarrow> Alert" where
  "scan_alert a inc =
    \<lparr>alert_ID = al_id a, alert_DedupKey = al_key a, alert_RuleID = al_rule_id a, alert_Family = al_family a,
     alert_Severity = al_severity a, alert_TargetType = al_target_type a, alert_TargetID = al_target_id a,
     alert_Status = al_status a, alert_StartedAt = from_unix (al_started_at a),
     alert_ResolvedAt = map_option from_unix (al_resolved_at a),
     alert_LastObservedAt = from_unix (al_last_observed_at a), alert_ObservedValue = al_observed a,
     alert_Message = al_message a, alert_IncidentID = inc\<rparr>"

text \<open>The left join with \<^verbatim>\<open>incident_alerts\<close>: a row without a match has the empty incident id.\<close>

definition join_incident :: "db \<Rightarrow> alert_row \<Rightarrow> (alert_row \<times> string) list" where
  "join_incident d a =
    (case filter (\<lambda>m. ia_alert_id m = al_id a) (incident_alerts d) of
       [] \<Rightarrow> [(a, [])] | ms \<Rightarrow> map (\<lambda>m. (a, ia_incident_id m)) ms)"

definition Alerts :: "string \<Rightarrow> string \<Rightarrow> string \<Rightarrow> string \<Rightarrow> int \<Rightarrow> int \<Rightarrow> db \<Rightarrow> Alert list" where
  "Alerts status severity resource family limit offset d =
    (let limit = (if limit < 1 \<or> limit > 100 then 50 else limit);
         offset = (if offset < 0 then 0 else offset);
         rows = filter (\<lambda>(a, _). (status = [] \<or> al_status a = status) \<and>
                        (severity = [] \<or> severity_str (al_severity a) = severity) \<and>
                        (resource = [] \<or> al_target_id a = resource) \<and> (family = [] \<or> al_family a = family))
                  (concat (map (join_incident d) (alerts d)))
     in map (\<lambda>(a, i). scan_alert a i)
          (take (nat limit) (drop (nat offset)
             (sort_key (\<lambda>(a, _). (if al_severity a = Critical then 0 else 1 :: int, - al_started_at a)) rows))))"

subsection \<open>Silences\<close>

record Silence =
  silence_ID :: string
  silence_ScopeType :: string
  silence_ScopeID :: string
  silence_Reason :: string
  silence_StartsAt :: time
  silence_EndsAt :: time
  silence_CreatedBy :: string
  silence_CreatedAt :: time

definition scan_silence :: "silence_row \<Rightarrow> Silence" where
  "scan_silence s =
    \<lparr>silence_ID = si_id s, silence_ScopeType = si_scope_type s, silence_ScopeID = si_scope_id s,
     silence_Reason = si_reason s, silence_StartsAt = from_unix (si_starts_at s),
     silence_EndsAt = from_unix (si_ends_at s), silence_CreatedBy = si_created_by s,
     silence_CreatedAt = from_unix (si_created_at s)\<rparr>"

definition Silences :: "time \<Rightarrow> bool \<Rightarrow> db \<Rightarrow> Silence list" where
  "Silences now activeOnly d =
    map scan_silence (sort_key (\<lambda>s. - si_ends_at s)
      (filter (\<lambda>s. activeOnly \<longrightarrow> si_starts_at s \<le> unix now \<and> unix now < si_ends_at s) (silences d)))"

definition CreateSilence :: "(nat \<Rightarrow> string) \<Rightarrow> time \<Rightarrow> Silence \<Rightarrow> db \<Rightarrow> db result" where
  "CreateSilence rnd now s d =
    (if time_sub (silence_EndsAt s) (silence_StartsAt s) \<le> 0 \<or>
        hours (365 * 24) < time_sub (silence_EndsAt s) (silence_StartsAt s) \<or>
        length (silence_Reason s) < 1 \<or> 500 < length (silence_Reason s)
     then Inl (ErrMsg ''invalid silence'')
     else let (sid, d) = (if silence_ID s = [] then draw rnd d else (silence_ID s, d));
              row = \<lparr>si_id = sid, si_scope_type = silence_ScopeType s, si_scope_id = silence_ScopeID s,
                     si_reason = silence_Reason s, si_starts_at = unix (silence_StartsAt s),
                     si_ends_at = unix (silence_EndsAt s), si_created_by = silence_CreatedBy s,
                     si_created_at = unix now\<rparr>
          in if silence_ScopeType s \<notin> {''server'', ''project'', ''resource'', ''rule''} \<or>
                si_ends_at row \<le> si_starts_at row \<or>
                list_ex (\<lambda>r. si_id r = sid) (silences d)
             then Inl (ErrConstraint ''silences'')
             else Inr (d\<lparr>silences := silences d @ [row]\<rparr>))"

definition DeleteSilence :: "string \<Rightarrow> db \<Rightarrow> db result" where
  "DeleteSilence sid d =
    (if list_ex (\<lambda>s. si_id s = sid) (silences d)
     then Inr (d\<lparr>silences := del_where (\<lambda>s. si_id s = sid) (silences d)\<rparr>)
     else Inl ErrNoRows)"

subsection \<open>Cleanup\<close>

text \<open>
  Removing an alert row removes its membership in an incident (\<^verbatim>\<open>ON DELETE CASCADE\<close>).
\<close>

definition expired_alert :: "time \<Rightarrow> alert_row \<Rightarrow> bool" where
  "expired_alert now a = (al_status a = ''resolved'' \<and>
     (case al_resolved_at a of None \<Rightarrow> False | Some t \<Rightarrow> t < unix (now - hours (365 * 24))))"

definition Cleanup :: "time \<Rightarrow> db \<Rightarrow> db result" where
  "Cleanup now d = Inr (d\<lparr>alerts := del_where (expired_alert now) (alerts d),
     incident_alerts := del_where (\<lambda>m. list_ex (\<lambda>a. expired_alert now a \<and> al_id a = ia_alert_id m) (alerts d))
                          (incident_alerts d),
     silences := del_where (\<lambda>s. si_ends_at s < unix (now - hours (90 * 24))) (silences d),
     deployment_grace_periods := del_where (\<lambda>g. gp_ends_at g < unix now) (deployment_grace_periods d)\<rparr>)"

definition dedup :: "string \<Rightarrow> string \<Rightarrow> string" where
  "dedup family target = family @ '':'' @ target"

definition message :: "Rule \<Rightarrow> string \<Rightarrow> string" where
  "message rule target = rule_Name rule @ '' on '' @ target"

lemma in_set_Rules: "r \<in> set (Rules d) \<longleftrightarrow> (\<exists>row \<in> set (alert_rules d). r = scan_rule row)"
  by (auto simp: Rules_def)

end
