(* ===== verification/Metrics_Types.thy ===== *)
theory Metrics_Types
  imports Binnacle_Base
begin

section \<open>The types of the metrics engine\<close>

text \<open>
  \<^verbatim>\<open>internal/metrics/types.go\<close>: observations, snapshots, events and batches, with the fields of the
  Go structs. An optional value (a Go pointer) is an option; a sequence number is a natural
  number (the counter would have to pass \<open>2 ^ 64\<close> to wrap).
\<close>

datatype ResourceStatus =
  StatusHealthy | StatusPaused | StatusUnknown | StatusDegraded | StatusDown | StatusArchived | StatusOther string

datatype CollectorState =
  CollectorHealthy | CollectorDegraded | CollectorDown | CollectorUnknown | CollectorOther string

definition ResourceID_Valid :: "string \<Rightarrow> bool" where
  "ResourceID_Valid i = (has_prefix i ''res_'' \<and> length i > 4)"

definition ContainerID_Valid :: "string \<Rightarrow> bool" where
  "ContainerID_Valid i = (length i \<ge> 12)"

definition ResourceStatus_Valid :: "ResourceStatus \<Rightarrow> bool" where
  "ResourceStatus_Valid s = (case s of StatusOther _ \<Rightarrow> False | _ \<Rightarrow> True)"

definition CollectorState_Valid :: "CollectorState \<Rightarrow> bool" where
  "CollectorState_Valid s = (case s of CollectorOther _ \<Rightarrow> False | _ \<Rightarrow> True)"

record HostObservation =
  host_At :: time
  host_CPUPercent :: "float64 option"
  host_CPUUserPercent :: "float64 option"
  host_CPUSystemPercent :: "float64 option"
  host_CPUIOWaitPercent :: "float64 option"
  host_CPUStealPercent :: "float64 option"
  host_MemoryUsedBytes :: "int option"
  host_MemoryTotalBytes :: "int option"
  host_MemoryAvailableBytes :: "int option"
  host_MemoryPercent :: "float64 option"
  host_MemoryCachedBytes :: "int option"
  host_MemoryBuffersBytes :: "int option"
  host_SwapUsedBytes :: "int option"
  host_SwapTotalBytes :: "int option"
  host_SwapPercent :: "float64 option"
  host_Load1 :: "float64 option"
  host_Load5 :: "float64 option"
  host_Load15 :: "float64 option"
  host_NetworkRXBPS :: "float64 option"
  host_NetworkTXBPS :: "float64 option"
  host_NetworkRXPacketsPS :: "float64 option"
  host_NetworkTXPacketsPS :: "float64 option"
  host_NetworkRXErrorsDelta :: "int option"
  host_NetworkTXErrorsDelta :: "int option"
  host_NetworkRXDropsDelta :: "int option"
  host_NetworkTXDropsDelta :: "int option"
  host_DiskReadBPS :: "float64 option"
  host_DiskWriteBPS :: "float64 option"
  host_DiskReadIOPS :: "float64 option"
  host_DiskWriteIOPS :: "float64 option"
  host_DiskUsedBytes :: "int option"
  host_DiskTotalBytes :: "int option"
  host_UptimeSeconds :: "float64 option"

record ContainerObservation =
  co_ID :: string
  co_ResourceID :: string
  co_At :: time
  co_CPUHostPercent :: "float64 option"
  co_MemoryBytes :: "int option"
  co_RXBPS :: "float64 option"
  co_TXBPS :: "float64 option"
  co_BlockReadBPS :: "float64 option"
  co_BlockWriteBPS :: "float64 option"
  co_Status :: ResourceStatus

record ResourceComponent =
  comp_ID :: string
  comp_Name :: string
  comp_Status :: ResourceStatus
  comp_RuntimeState :: string
  comp_HealthStatus :: string
  comp_CPUHostPercent :: "float64 option"
  comp_MemoryBytes :: "int option"
  comp_RXBPS :: "float64 option"
  comp_TXBPS :: "float64 option"
  comp_BlockReadBPS :: "float64 option"
  comp_BlockWriteBPS :: "float64 option"
  comp_PIDs :: "int option"

record ResourceSnapshot =
  res_ID :: string
  res_Name :: string
  res_Status :: ResourceStatus
  res_SignalStatus :: ResourceStatus
  res_CPUHostPercent :: "float64 option"
  res_MemoryBytes :: "int option"
  res_RXBPS :: "float64 option"
  res_TXBPS :: "float64 option"
  res_BlockReadBPS :: "float64 option"
  res_BlockWriteBPS :: "float64 option"
  res_LastSeenAt :: time
  res_Category :: string
  res_Context :: string
  res_Project :: string
  res_Environment :: string
  res_Infrastructure :: bool
  res_Components :: "ResourceComponent list"
  res_StableKey :: string
  res_SourceKind :: string
  res_ManualName :: bool
  res_ManualContext :: bool

record CollectorHealth =
  coll_Name :: string
  coll_State :: CollectorState
  coll_Reason :: string
  coll_FreshAt :: time

record Event =
  event_ID :: nat
  event_At :: time
  event_Type :: string
  event_ResourceID :: string
  event_ContainerInstance :: string
  event_Severity :: string
  event_Message :: string
  event_Details :: string
  event_CorrelationKey :: string

record Snapshot =
  snap_Sequence :: nat
  snap_At :: time
  snap_BootIdentity :: string
  snap_Host :: HostObservation
  snap_Resources :: "ResourceSnapshot list"
  snap_Collectors :: "string \<Rightarrow> CollectorHealth option"

record FilesystemObservation =
  fso_At :: time
  fso_MountKey :: string
  fso_MountPoint :: string
  fso_FSType :: string
  fso_TotalBytes :: "int option"
  fso_UsedBytes :: "int option"
  fso_AvailableBytes :: "int option"
  fso_UsedPercent :: "float64 option"
  fso_InodesTotal :: "int option"
  fso_InodesUsed :: "int option"
  fso_InodesUsedPercent :: "float64 option"

record PersistenceBatch =
  batch_Snapshot :: Snapshot
  batch_Events :: "Event list"
  batch_Filesystems :: "FilesystemObservation list"

record TimeRange =
  tr_From :: time
  tr_To :: time

text \<open>The zero \<open>time.Time\<close> is 1 January of year 1.\<close>

definition zero_time :: time where
  "zero_time = from_unix (- 62135596800)"

definition TimeRange_Validate :: "TimeRange \<Rightarrow> unit result" where
  "TimeRange_Validate r =
    (if tr_From r = zero_time \<or> tr_To r = zero_time \<or> \<not> tr_From r < tr_To r
     then Inl (ErrMsg ''time range start must precede end'') else Inr ())"

end
