(* ===== verification/Alert_Evaluator.thy ===== *)
theory Alert_Evaluator
  imports Alert_Store Metrics_Types
begin

section \<open>The alert evaluator\<close>

text \<open>
  \<^verbatim>\<open>internal/alerts/evaluator.go\<close>. One call of \<open>evaluate\<close> is one transaction: it reads the stored
  phase of a key, advances it, stores it, and on a trigger, repeat or resolution writes the
  alert row, calls the incident sink and inserts an event, whose primary key SQLite enforces.
  \<open>Evaluate\<close> runs the whole catalogue; each \<open>evaluate\<close> commits on its own, so that a failing one
  ends the round and keeps what the earlier ones committed. The incident sink is an interface
  of the code and a parameter here. The iteration order of Go maps is the parameter \<open>ord\<close>.
\<close>

text \<open>The interface \<open>IncidentSink\<close>; \<open>None\<close> is the nil interface.\<close>

record IncidentSink =
  AlertFiredTx :: "Alert \<Rightarrow> time \<Rightarrow> db \<Rightarrow> db result"
  AlertResolvedTx :: "string \<Rightarrow> time \<Rightarrow> db \<Rightarrow> db result"

definition fire_sink :: "IncidentSink option \<Rightarrow> Alert \<Rightarrow> time \<Rightarrow> db \<Rightarrow> db result" where
  "fire_sink sink a now d = (case sink of None \<Rightarrow> Inr d | Some s \<Rightarrow> AlertFiredTx s a now d)"

definition resolve_sink :: "IncidentSink option \<Rightarrow> string \<Rightarrow> time \<Rightarrow> db \<Rightarrow> db result" where
  "resolve_sink sink i now d = (case sink of None \<Rightarrow> Inr d | Some s \<Rightarrow> AlertResolvedTx s i now d)"

subsection \<open>One evaluation\<close>

definition load_state :: "time \<Rightarrow> string \<Rightarrow> db \<Rightarrow> State" where
  "load_state now key d =
    (case find (\<lambda>r. es_key r = key) (alert_evaluation_state d) of
       None \<Rightarrow> \<lparr>Phase_of = Healthy, Since = now, LastNotifiedAt = None, CooldownUntil = None\<rparr>
     | Some r \<Rightarrow> \<lparr>Phase_of = es_phase r, Since = from_unix (es_since r),
                  LastNotifiedAt = map_option from_unix (es_notified_at r),
                  CooldownUntil = map_option from_unix (es_cooldown_until r)\<rparr>)"

definition save_state ::
  "string \<Rightarrow> Rule \<Rightarrow> string \<Rightarrow> string \<Rightarrow> State \<Rightarrow> time \<Rightarrow> float64 \<Rightarrow> db \<Rightarrow> db" where
  "save_state key rule targetType target s now value d =
    (let row = \<lparr>es_key = key, es_rule_id = rule_ID rule, es_target_type = targetType, es_target_id = target,
                es_phase = Phase_of s, es_since = unix (Since s), es_evaluated_at = unix now,
                es_notified_at = map_option unix (LastNotifiedAt s),
                es_cooldown_until = map_option unix (CooldownUntil s), es_observed = value\<rparr>
     in d\<lparr>alert_evaluation_state :=
           upsert (\<lambda>r. es_key r = key)
             (\<lambda>r. row\<lparr>es_target_type := es_target_type r, es_target_id := es_target_id r\<rparr>)
             row (alert_evaluation_state d)\<rparr>)"

definition suppressedTx :: "Rule \<Rightarrow> string \<Rightarrow> time \<Rightarrow> db \<Rightarrow> bool" where
  "suppressedTx rule target now d =
    (list_ex (\<lambda>s. si_starts_at s \<le> unix now \<and> unix now < si_ends_at s \<and>
        (si_scope_type s = ''server'' \<or>
         si_scope_type s = ''resource'' \<and> si_scope_id s = target \<or>
         si_scope_type s = ''rule'' \<and> si_scope_id s = rule_ID rule \<or>
         si_scope_type s = ''project'' \<and>
           list_ex (\<lambda>r. rs_id r = target \<and> rs_project_name r = Some (si_scope_id s)) (resources d)))
       (silences d) \<or>
     rule_SuppressDuringDeployment rule \<and>
       list_ex (\<lambda>g. gp_resource_id g = target \<and> gp_starts_at g \<le> unix now \<and> unix now < gp_ends_at g)
         (deployment_grace_periods d))"

definition nullableTarget :: "string \<Rightarrow> string option" where
  "nullableTarget v = (if v = ''server'' \<or> v = ''docker'' then None else Some v)"

definition insertEvent :: "string \<Rightarrow> Rule \<Rightarrow> string \<Rightarrow> string \<Rightarrow> time \<Rightarrow> db \<Rightarrow> db result" where
  "insertEvent eventID rule target eventType now d =
    (let row = \<lparr>ev_id = ''alert-'' @ eventID, ev_ts = unix_milli now, ev_resource_id = nullableTarget target,
                ev_type = eventType, ev_severity = severity_str (rule_Severity rule),
                ev_summary = message rule target, ev_correlation_key = dedup (rule_Family rule) target,
                ev_source = ''alerts'', ev_created_at = unix_milli now\<rparr>
     in if list_ex (\<lambda>e. ev_id e = ev_id row) (events d) then Inl (ErrConstraint ''events'')
        else Inr (d\<lparr>events := events d @ [row]\<rparr>))"

definition open_alert :: "string \<Rightarrow> alert_row \<Rightarrow> bool" where
  "open_alert key a = (al_key a = key \<and> al_status a = ''firing'')"

text \<open>The row and the value of a new alert.\<close>

definition firing_row :: "string \<Rightarrow> Rule \<Rightarrow> string \<Rightarrow> string \<Rightarrow> float64 \<Rightarrow> time \<Rightarrow> alert_row" where
  "firing_row alertID rule targetType target value now =
    \<lparr>al_id = alertID, al_key = dedup (rule_Family rule) target, al_rule_id = rule_ID rule,
     al_family = rule_Family rule, al_severity = rule_Severity rule, al_target_type = targetType,
     al_target_id = target, al_status = ''firing'', al_started_at = unix now, al_resolved_at = None,
     al_last_observed_at = unix now, al_observed = Some value, al_message = message rule target\<rparr>"

definition firing_alert :: "string \<Rightarrow> Rule \<Rightarrow> string \<Rightarrow> string \<Rightarrow> float64 \<Rightarrow> time \<Rightarrow> Alert" where
  "firing_alert alertID rule targetType target value now =
    \<lparr>alert_ID = alertID, alert_DedupKey = dedup (rule_Family rule) target, alert_RuleID = rule_ID rule,
     alert_Family = rule_Family rule, alert_Severity = rule_Severity rule, alert_TargetType = targetType,
     alert_TargetID = target, alert_Status = ''firing'', alert_StartedAt = now, alert_ResolvedAt = None,
     alert_LastObservedAt = now, alert_ObservedValue = Some value, alert_Message = message rule target,
     alert_IncidentID = []\<rparr>"

definition evaluate ::
  "(nat \<Rightarrow> string) \<Rightarrow> IncidentSink option \<Rightarrow> Rule \<Rightarrow> string \<Rightarrow> string \<Rightarrow> float64 \<Rightarrow> bool \<Rightarrow> bool \<Rightarrow> time \<Rightarrow> db \<Rightarrow> db result" where
  "evaluate rnd sink rule targetType target value failing recovered now d =
    (let key = dedup (rule_Family rule) target;
         state = load_state now key d;
         tr = Advance now state failing recovered (suppressedTx rule target now d) rule;
         d1 = save_state key rule targetType target (State_of tr) now value d
     in if Triggered tr then
          (let (alertID, d2) = draw rnd d1;
               row = firing_row alertID rule targetType target value now;
               alert = firing_alert alertID rule targetType target value now
           in if list_ex (\<lambda>a. al_id a = alertID \<or> al_key a = key \<and> al_started_at a = unix now) (alerts d2)
              then Inl (ErrConstraint ''alerts'')
              else bind_result (fire_sink sink alert now (d2\<lparr>alerts := alerts d2 @ [row]\<rparr>))
                     (insertEvent alertID rule target ''alert_triggered'' now))
        else if Repeated tr then
          (let (eventID, d2) = draw rnd d1 in insertEvent eventID rule target ''alert_repeated'' now d2)
        else if Resolved tr then
          (case latest_by al_started_at (filter (open_alert key) (alerts d1)) of
             None \<Rightarrow> Inr d1
           | Some a \<Rightarrow>
               bind_result
                 (resolve_sink sink (al_id a) now
                   (d1\<lparr>alerts := upd_where (\<lambda>r. al_id r = al_id a)
                        (\<lambda>r. r\<lparr>al_status := ''resolved'', al_resolved_at := Some (unix now),
                               al_last_observed_at := unix now\<rparr>) (alerts d1)\<rparr>))
                 (insertEvent (al_id a) rule target ''alert_resolved'' now))
        else if Phase_of state = Firing \<or> Phase_of state = Recovering then
          Inr (d1\<lparr>alerts := upd_where (open_alert key)
                   (\<lambda>r. r\<lparr>al_last_observed_at := unix now, al_observed := Some value\<rparr>) (alerts d1)\<rparr>)
        else Inr d1)"

subsection \<open>The catalogue round\<close>

definition no_rule :: Rule where
  "no_rule = \<lparr>rule_ID = [], rule_Family = [], rule_Name = [], rule_BuiltIn = False, rule_Enabled = False,
    rule_Severity = SeverityOther [], rule_ScopeType = [], rule_ScopeID = [], rule_Threshold = None,
    rule_RecoveryThreshold = None, rule_TriggerDuration = 0, rule_RecoveryDuration = 0, rule_Window = 0,
    rule_Cooldown = 0, rule_Repeat = 0, rule_SuppressDuringDeployment = False\<rparr>"

fun effective_loop :: "string \<Rightarrow> string \<Rightarrow> string \<Rightarrow> Rule \<Rightarrow> Rule list \<Rightarrow> Rule" where
  "effective_loop family targetType target global [] = global"
| "effective_loop family targetType target global (rule # rules) =
    (if \<not> rule_Enabled rule \<or> rule_Family rule \<noteq> family then effective_loop family targetType target global rules
     else if rule_ScopeType rule = targetType \<and> rule_ScopeID rule = target then rule
     else effective_loop family targetType target (if rule_ScopeType rule = ''global'' then rule else global) rules)"

definition effectiveRule :: "Rule list \<Rightarrow> string \<Rightarrow> string \<Rightarrow> string \<Rightarrow> Rule" where
  "effectiveRule rules family targetType target = effective_loop family targetType target no_rule rules"

definition evaluate_host ::
  "(nat \<Rightarrow> string) \<Rightarrow> IncidentSink option \<Rightarrow> Rule \<Rightarrow> float64 option \<Rightarrow> time \<Rightarrow> db \<Rightarrow> db outcome" where
  "evaluate_host rnd sink r v now d =
    (case v of
       None \<Rightarrow> (d, None)
     | Some x \<Rightarrow>
         (case (rule_Threshold r, rule_RecoveryThreshold r) of
            (Some t, Some rt) \<Rightarrow> commit d (evaluate rnd sink r ''host'' ''server'' x (t < x) (x < rt) now d)
          | _ \<Rightarrow> (d, Some NilDeref)))"

definition evaluate_rule ::
  "(nat \<Rightarrow> string) \<Rightarrow> IncidentSink option \<Rightarrow> Rule list \<Rightarrow> Snapshot \<Rightarrow> time \<Rightarrow> Rule \<Rightarrow> db \<Rightarrow> db outcome" where
  "evaluate_rule rnd sink rules snap now r d =
    (if \<not> rule_Enabled r then (d, None)
     else if rule_Family r = FamilyHostCPU then
       (if rule_ID (effectiveRule rules (rule_Family r) ''host'' ''server'') \<noteq> rule_ID r then (d, None)
        else evaluate_host rnd sink r (host_CPUPercent (snap_Host snap)) now d)
     else if rule_Family r = FamilyHostMemory then
       (if rule_ID (effectiveRule rules (rule_Family r) ''host'' ''server'') \<noteq> rule_ID r then (d, None)
        else evaluate_host rnd sink r (host_MemoryPercent (snap_Host snap)) now d)
     else if rule_Family r = FamilyDockerDown then
       (if rule_ID (effectiveRule rules (rule_Family r) ''server'' ''docker'') \<noteq> rule_ID r then (d, None)
        else let st = map_option coll_State (snap_Collectors snap ''docker'')
             in commit d (evaluate rnd sink r ''server'' ''docker'' 0 (st = Some CollectorDown) (st = Some CollectorHealthy) now d))
     else (d, None))"

definition latest_filesystems :: "db \<Rightarrow> filesystem_row list" where
  "latest_filesystems d =
    filter (\<lambda>f. list_all (\<lambda>g. fs_mount_key g = fs_mount_key f \<longrightarrow> fs_ts g \<le> fs_ts f) (filesystem_samples_1m d))
      (filesystem_samples_1m d)"

definition filesystem_value :: "Rule \<Rightarrow> filesystem_row \<Rightarrow> float64 option" where
  "filesystem_value rule v =
    (if rule_Family rule = FamilyFilesystemWarning \<or> rule_Family rule = FamilyFilesystemCritical then fs_used_pct v
     else if rule_Family rule = FamilyInodeWarning \<or> rule_Family rule = FamilyInodeCritical then fs_inodes_pct v
     else None)"

definition evaluate_filesystem ::
  "(nat \<Rightarrow> string) \<Rightarrow> IncidentSink option \<Rightarrow> Rule list \<Rightarrow> time \<Rightarrow> filesystem_row \<Rightarrow> Rule \<Rightarrow> db \<Rightarrow> db outcome" where
  "evaluate_filesystem rnd sink rules now v rule d =
    (case (rule_Threshold rule, rule_RecoveryThreshold rule, filesystem_value rule v) of
       (Some t, Some rt, Some x) \<Rightarrow>
         if rule_Enabled rule \<and> rule_ID (effectiveRule rules (rule_Family rule) ''filesystem'' (fs_mount_key v)) = rule_ID rule
         then commit d (evaluate rnd sink rule ''filesystem'' (fs_mount_key v) x (t < x) (x < rt) now d)
         else (d, None)
     | _ \<Rightarrow> (d, None))"

definition evaluateFilesystems ::
  "(nat \<Rightarrow> string) \<Rightarrow> IncidentSink option \<Rightarrow> Rule list \<Rightarrow> time \<Rightarrow> db \<Rightarrow> db outcome" where
  "evaluateFilesystems rnd sink rules now d =
    for_each (\<lambda>v. for_each (evaluate_filesystem rnd sink rules now v) rules) (latest_filesystems d) d"

definition event_counts :: "string \<Rightarrow> int \<Rightarrow> db \<Rightarrow> string list" where
  "event_counts eventType since d =
    remdups (List.map_filter ev_resource_id
      (filter (\<lambda>e. ev_type e = eventType \<and> since \<le> ev_ts e) (events d)))"

definition event_count :: "string \<Rightarrow> int \<Rightarrow> string \<Rightarrow> db \<Rightarrow> float64" where
  "event_count eventType since resource d =
    of_nat (count_where (\<lambda>e. ev_type e = eventType \<and> ev_resource_id e = Some resource \<and> since \<le> ev_ts e) (events d))"

definition evaluate_event_rule ::
  "(nat \<Rightarrow> string) \<Rightarrow> IncidentSink option \<Rightarrow> (string list \<Rightarrow> string list) \<Rightarrow> time \<Rightarrow> Rule \<Rightarrow> db \<Rightarrow> db outcome" where
  "evaluate_event_rule rnd sink ord now rule d =
    (case rule_Threshold rule of
       None \<Rightarrow> (d, None)
     | Some th \<Rightarrow>
         if \<not> rule_Enabled rule \<or> (rule_Family rule \<noteq> FamilyRestartStorm \<and> rule_Family rule \<noteq> FamilyOOMLoop) then (d, None)
         else
           (let eventType = (if rule_Family rule = FamilyOOMLoop then ''container_oom'' else ''container_restart'');
                since = unix_milli (now - rule_Window rule);
                seen = event_counts eventType since d
            in and_then
                (for_each (\<lambda>resource d'.
                   (let count = event_count eventType since resource d;
                        failing = (if rule_Family rule = FamilyOOMLoop then th \<le> count else th < count)
                    in commit d' (evaluate rnd sink rule ''resource'' resource count failing (count \<le> 0) now d')))
                  (ord seen) d)
                (\<lambda>d1.
                   (let unseen = map es_target_id
                          (filter (\<lambda>r. es_rule_id r = rule_ID rule \<and> es_phase r \<noteq> Healthy \<and> es_target_id r \<notin> set seen)
                            (alert_evaluation_state d1))
                    in for_each (\<lambda>resource d'. commit d' (evaluate rnd sink rule ''resource'' resource 0 False True now d'))
                         unseen d1))))"

definition evaluateEvents ::
  "(nat \<Rightarrow> string) \<Rightarrow> IncidentSink option \<Rightarrow> (string list \<Rightarrow> string list) \<Rightarrow> Rule list \<Rightarrow> time \<Rightarrow> db \<Rightarrow> db outcome" where
  "evaluateEvents rnd sink ord rules now d = for_each (evaluate_event_rule rnd sink ord now) rules d"

definition evaluatePersistence ::
  "(nat \<Rightarrow> string) \<Rightarrow> IncidentSink option \<Rightarrow> Rule list \<Rightarrow> time \<Rightarrow> db \<Rightarrow> db outcome" where
  "evaluatePersistence rnd sink rules now d =
    (let rule = effectiveRule rules FamilyPersistence ''server'' ''persistence'';
         rows = filter (\<lambda>e. ev_type e \<in> {''persistence_emergency'', ''persistence_degraded'', ''persistence_resumed''}) (events d)
     in if rule_ID rule = [] then (d, None)
        else case rev (sort_key (\<lambda>e. (ev_ts e, ev_id e)) rows) of
               [] \<Rightarrow> (d, None)
             | e # _ \<Rightarrow>
                 commit d (evaluate rnd sink rule ''server'' ''persistence'' 0
                   (ev_type e = ''persistence_emergency'' \<or> ev_type e = ''persistence_degraded'')
                   (ev_type e = ''persistence_resumed'') now d))"

definition upsert_grace :: "string \<Rightarrow> time \<Rightarrow> string \<Rightarrow> db \<Rightarrow> db result" where
  "upsert_grace resource t0 confidence d =
    (let row = \<lparr>gp_resource_id = resource, gp_starts_at = unix t0, gp_ends_at = unix (t0 + minutes 5), gp_confidence = confidence\<rparr>
     in if list_ex (\<lambda>r. rs_id r = resource) (resources d)
        then Inr (d\<lparr>deployment_grace_periods :=
               upsert (\<lambda>g. gp_resource_id g = resource) (\<lambda>_. row) row (deployment_grace_periods d)\<rparr>)
        else Inl (ErrConstraint ''deployment_grace_periods''))"

definition deployment_events :: "int \<Rightarrow> db \<Rightarrow> event_row list" where
  "deployment_events since d =
    filter (\<lambda>e. ev_type e \<in> {''deployment'', ''deployment_likely'', ''container_replacement''} \<and>
                ev_resource_id e \<noteq> None \<and> since \<le> ev_ts e) (events d)"

definition correlateDeployments :: "(string list \<Rightarrow> string list) \<Rightarrow> time \<Rightarrow> db \<Rightarrow> db outcome" where
  "correlateDeployments ord now d =
    (let rows = deployment_events (unix_milli (now - minutes 10)) d
     in for_each (\<lambda>resource d'.
          (let mine = filter (\<lambda>e. ev_resource_id e = Some resource) rows;
               ms = Max (set (map ev_ts mine));
               confidence = (if list_ex (\<lambda>e. ev_type e = ''deployment'') mine then ''confirmed'' else ''likely'')
           in commit d' (upsert_grace resource (from_milli ms) confidence d')))
          (ord (remdups (List.map_filter ev_resource_id rows))) d)"

definition DeploymentGrace :: "string \<Rightarrow> string \<Rightarrow> time \<Rightarrow> db \<Rightarrow> db result" where
  "DeploymentGrace resource confidence t0 d =
    (if confidence \<noteq> ''confirmed'' \<and> confidence \<noteq> ''likely'' then Inl (ErrMsg ''invalid deployment confidence'')
     else upsert_grace resource t0 confidence d)"

text \<open>The rows of the query of \<open>evaluateChecks\<close>: resource, required, status, consecutive successes.\<close>

definition check_observation :: "db \<Rightarrow> check_row \<Rightarrow> string \<times> bool \<times> string \<times> int" where
  "check_observation d c =
    (case find (\<lambda>s. cs_check_id s = hc_id c) (health_check_state d) of
       None \<Rightarrow> (hc_resource_id c, hc_required c, ''unknown'', 0)
     | Some s \<Rightarrow> (hc_resource_id c, hc_required c, cs_status s, cs_successes s))"

definition evaluate_check ::
  "(nat \<Rightarrow> string) \<Rightarrow> IncidentSink option \<Rightarrow> Rule list \<Rightarrow> time \<Rightarrow> string \<times> bool \<times> string \<times> int \<Rightarrow> db \<Rightarrow> db outcome" where
  "evaluate_check rnd sink rules now v d =
    (case v of (resource, required, status, successes) \<Rightarrow>
       let family = (if required then FamilyRequiredCheck else FamilyOptionalCheck);
           rule = effectiveRule rules family ''resource'' resource;
           rule' = (if successes \<ge> 2 then rule\<lparr>rule_RecoveryDuration := 0\<rparr> else rule)
       in if rule_ID rule = [] then (d, None)
          else commit d (evaluate rnd sink rule' ''resource'' resource 0 (status = ''failure'') (status = ''success'') now d))"

definition evaluateChecks ::
  "(nat \<Rightarrow> string) \<Rightarrow> IncidentSink option \<Rightarrow> Rule list \<Rightarrow> time \<Rightarrow> db \<Rightarrow> db outcome" where
  "evaluateChecks rnd sink rules now d =
    for_each (evaluate_check rnd sink rules now) (map (check_observation d) (filter hc_enabled (health_checks d))) d"

definition Evaluate ::
  "(nat \<Rightarrow> string) \<Rightarrow> IncidentSink option \<Rightarrow> (string list \<Rightarrow> string list) \<Rightarrow> Snapshot \<Rightarrow> time \<Rightarrow> db \<Rightarrow> db outcome" where
  "Evaluate rnd sink ord snap now d =
    (let rules = Rules d
     in and_then (commit d (Cleanup now d)) (\<lambda>d.
        and_then (for_each (evaluate_rule rnd sink rules snap now) rules d) (\<lambda>d.
        and_then (evaluateFilesystems rnd sink rules now d) (\<lambda>d.
        and_then (evaluateEvents rnd sink ord rules now d) (\<lambda>d.
        and_then (evaluatePersistence rnd sink rules now d) (\<lambda>d.
        and_then (correlateDeployments ord now d)
                 (evaluateChecks rnd sink rules now)))))))"

subsection \<open>What a round keeps\<close>

text \<open>
  A round is a sequence of evaluations, one cleanup and upserts of grace periods: what each of
  these keeps, the round keeps, also when it ends early with an error.
\<close>

lemma effective_loop_in: "effective_loop fam tt t g rs = g \<or> effective_loop fam tt t g rs \<in> set rs"
proof (induction rs arbitrary: g)
  case Nil
  then show ?case by simp
next
  case (Cons r rs)
  show ?case using Cons [of g] Cons [of r] by auto
qed

lemma effectiveRule_in: "rule_ID (effectiveRule rules fam tt t) \<noteq> [] \<Longrightarrow> effectiveRule rules fam tt t \<in> set rules"
  using effective_loop_in [of fam tt t no_rule rules] by (auto simp: effectiveRule_def no_rule_def)

lemma effectiveRule_family:
  "rule_ID (effectiveRule rules fam tt t) \<noteq> [] \<Longrightarrow> rule_Family (effectiveRule rules fam tt t) = fam"
proof -
  have "effective_loop fam tt t g rs = g \<or> rule_Family (effective_loop fam tt t g rs) = fam"
    if "g = no_rule \<or> rule_Family g = fam" for g rs
    using that
  proof (induction rs arbitrary: g)
    case Nil
    then show ?case by simp
  next
    case (Cons r rs)
    show ?case using Cons.IH [of g] Cons.IH [of r] Cons.prems by auto
  qed
  from this [of no_rule rules] show "rule_ID (effectiveRule rules fam tt t) \<noteq> [] \<Longrightarrow> ?thesis"
    by (auto simp: effectiveRule_def no_rule_def)
qed

lemma Evaluate_preserves:
  assumes ev: "\<And>rule tt target v f r d d'. ok rule \<Longrightarrow> P d \<Longrightarrow> evaluate rnd sink rule tt target v f r now d = Inr d' \<Longrightarrow> P d'"
    and ok: "\<And>r. r \<in> set (Rules d) \<Longrightarrow> ok r" "\<And>r. ok r \<Longrightarrow> ok (r\<lparr>rule_RecoveryDuration := 0\<rparr>)"
    and cl: "\<And>d d'. P d \<Longrightarrow> Cleanup now d = Inr d' \<Longrightarrow> P d'"
    and gr: "\<And>d d' res t c. P d \<Longrightarrow> upsert_grace res t c d = Inr d' \<Longrightarrow> P d'"
    and init: "P d"
  shows "P (fst (Evaluate rnd sink ord snap now d))"
proof -
  let ?rules = "Rules d"
  have ce: "P (fst (commit e (evaluate rnd sink rule tt target v f r now e)))" if "P e" "ok rule" for rule tt target v f r e
    using that ev by (intro commit_inv [of P]) auto
  have fe: "P (fst (for_each (\<lambda>x d'. commit d' (evaluate rnd sink rule tt x (v x) (f x) (r x) now d')) xs e))"
    if "P e" "ok rule" for rule tt v f r xs e
    by (rule for_each_inv [of P, OF that(1)]) (rule ce [OF _ that(2)])
  have host: "P (fst (evaluate_host rnd sink r v now e))" if "P e" "ok r" for r v e
    using that by (auto simp: evaluate_host_def ce split: option.splits)
  have rule: "P (fst (evaluate_rule rnd sink ?rules snap now r e))" if "P e" "ok r" for r e
    using that by (auto simp: evaluate_rule_def Let_def ce host)
  have fsys: "P (fst (evaluate_filesystem rnd sink ?rules now v r e))" if "P e" "ok r" for v r e
    using that by (auto simp: evaluate_filesystem_def ce split: option.splits)
  have event: "P (fst (evaluate_event_rule rnd sink ord now r e))" if "P e" "ok r" for r e
  proof (cases "rule_Threshold r")
    case None
    then show ?thesis using that by (simp add: evaluate_event_rule_def)
  next
    case (Some th)
    show ?thesis
      unfolding evaluate_event_rule_def Some option.case Let_def
      using that
      by (cases "\<not> rule_Enabled r \<or> (rule_Family r \<noteq> FamilyRestartStorm \<and> rule_Family r \<noteq> FamilyOOMLoop)")
         (simp_all only: if_True if_False fst_conv and_then_inv [of P, OF fe [OF that] fe [OF _ that(2)]])
  qed
  have 1: "P (fst (commit d (Cleanup now d)))"
    using init cl by (intro commit_inv [of P]) auto
  have 2: "P (fst (for_each (evaluate_rule rnd sink ?rules snap now) ?rules e))" if "P e" for e
    by (rule for_each_inv [of P, OF that]) (rule rule [OF _ ok(1)])
  have 3: "P (fst (evaluateFilesystems rnd sink ?rules now e))" if "P e" for e
    unfolding evaluateFilesystems_def
    by (rule for_each_inv [of P, OF that], erule for_each_inv [of P]) (rule fsys [OF _ ok(1)])
  have 4: "P (fst (evaluateEvents rnd sink ord ?rules now e))" if "P e" for e
    unfolding evaluateEvents_def by (rule for_each_inv [of P, OF that]) (rule event [OF _ ok(1)])
  have okr: "ok (effectiveRule ?rules fam tt t)" "ok ((effectiveRule ?rules fam tt t)\<lparr>rule_RecoveryDuration := 0\<rparr>)"
    if "rule_ID (effectiveRule ?rules fam tt t) \<noteq> []" for fam tt t
    using ok(1) [OF effectiveRule_in [OF that]] ok(2) by blast+
  have 5: "P (fst (evaluatePersistence rnd sink ?rules now e))" if "P e" for e
    using that by (auto simp: evaluatePersistence_def Let_def ce okr split: list.splits)
  have 6: "P (fst (correlateDeployments ord now e))" if "P e" for e
    unfolding correlateDeployments_def Let_def
    by (rule for_each_inv [of P, OF that], rule commit_inv [of P], assumption) (erule (1) gr)
  have check: "P (fst (evaluate_check rnd sink ?rules now v e))" if "P e" for v e
    using that by (auto simp: evaluate_check_def Let_def ce okr split: prod.splits)
  have 7: "P (fst (evaluateChecks rnd sink ?rules now e))" if "P e" for e
    unfolding evaluateChecks_def by (rule for_each_inv [of P, OF that]) (rule check)
  show ?thesis
    unfolding Evaluate_def Let_def
    by (rule and_then_inv [of P], rule 1)
       ((rule and_then_inv [of P], erule 2 3 4 5 6)+, erule 7)
qed

subsection \<open>What one evaluation changes\<close>

text \<open>The stored phase of a key; a key without a row is healthy.\<close>

definition phase_in :: "string \<Rightarrow> db \<Rightarrow> Phase" where
  "phase_in key d =
    (case find (\<lambda>r. es_key r = key) (alert_evaluation_state d) of None \<Rightarrow> Healthy | Some r \<Rightarrow> es_phase r)"

definition transition_of :: "Rule \<Rightarrow> string \<Rightarrow> bool \<Rightarrow> bool \<Rightarrow> time \<Rightarrow> db \<Rightarrow> Transition" where
  "transition_of rule target failing recovered now d =
    Advance now (load_state now (dedup (rule_Family rule) target) d) failing recovered (suppressedTx rule target now d) rule"

lemma load_state_phase [simp]: "Phase_of (load_state now key d) = phase_in key d"
  by (simp add: load_state_def phase_in_def split: option.splits)

lemma phase_in_save [simp]:
  "phase_in k (save_state key rule tt t s now v d) = (if k = key then Phase_of s else phase_in k d)"
  by (auto simp: phase_in_def save_state_def Let_def find_upsert split: option.splits)

lemma save_state_frame [simp]:
  "alerts (save_state key rule tt t s now v d) = alerts d"
  "events (save_state key rule tt t s now v d) = events d"
  "draws (save_state key rule tt t s now v d) = draws d"
  "silences (save_state key rule tt t s now v d) = silences d"
  "resources (save_state key rule tt t s now v d) = resources d"
  "alert_rules (save_state key rule tt t s now v d) = alert_rules d"
  "deployment_grace_periods (save_state key rule tt t s now v d) = deployment_grace_periods d"
  "health_checks (save_state key rule tt t s now v d) = health_checks d"
  "health_check_state (save_state key rule tt t s now v d) = health_check_state d"
  "filesystem_samples_1m (save_state key rule tt t s now v d) = filesystem_samples_1m d"
  by (simp_all add: save_state_def Let_def)

lemma phase_in_cong:
  "alert_evaluation_state d' = alert_evaluation_state d \<Longrightarrow> phase_in k d' = phase_in k d"
  by (simp add: phase_in_def)

text \<open>
  The contract between the evaluator and an incident sink: inside the transaction the sink
  only touches its own tables, and it may draw identifiers.
\<close>

definition sink_frame :: "db \<Rightarrow> db \<Rightarrow> bool" where
  "sink_frame d d' \<longleftrightarrow>
     alert_rules d' = alert_rules d \<and> alert_evaluation_state d' = alert_evaluation_state d \<and>
     alerts d' = alerts d \<and> silences d' = silences d \<and>
     deployment_grace_periods d' = deployment_grace_periods d \<and> events d' = events d \<and>
     resources d' = resources d \<and> health_checks d' = health_checks d \<and>
     health_check_state d' = health_check_state d \<and> filesystem_samples_1m d' = filesystem_samples_1m d \<and>
     draws d \<le> draws d'"

lemma sink_frame_refl [simp]: "sink_frame d d"
  by (simp add: sink_frame_def)

lemma sink_frame_trans: "sink_frame d d' \<Longrightarrow> sink_frame d' d'' \<Longrightarrow> sink_frame d d''"
  by (simp add: sink_frame_def)

locale incident_sink =
  fixes sink :: "IncidentSink option"
  assumes fired_frame: "fire_sink sink a now d = Inr d' \<Longrightarrow> sink_frame d d'"
    and resolved_frame: "resolve_sink sink i now d = Inr d' \<Longrightarrow> sink_frame d d'"

end
