(* ===== verification/Alert_Invariants.thy ===== *)
theory Alert_Invariants
  imports Alert_Evaluator
begin

section \<open>The invariant of the alert tables\<close>

text \<open>
  The alert tables stay consistent under every operation of the evaluator and the repository:
  keys are unique, every stored phase is one of the four, and a key has exactly one firing
  alert row when its stored phase is firing or recovering and none otherwise. The proofs are
  done once for any incident sink that keeps the contract \<open>incident_sink\<close>.
\<close>

definition fresh_ids :: "(nat \<Rightarrow> string) \<Rightarrow> db \<Rightarrow> bool" where
  "fresh_ids rnd d \<longleftrightarrow>
    (\<forall>n \<ge> draws d. (\<forall>a \<in> set (alerts d). al_id a \<noteq> rnd n) \<and> (\<forall>e \<in> set (events d). ev_id e \<noteq> ''alert-'' @ rnd n))"

definition open_matches :: "db \<Rightarrow> bool" where
  "open_matches d \<longleftrightarrow>
    (\<forall>key. count_where (open_alert key) (alerts d) = (if active (phase_in key d) then 1 else 0))"

definition alert_inv :: "(nat \<Rightarrow> string) \<Rightarrow> db \<Rightarrow> bool" where
  "alert_inv rnd d \<longleftrightarrow>
     distinct (map es_key (alert_evaluation_state d)) \<and>
     (\<forall>r \<in> set (alert_evaluation_state d). valid_phase (es_phase r)) \<and>
     distinct (map al_id (alerts d)) \<and> fresh_ids rnd d \<and> open_matches d"

lemma alert_inv_empty: "alert_inv rnd empty_db"
  by (simp add: alert_inv_def empty_db_def fresh_ids_def open_matches_def phase_in_def)

lemma valid_phase_in:
  "\<forall>r \<in> set (alert_evaluation_state d). valid_phase (es_phase r) \<Longrightarrow> valid_phase (phase_in key d)"
  by (auto simp: phase_in_def split: option.splits dest: find_Some_in)

lemma save_state_rows:
  assumes "distinct (map es_key (alert_evaluation_state d))"
    and "\<forall>r \<in> set (alert_evaluation_state d). valid_phase (es_phase r)" and "valid_phase (Phase_of s)"
  shows "distinct (map es_key (alert_evaluation_state (save_state key rule tt t s now v d)))"
    and "\<forall>r \<in> set (alert_evaluation_state (save_state key rule tt t s now v d)). valid_phase (es_phase r)"
  using assms by (auto simp: save_state_def Let_def intro!: distinct_upsert dest!: set_upsert_subset [THEN subsetD])

lemma insertEvent_Inr:
  "insertEvent i rule target ty now d = Inr d' \<longleftrightarrow>
     (\<forall>e \<in> set (events d). ev_id e \<noteq> ''alert-'' @ i) \<and>
     d' = d\<lparr>events := events d @ [\<lparr>ev_id = ''alert-'' @ i, ev_ts = unix_milli now,
             ev_resource_id = nullableTarget target, ev_type = ty, ev_severity = severity_str (rule_Severity rule),
             ev_summary = message rule target, ev_correlation_key = dedup (rule_Family rule) target,
             ev_source = ''alerts'', ev_created_at = unix_milli now\<rparr>]\<rparr>"
  by (auto simp: insertEvent_def Let_def list_ex_iff)

text \<open>What a committed evaluation did, branch by branch.\<close>

datatype effect =
    Fired_row alert_row event_row
  | Repeated_event event_row
  | Resolved_row string event_row
  | Orphan_resolution
  | Observed_row
  | No_effect

definition effect_ok ::
  "(nat \<Rightarrow> string) \<Rightarrow> Rule \<Rightarrow> string \<Rightarrow> Transition \<Rightarrow> db \<Rightarrow> effect \<Rightarrow> db \<Rightarrow> bool" where
  "effect_ok rnd rule target tr d eff d' \<longleftrightarrow>
    (let key = dedup (rule_Family rule) target in
     case eff of
       Fired_row row e \<Rightarrow>
         Triggered tr \<and> alerts d' = alerts d @ [row] \<and> events d' = events d @ [e] \<and>
         al_id row = rnd (draws d) \<and> al_key row = key \<and> al_status row = ''firing'' \<and>
         ev_id e = ''alert-'' @ al_id row \<and> Suc (draws d) \<le> draws d'
     | Repeated_event e \<Rightarrow>
         \<not> Triggered tr \<and> Repeated tr \<and> alerts d' = alerts d \<and> events d' = events d @ [e] \<and>
         ev_id e = ''alert-'' @ rnd (draws d) \<and> Suc (draws d) \<le> draws d'
     | Resolved_row i e \<Rightarrow>
         \<not> Triggered tr \<and> Resolved tr \<and> (\<exists>a \<in> set (alerts d). open_alert key a \<and> al_id a = i) \<and>
         (\<exists>t. alerts d' = upd_where (\<lambda>r. al_id r = i)
            (\<lambda>r. r\<lparr>al_status := ''resolved'', al_resolved_at := Some t, al_last_observed_at := t\<rparr>) (alerts d)) \<and>
         events d' = events d @ [e] \<and> ev_id e = ''alert-'' @ i \<and>
         (\<forall>e' \<in> set (events d). ev_id e' \<noteq> ev_id e) \<and> draws d \<le> draws d'
     | Orphan_resolution \<Rightarrow>
         \<not> Triggered tr \<and> Resolved tr \<and> (\<forall>a \<in> set (alerts d). \<not> open_alert key a) \<and>
         alerts d' = alerts d \<and> events d' = events d \<and> draws d' = draws d
     | Observed_row \<Rightarrow>
         \<not> Triggered tr \<and> \<not> Resolved tr \<and> active (phase_in key d) \<and>
         (\<exists>t v. alerts d' = upd_where (open_alert key) (\<lambda>r. r\<lparr>al_last_observed_at := t, al_observed := v\<rparr>) (alerts d)) \<and>
         events d' = events d \<and> draws d' = draws d
     | No_effect \<Rightarrow>
         \<not> Triggered tr \<and> \<not> Repeated tr \<and> \<not> Resolved tr \<and> \<not> active (phase_in key d) \<and>
         alerts d' = alerts d \<and> events d' = events d \<and> draws d' = draws d)"

lemma count_open_resolved:
  assumes "distinct (map al_id t)" and "a \<in> set t" and "open_alert key a"
    and "\<And>r. al_id (g r) = al_id r" "\<And>r. al_key (g r) = al_key r" "\<And>r. al_status (g r) = ''resolved''"
  shows "count_where (open_alert k) (upd_where (\<lambda>r. al_id r = al_id a) g t) + of_bool (k = key) =
         count_where (open_alert k) t"
  using assms(1-3)
proof (induction t)
  case Nil
  then show ?case by simp
next
  case (Cons x t)
  show ?case
  proof (cases "x = a")
    case True
    then have "upd_where (\<lambda>r. al_id r = al_id a) g t = t"
      using Cons.prems(1) by (intro upd_where_none) (auto simp: image_iff)
    then show ?thesis using True Cons.prems(3) assms(4-6) by (auto simp: open_alert_def)
  next
    case False
    then have "al_id x \<noteq> al_id a" using Cons.prems by (auto simp: image_iff)
    then show ?thesis using Cons False by auto
  qed
qed

lemma fresh_alertD: "fresh_ids rnd d \<Longrightarrow> a \<in> set (alerts d) \<Longrightarrow> draws d \<le> n \<Longrightarrow> al_id a \<noteq> rnd n"
  by (simp add: fresh_ids_def)

lemma fresh_eventD: "fresh_ids rnd d \<Longrightarrow> e \<in> set (events d) \<Longrightarrow> draws d \<le> n \<Longrightarrow> ev_id e \<noteq> ''alert-'' @ rnd n"
  by (simp add: fresh_ids_def)

text \<open>Effects keep the identifiers distinct and fresh, and open or close exactly one row.\<close>

lemma effect_ids:
  assumes eff: "effect_ok rnd rule target tr d eff d'"
    and ids: "distinct (map al_id (alerts d))" and fresh: "fresh_ids rnd d" and inj: "inj rnd"
  shows "distinct (map al_id (alerts d')) \<and> fresh_ids rnd d'"
proof (cases eff)
  case (Fired_row row e)
  have "al_id row = rnd (draws d)" using eff Fired_row by (simp add: effect_ok_def Let_def)
  then have new: "al_id row \<notin> al_id ` set (alerts d)"
    using fresh_alertD [OF fresh _ order.refl] by (metis imageE)
  show ?thesis
    using eff ids new Fired_row fresh_alertD [OF fresh] fresh_eventD [OF fresh]
    by (auto simp: effect_ok_def Let_def fresh_ids_def inj_eq [OF inj])
next
  case (Repeated_event e)
  show ?thesis
    using eff ids fresh Repeated_event by (auto simp: effect_ok_def Let_def fresh_ids_def inj_eq [OF inj])
next
  case (Resolved_row i e)
  then obtain a t where a: "a \<in> set (alerts d)" "al_id a = i"
    and al: "alerts d' = upd_where (\<lambda>r. al_id r = i)
       (\<lambda>r. r\<lparr>al_status := ''resolved'', al_resolved_at := Some t, al_last_observed_at := t\<rparr>) (alerts d)"
    and ev: "events d' = events d @ [e]" "ev_id e = ''alert-'' @ i" "draws d \<le> draws d'"
    using eff by (auto simp: effect_ok_def Let_def)
  have m: "map al_id (alerts d') = map al_id (alerts d)" unfolding al by (rule map_upd_where) simp
  then have "al_id ` set (alerts d') = al_id ` set (alerts d)" by (metis list.set_map)
  then have "\<forall>n \<ge> draws d. \<forall>a' \<in> set (alerts d'). al_id a' \<noteq> rnd n"
    using fresh by (auto simp: fresh_ids_def) (metis (no_types, lifting) image_iff)
  then show ?thesis using m ids fresh a ev by (auto simp: fresh_ids_def)
next
  case Orphan_resolution
  then show ?thesis using eff ids fresh by (simp add: effect_ok_def Let_def fresh_ids_def)
next
  case Observed_row
  then obtain t v where al: "alerts d' = upd_where (open_alert (dedup (rule_Family rule) target))
      (\<lambda>r. r\<lparr>al_last_observed_at := t, al_observed := v\<rparr>) (alerts d)"
    and ev: "events d' = events d" "draws d' = draws d"
    using eff by (auto simp: effect_ok_def Let_def)
  have m: "map al_id (alerts d') = map al_id (alerts d)" unfolding al by (rule map_upd_where) simp
  then have "al_id ` set (alerts d') = al_id ` set (alerts d)" by (metis list.set_map)
  then have "\<forall>n \<ge> draws d. \<forall>a' \<in> set (alerts d'). al_id a' \<noteq> rnd n"
    using fresh by (auto simp: fresh_ids_def) (metis (no_types, lifting) image_iff)
  then show ?thesis using m ids fresh ev by (auto simp: fresh_ids_def)
next
  case No_effect
  then show ?thesis using eff ids fresh by (simp add: effect_ok_def Let_def fresh_ids_def)
qed

lemma effect_open:
  assumes eff: "effect_ok rnd rule target tr d eff d'"
    and ids: "distinct (map al_id (alerts d))" and om: "open_matches d"
    and tr: "tr = transition_of rule target f r now d"
  shows "count_where (open_alert k) (alerts d') =
         (if k = dedup (rule_Family rule) target then of_bool (active (Phase_of (State_of tr)))
          else count_where (open_alert k) (alerts d))"
proof -
  let ?key = "dedup (rule_Family rule) target"
  have act: "active (Phase_of (State_of tr)) \<longleftrightarrow> Triggered tr \<or> active (phase_in ?key d) \<and> \<not> Resolved tr"
    unfolding tr transition_of_def by (simp add: Advance_active)
  have trig: "Triggered tr \<longrightarrow> \<not> active (phase_in ?key d)"
    unfolding tr transition_of_def by (simp add: Advance_Triggered_iff)
  have res: "Resolved tr \<longrightarrow> active (phase_in ?key d)"
    unfolding tr transition_of_def by (simp add: Advance_Resolved_iff)
  have rep: "Repeated tr \<longrightarrow> \<not> Resolved tr"
    unfolding tr transition_of_def by (simp add: Advance_Resolved_iff Advance_Repeated_iff)
  have key: "count_where (open_alert ?key) (alerts d) = of_bool (active (phase_in ?key d))"
    using om by (simp add: open_matches_def)
  show ?thesis
  proof (cases eff)
    case (Fired_row row e)
    then have t: "Triggered tr" and al: "alerts d' = alerts d @ [row]" and o: "open_alert k row = (k = ?key)"
      using eff by (auto simp: effect_ok_def Let_def open_alert_def)
    show ?thesis using t trig act key by (simp add: al o)
  next
    case (Repeated_event e)
    then show ?thesis using eff act rep key by (auto simp: effect_ok_def Let_def)
  next
    case (Resolved_row i e)
    then obtain a t where "Resolved tr" "\<not> Triggered tr" and a: "a \<in> set (alerts d)" "open_alert ?key a" "al_id a = i"
      and al: "alerts d' = upd_where (\<lambda>r. al_id r = i)
        (\<lambda>r. r\<lparr>al_status := ''resolved'', al_resolved_at := Some t, al_last_observed_at := t\<rparr>) (alerts d)"
      using eff by (auto simp: effect_ok_def Let_def)
    then show ?thesis
      using act res key count_open_resolved [OF ids a(1,2), of
          "\<lambda>r. r\<lparr>al_status := ''resolved'', al_resolved_at := Some t, al_last_observed_at := t\<rparr>" k]
      by (auto split: if_splits)
  next
    case Orphan_resolution
    then have "Resolved tr" "\<not> Triggered tr" "count_where (open_alert ?key) (alerts d) = 0" "alerts d' = alerts d"
      using eff by (auto simp: effect_ok_def Let_def count_where_0_iff)
    then show ?thesis using act by simp
  next
    case Observed_row
    then obtain t v where al: "alerts d' = upd_where (open_alert ?key)
        (\<lambda>r. r\<lparr>al_last_observed_at := t, al_observed := v\<rparr>) (alerts d)"
      and tr: "\<not> Triggered tr" "\<not> Resolved tr" "active (phase_in ?key d)"
      using eff by (auto simp: effect_ok_def Let_def)
    have "count_where (open_alert k) (alerts d') = count_where (open_alert k) (alerts d)"
      unfolding al by (rule count_where_upd_same) (simp add: open_alert_def)
    then show ?thesis using tr act key by simp
  next
    case No_effect
    then show ?thesis using eff act key by (auto simp: effect_ok_def Let_def)
  qed
qed

lemma alert_inv_frame:
  assumes "alert_evaluation_state d' = alert_evaluation_state d" "alerts d' = alerts d"
    and "draws d \<le> draws d'"
    and "\<And>e n. e \<in> set (events d') \<Longrightarrow> draws d' \<le> n \<Longrightarrow> e \<in> set (events d) \<or> ev_id e \<noteq> ''alert-'' @ rnd n"
    and "alert_inv rnd d"
  shows "alert_inv rnd d'"
proof -
  have fresh: "fresh_ids rnd d" using assms(5) by (simp add: alert_inv_def)
  have "fresh_ids rnd d'"
    unfolding fresh_ids_def
  proof (intro allI impI conjI ballI)
    fix n a assume "draws d' \<le> n" "a \<in> set (alerts d')"
    then show "al_id a \<noteq> rnd n" using assms(2,3) fresh_alertD [OF fresh] by simp
  next
    fix n e assume "draws d' \<le> n" "e \<in> set (events d')"
    then show "ev_id e \<noteq> ''alert-'' @ rnd n"
      using assms(3) assms(4) [of e n] fresh_eventD [OF fresh, of e n] by linarith
  qed
  then show ?thesis using assms by (simp add: alert_inv_def open_matches_def phase_in_def)
qed

lemma Cleanup_inv: "alert_inv rnd d \<Longrightarrow> Cleanup now d = Inr d' \<Longrightarrow> alert_inv rnd d'"
proof -
  assume inv: "alert_inv rnd d" and "Cleanup now d = Inr d'"
  then have al: "alerts d' = del_where (expired_alert now) (alerts d)"
    and rest: "alert_evaluation_state d' = alert_evaluation_state d" "events d' = events d" "draws d' = draws d"
    by (auto simp: Cleanup_def)
  have "count_where (open_alert k) (alerts d') = count_where (open_alert k) (alerts d)" for k
    unfolding al count_where_del by (rule count_where_cong) (auto simp: open_alert_def expired_alert_def)
  then show ?thesis using inv rest
    by (auto simp: alert_inv_def open_matches_def fresh_ids_def phase_in_def al distinct_map_del)
qed

lemma upsert_grace_inv: "alert_inv rnd d \<Longrightarrow> upsert_grace resource t0 c d = Inr d' \<Longrightarrow> alert_inv rnd d'"
  by (erule alert_inv_frame [rotated 4]) (auto simp: upsert_grace_def Let_def split: if_splits)

subsection \<open>Steps of the alert tables\<close>

text \<open>
  A step is a round of the evaluator, an operation of the repository, or anything the rest of
  the program does to the database: other components leave the alert tables alone, may draw
  identifiers, prune events, and write events whose identifiers are sequence numbers and not
  of the form \<^verbatim>\<open>alert-...\<close> (\<^verbatim>\<open>internal/storage/writer.go\<close>).
\<close>

inductive alert_step :: "(nat \<Rightarrow> string) \<Rightarrow> IncidentSink option \<Rightarrow> db \<Rightarrow> db \<Rightarrow> bool" for rnd sink where
  step_Evaluate: "alert_step rnd sink d (fst (Evaluate rnd sink ord snap now d))"
| step_SeedDefaults: "SeedDefaults now d = Inr d' \<Longrightarrow> alert_step rnd sink d d'"
| step_UpdateRule: "UpdateRule now v d = Inr d' \<Longrightarrow> alert_step rnd sink d d'"
| step_CreateRule: "CreateRule now v d = Inr d' \<Longrightarrow> alert_step rnd sink d d'"
| step_CreateSilence: "CreateSilence rnd now s d = Inr d' \<Longrightarrow> alert_step rnd sink d d'"
| step_DeleteSilence: "DeleteSilence i d = Inr d' \<Longrightarrow> alert_step rnd sink d d'"
| step_DeploymentGrace: "DeploymentGrace res c t d = Inr d' \<Longrightarrow> alert_step rnd sink d d'"
| step_Other: "alert_evaluation_state d' = alert_evaluation_state d \<Longrightarrow> alerts d' = alerts d \<Longrightarrow>
    draws d \<le> draws d' \<Longrightarrow>
    \<forall>e \<in> set (events d'). e \<in> set (events d) \<or> \<not> has_prefix (ev_id e) ''alert-'' \<Longrightarrow>
    alert_step rnd sink d d'"

inductive alert_reachable :: "(nat \<Rightarrow> string) \<Rightarrow> IncidentSink option \<Rightarrow> db \<Rightarrow> bool" for rnd sink where
  reach_empty: "alert_reachable rnd sink empty_db"
| reach_step: "alert_reachable rnd sink d \<Longrightarrow> alert_step rnd sink d d' \<Longrightarrow> alert_reachable rnd sink d'"

lemma SeedDefaults_frame:
  assumes "SeedDefaults now d = Inr d'"
  shows "alert_evaluation_state d' = alert_evaluation_state d" "alerts d' = alerts d" "events d' = events d"
    "draws d' = draws d"
proof -
  have "alert_evaluation_state d' = alert_evaluation_state d \<and> alerts d' = alerts d \<and> events d' = events d \<and> draws d' = draws d"
    by (rule fold_result_inv [where P = "\<lambda>e. alert_evaluation_state e = alert_evaluation_state d \<and>
          alerts e = alerts d \<and> events e = events d \<and> draws e = draws d", OF assms [unfolded SeedDefaults_def]])
       (auto simp: seed_rule_def Let_def split: if_splits)
  then show "alert_evaluation_state d' = alert_evaluation_state d" "alerts d' = alerts d" "events d' = events d"
    "draws d' = draws d" by auto
qed

lemma CreateSilence_frame:
  assumes "CreateSilence rnd now s d = Inr d'"
  shows "alert_evaluation_state d' = alert_evaluation_state d" "alerts d' = alerts d" "events d' = events d"
    "draws d \<le> draws d'"
  using assms by (auto simp: CreateSilence_def draw_def Let_def split: if_splits prod.splits)

context incident_sink
begin

lemma evaluate_effect:
  assumes "evaluate rnd sink rule tt target v f r now d = Inr d'"
  obtains eff where
    "effect_ok rnd rule target (transition_of rule target f r now d) d eff d'"
    "alert_evaluation_state d' = alert_evaluation_state
       (save_state (dedup (rule_Family rule) target) rule tt target
         (State_of (transition_of rule target f r now d)) now v d)"
proof -
  let ?key = "dedup (rule_Family rule) target"
  let ?tr = "transition_of rule target f r now d"
  let ?d1 = "save_state ?key rule tt target (State_of ?tr) now v d"
  have goal: "\<exists>eff. effect_ok rnd rule target ?tr d eff d' \<and> alert_evaluation_state d' = alert_evaluation_state ?d1"
  proof (cases "Triggered ?tr")
    case True
    let ?d2 = "?d1\<lparr>draws := Suc (draws d)\<rparr>"
    let ?row = "firing_row (rnd (draws d)) rule tt target v now"
    obtain d3 where
      fs: "fire_sink sink (firing_alert (rnd (draws d)) rule tt target v now) now (?d2\<lparr>alerts := alerts d @ [?row]\<rparr>) = Inr d3"
      and ie: "insertEvent (rnd (draws d)) rule target ''alert_triggered'' now d3 = Inr d'"
      using assms True
      by (auto simp: evaluate_def Let_def transition_of_def draw_def bind_result_Inr split: if_splits)
    have fr: "sink_frame (?d2\<lparr>alerts := alerts d @ [?row]\<rparr>) d3" by (rule fired_frame [OF fs])
    show ?thesis
      using True fr ie
      by (intro exI [of _ "Fired_row ?row (last (events d'))"])
         (auto simp: effect_ok_def Let_def insertEvent_Inr sink_frame_def firing_row_def)
  next
    case nt: False
    show ?thesis
    proof (cases "Repeated ?tr")
      case True
      have ie: "insertEvent (rnd (draws d)) rule target ''alert_repeated'' now (?d1\<lparr>draws := Suc (draws d)\<rparr>) = Inr d'"
        using assms nt True by (simp add: evaluate_def Let_def transition_of_def draw_def)
      then show ?thesis using nt True
        by (intro exI [of _ "Repeated_event (last (events d'))"])
           (auto simp: effect_ok_def Let_def insertEvent_Inr)
    next
      case nr: False
      show ?thesis
      proof (cases "Resolved ?tr")
        case True
        show ?thesis
        proof (cases "latest_by al_started_at (filter (open_alert ?key) (alerts d))")
          case None
          then have "d' = ?d1"
            using assms nt nr True by (simp add: evaluate_def Let_def transition_of_def)
          then show ?thesis using nt nr True None
            by (intro exI [of _ Orphan_resolution]) (auto simp: effect_ok_def Let_def latest_by_None filter_empty_conv)
        next
          case (Some a)
          let ?al = "upd_where (\<lambda>r. al_id r = al_id a)
              (\<lambda>r. r\<lparr>al_status := ''resolved'', al_resolved_at := Some (unix now), al_last_observed_at := unix now\<rparr>) (alerts d)"
          obtain d3 where rs: "resolve_sink sink (al_id a) now (?d1\<lparr>alerts := ?al\<rparr>) = Inr d3"
            and ie: "insertEvent (al_id a) rule target ''alert_resolved'' now d3 = Inr d'"
            using assms nt nr True Some
            by (auto simp: evaluate_def Let_def transition_of_def bind_result_Inr)
          have fr: "sink_frame (?d1\<lparr>alerts := ?al\<rparr>) d3" by (rule resolved_frame [OF rs])
          have a: "a \<in> set (alerts d)" "open_alert ?key a" using latest_by_Some [OF Some] by auto
          show ?thesis using nt True a fr ie
            by (intro exI [of _ "Resolved_row (al_id a) (last (events d'))"])
               (auto simp: effect_ok_def Let_def insertEvent_Inr sink_frame_def)
        qed
      next
        case False
        show ?thesis
        proof (cases "active (phase_in ?key d)")
          case True
          then have "d' = ?d1\<lparr>alerts := upd_where (open_alert ?key)
              (\<lambda>r. r\<lparr>al_last_observed_at := unix now, al_observed := Some v\<rparr>) (alerts d)\<rparr>"
            using assms nt nr False by (auto simp: evaluate_def Let_def transition_of_def active_def)
          then show ?thesis using nt False True
            by (intro exI [of _ Observed_row]) (auto simp: effect_ok_def Let_def)
        next
          case na: False
          then have "d' = ?d1"
            using assms nt nr False by (auto simp: evaluate_def Let_def transition_of_def active_def)
          then show ?thesis using nt nr False na
            by (intro exI [of _ No_effect]) (auto simp: effect_ok_def Let_def)
        qed
      qed
    qed
  qed
  then show ?thesis using that by blast
qed

lemma evaluate_phase_in:
  assumes "evaluate rnd sink rule tt target v f r now d = Inr d'"
  shows "phase_in k d' = (if k = dedup (rule_Family rule) target
                          then Phase_of (State_of (transition_of rule target f r now d)) else phase_in k d)"
proof -
  from assms obtain eff where "alert_evaluation_state d' = alert_evaluation_state
      (save_state (dedup (rule_Family rule) target) rule tt target
        (State_of (transition_of rule target f r now d)) now v d)"
    by (rule evaluate_effect)
  from phase_in_cong [OF this, of k] show ?thesis by simp
qed

lemma evaluate_inv:
  assumes "inj rnd" and inv: "alert_inv rnd d"
    and ev: "evaluate rnd sink rule tt target v f r now d = Inr d'"
  shows "alert_inv rnd d'"
proof -
  let ?key = "dedup (rule_Family rule) target"
  let ?tr = "transition_of rule target f r now d"
  obtain eff where eff: "effect_ok rnd rule target ?tr d eff d'"
    and st: "alert_evaluation_state d' = alert_evaluation_state (save_state ?key rule tt target (State_of ?tr) now v d)"
    using ev by (rule evaluate_effect)
  have rows: "distinct (map es_key (alert_evaluation_state d))"
    "\<forall>r \<in> set (alert_evaluation_state d). valid_phase (es_phase r)"
    and ids: "distinct (map al_id (alerts d))" and fresh: "fresh_ids rnd d" and om: "open_matches d"
    using inv by (simp_all add: alert_inv_def)
  have vp: "valid_phase (Phase_of (State_of ?tr))"
    using valid_phase_in [OF rows(2)] by (simp add: transition_of_def Advance_valid_phase)
  have "distinct (map al_id (alerts d')) \<and> fresh_ids rnd d'"
    using eff ids fresh \<open>inj rnd\<close> by (rule effect_ids)
  moreover have "open_matches d'"
  proof -
    have "count_where (open_alert k) (alerts d') = (if active (phase_in k d') then 1 else 0)" for k
      using effect_open [OF eff ids om refl, of k] evaluate_phase_in [OF ev, of k] om
      by (simp add: open_matches_def)
    then show ?thesis by (simp add: open_matches_def)
  qed
  ultimately show ?thesis
    using save_state_rows [OF rows vp, of ?key rule tt target now v] st by (simp add: alert_inv_def)
qed

lemma Evaluate_inv:
  assumes "inj rnd" and "alert_inv rnd d"
  shows "alert_inv rnd (fst (Evaluate rnd sink ord snap now d))"
  by (rule Evaluate_preserves [of "\<lambda>_. True" "alert_inv rnd", OF _ _ _ _ _ assms(2)])
     (auto intro: evaluate_inv [OF assms(1)] Cleanup_inv upsert_grace_inv)

lemma alert_step_inv:
  assumes "inj rnd" and "alert_step rnd sink d d'" and "alert_inv rnd d"
  shows "alert_inv rnd d'"
  using assms(2,3)
proof (induction rule: alert_step.induct)
  case (step_Evaluate d ord snap now)
  then show ?case by (rule Evaluate_inv [OF assms(1)])
next
  case (step_SeedDefaults now d d')
  then show ?case by (metis SeedDefaults_frame alert_inv_frame order_refl)
next
  case (step_CreateSilence now s d d')
  then show ?case by (metis CreateSilence_frame alert_inv_frame)
next
  case (step_Other d' d)
  show ?case
  proof (rule alert_inv_frame [OF step_Other(1-3) _ step_Other(5)])
    fix e n assume "e \<in> set (events d')"
    then have "e \<in> set (events d) \<or> \<not> has_prefix (ev_id e) ''alert-''" using step_Other(4) by blast
    moreover have "has_prefix (''alert-'' @ rnd n) ''alert-''" by (rule has_prefix_append)
    ultimately show "e \<in> set (events d) \<or> ev_id e \<noteq> ''alert-'' @ rnd n" by metis
  qed
qed (erule alert_inv_frame [rotated 4];
     auto simp: UpdateRule_def CreateRule_def DeleteSilence_def DeploymentGrace_def upsert_grace_def Let_def split: if_splits)+

lemma alert_reachable_inv:
  assumes "inj rnd" and "alert_reachable rnd sink d"
  shows "alert_inv rnd d"
  using assms(2) by induction (auto intro: alert_inv_empty alert_step_inv [OF assms(1)])

end

end
