(* ===== verification/Incidents.thy ===== *)
theory Incidents
  imports Alert_Invariants
begin

section \<open>Incidents\<close>

text \<open>
  \<^verbatim>\<open>internal/notifications/repository.go\<close>, the incident half: grouping alerts into incidents, the
  two sink operations the alert evaluator calls inside its transaction, coalescing of
  deliveries, reminders, reconciliation at start-up and cleanup. \<open>wall\<close> is the reading of
  \<open>time.Now()\<close> inside \<open>upsertDeliveryTx\<close>; \<open>reminder\<close> is the repository's \<open>reminderInterval\<close>.
\<close>

definition newID :: "(nat \<Rightarrow> string) \<Rightarrow> string \<Rightarrow> db \<Rightarrow> string \<times> db" where
  "newID rnd prefix d = (let (x, d') = draw rnd d in (prefix @ x, d'))"

definition groupFor :: "Alert \<Rightarrow> string \<times> string \<times> string" where
  "groupFor a =
    (if alert_Family a = FamilyDockerDown \<or> alert_Family a = FamilyPersistence
     then (''subsystem:'' @ alert_TargetID a, ''subsystem'', alert_TargetID a)
     else if alert_Family a = FamilyHostCPU \<or> alert_Family a = FamilyHostMemory
     then (''host:server'', ''host'', ''server'')
     else if alert_TargetType a = ''resource'' \<or> alert_TargetType a = ''check''
     then (''resource:'' @ alert_TargetID a, ''resource'', alert_TargetID a)
     else if alert_TargetType a = ''filesystem''
     then (''filesystem:'' @ alert_TargetID a, ''filesystem'', alert_TargetID a)
     else if alert_TargetType a = ''host''
     then (''host:server'', ''host'', ''server'')
     else (''resource:'' @ alert_TargetID a, alert_TargetType a, alert_TargetID a))"

subsection \<open>Payloads and deliveries\<close>

text \<open>The join of \<^verbatim>\<open>incident_alerts\<close> with \<^verbatim>\<open>alerts\<close> for one incident.\<close>

definition members :: "string \<Rightarrow> db \<Rightarrow> alert_row list" where
  "members i d = concat (map (\<lambda>m. filter (\<lambda>a. al_id a = ia_alert_id m) (alerts d))
                          (filter (\<lambda>m. ia_incident_id m = i) (incident_alerts d)))"

definition firing_member :: "alert_row \<Rightarrow> bool" where
  "firing_member a = (al_status a = ''firing'')"

definition member_alert :: "alert_row \<Rightarrow> MemberAlert" where
  "member_alert a = \<lparr>ma_ID = al_id a, ma_Family = al_family a, ma_Severity = al_severity a,
     ma_Status = al_status a, ma_Message = al_message a, ma_StartedAt = from_unix (al_started_at a),
     ma_ResolvedAt = map_option from_unix (al_resolved_at a)\<rparr>"

definition scanIncident :: "incident_row \<Rightarrow> alert_row list \<Rightarrow> MemberAlert list \<Rightarrow> Incident" where
  "scanIncident i ms as = \<lparr>inc_ID = in_id i, inc_GroupKey = in_group_key i, inc_Status = in_status i,
     inc_Severity = in_severity i, inc_TargetType = in_target_type i, inc_TargetID = in_target_id i,
     inc_Title = in_title i, inc_AlertCount = length ms, inc_FiringCount = count_where firing_member ms,
     inc_OpenedAt = from_unix (in_opened_at i), inc_UpdatedAt = from_unix (in_updated_at i),
     inc_ResolvedAt = map_option from_unix (in_resolved_at i), inc_Version = in_version i, inc_Alerts = as\<rparr>"

definition payloadTx :: "string \<Rightarrow> string \<Rightarrow> string \<Rightarrow> string \<Rightarrow> db \<Rightarrow> Payload result" where
  "payloadTx deliveryID key incidentID eventType d =
    (case find (\<lambda>i. in_id i = incidentID) (incidents d) of
       None \<Rightarrow> Inl ErrNoRows
     | Some i \<Rightarrow>
         Inr (IncidentPayload eventType deliveryID key
           (scanIncident i (members incidentID d)
             (map member_alert (take 20 (sort_key (\<lambda>a. - al_started_at a) (members incidentID d)))))))"

definition lifecycle_event :: "string \<Rightarrow> bool" where
  "lifecycle_event e = (e = ''opened'' \<or> e = ''updated'')"

definition pending_lifecycle :: "string \<Rightarrow> string \<Rightarrow> delivery_row \<Rightarrow> bool" where
  "pending_lifecycle incidentID channelID n =
    (nd_incident_id n = Some incidentID \<and> nd_channel_id n = channelID \<and> nd_status n = ''pending'' \<and>
     lifecycle_event (nd_event_type n))"

definition insert_delivery :: "delivery_row \<Rightarrow> db \<Rightarrow> db result" where
  "insert_delivery row d =
    (if list_ex (\<lambda>n. nd_id n = nd_id row \<or> nd_idempotency_key n = nd_idempotency_key row) (notification_deliveries d)
     then Inl (ErrConstraint ''notification_deliveries'')
     else Inr (d\<lparr>notification_deliveries := notification_deliveries d @ [row]\<rparr>))"

definition fresh_delivery :: "(nat \<Rightarrow> string) \<Rightarrow> string \<Rightarrow> db \<Rightarrow> string \<times> string \<times> string \<times> db" where
  "fresh_delivery rnd eventType d =
    (let (i, d1) = newID rnd ''del_'' d; (k, d2) = newID rnd ''idem_'' d1 in (i, k, eventType, d2))"

text \<open>The delivery row, key and payload event to write: a queued opening or update is reused.\<close>

definition choose_delivery ::
  "(nat \<Rightarrow> string) \<Rightarrow> string \<Rightarrow> string \<Rightarrow> string \<Rightarrow> db \<Rightarrow> string \<times> string \<times> string \<times> db" where
  "choose_delivery rnd incidentID channelID eventType d =
    (case first_by nd_created_at (filter (pending_lifecycle incidentID channelID) (notification_deliveries d)) of
       Some n \<Rightarrow> if lifecycle_event eventType then (nd_id n, nd_idempotency_key n, nd_event_type n, d)
                 else fresh_delivery rnd eventType d
     | None \<Rightarrow> fresh_delivery rnd eventType d)"

definition write_delivery ::
  "time \<Rightarrow> string \<Rightarrow> string \<Rightarrow> string \<Rightarrow> time \<Rightarrow> string \<Rightarrow> string \<Rightarrow> Payload \<Rightarrow> db \<Rightarrow> db result" where
  "write_delivery wall incidentID channelID eventType due deliveryID key payload d =
    (if lifecycle_event eventType \<and> deliveryID \<noteq> [] \<and> list_ex (\<lambda>n. nd_id n = deliveryID) (notification_deliveries d)
     then Inr (d\<lparr>notification_deliveries := upd_where (\<lambda>n. nd_id n = deliveryID)
             (\<lambda>n. n\<lparr>nd_payload := payload, nd_next_attempt_at := Some (unix due), nd_updated_at := unix wall\<rparr>)
             (notification_deliveries d)\<rparr>)
     else insert_delivery
            \<lparr>nd_id = deliveryID, nd_channel_id = channelID, nd_incident_id = Some incidentID,
             nd_event_type = eventType, nd_payload = payload, nd_idempotency_key = key, nd_status = ''pending'',
             nd_attempts = 0, nd_next_attempt_at = Some (unix due), nd_started_at = None, nd_completed_at = None,
             nd_failure_code = None, nd_created_at = unix wall, nd_updated_at = unix wall\<rparr> d)"

definition upsertDeliveryTx ::
  "(nat \<Rightarrow> string) \<Rightarrow> time \<Rightarrow> string \<Rightarrow> string \<Rightarrow> string \<Rightarrow> time \<Rightarrow> db \<Rightarrow> db result" where
  "upsertDeliveryTx rnd wall incidentID channelID eventType due d =
    (case choose_delivery rnd incidentID channelID eventType d of (deliveryID, key, payloadEvent, d1) \<Rightarrow>
       bind_result (payloadTx deliveryID key incidentID payloadEvent d1) (\<lambda>payload.
         write_delivery wall incidentID channelID eventType due deliveryID key payload d1))"

definition active_channel :: "channel_row \<Rightarrow> bool" where
  "active_channel c = (ch_enabled c \<and> ch_deleted_at c = None)"

definition enqueue_for ::
  "(nat \<Rightarrow> string) \<Rightarrow> time \<Rightarrow> string \<Rightarrow> string \<Rightarrow> string \<Rightarrow> time \<Rightarrow> channel_row \<Rightarrow> db \<Rightarrow> db result" where
  "enqueue_for rnd wall incidentID eventType severity due ch d =
    (if ch_minimum_severity ch = ''critical'' \<and> severity \<noteq> ''critical'' \<and>
        \<not> (eventType = ''resolved'' \<and>
           list_ex (\<lambda>n. nd_incident_id n = Some incidentID \<and> nd_channel_id n = ch_id ch \<and> nd_status n \<noteq> ''cancelled'')
             (notification_deliveries d))
     then Inr d
     else if eventType = ''resolved'' \<and> \<not> ch_notify_resolved ch then Inr d
     else upsertDeliveryTx rnd wall incidentID (ch_id ch) eventType due d)"

definition enqueueIncidentTx ::
  "(nat \<Rightarrow> string) \<Rightarrow> time \<Rightarrow> string \<Rightarrow> string \<Rightarrow> string \<Rightarrow> time \<Rightarrow> db \<Rightarrow> db result" where
  "enqueueIncidentTx rnd wall incidentID eventType severity due d =
    fold_result (enqueue_for rnd wall incidentID eventType severity due)
      (filter active_channel (notification_channels d)) d"

text \<open>A resolution notifies the channels where an earlier delivery was attempted.\<close>

definition attempted :: "string \<Rightarrow> string \<Rightarrow> delivery_row \<Rightarrow> bool" where
  "attempted incidentID channelID n =
    (nd_incident_id n = Some incidentID \<and> nd_channel_id n = channelID \<and> nd_status n \<noteq> ''cancelled'' \<and>
     (0 < nd_attempts n \<or> nd_status n \<in> {''in_progress'', ''succeeded'', ''permanent_failure''}))"

definition cancel_delivery :: "time \<Rightarrow> delivery_row \<Rightarrow> delivery_row" where
  "cancel_delivery now n = n\<lparr>nd_status := ''cancelled'', nd_completed_at := Some (unix now),
     nd_next_attempt_at := None, nd_updated_at := unix now\<rparr>"

definition resolve_for ::
  "(nat \<Rightarrow> string) \<Rightarrow> time \<Rightarrow> string \<Rightarrow> time \<Rightarrow> channel_row \<Rightarrow> db \<Rightarrow> db result" where
  "resolve_for rnd wall incidentID now ch d =
    (if \<not> list_ex (attempted incidentID (ch_id ch)) (notification_deliveries d)
     then Inr (d\<lparr>notification_deliveries :=
            upd_where (\<lambda>n. pending_lifecycle incidentID (ch_id ch) n \<and> nd_attempts n = 0) (cancel_delivery now)
              (notification_deliveries d)\<rparr>)
     else upsertDeliveryTx rnd wall incidentID (ch_id ch) ''resolved'' now
            (d\<lparr>notification_deliveries :=
               upd_where (pending_lifecycle incidentID (ch_id ch)) (cancel_delivery now) (notification_deliveries d)\<rparr>))"

definition enqueueResolutionTx ::
  "(nat \<Rightarrow> string) \<Rightarrow> time \<Rightarrow> string \<Rightarrow> time \<Rightarrow> db \<Rightarrow> db result" where
  "enqueueResolutionTx rnd wall incidentID now d =
    fold_result (resolve_for rnd wall incidentID now)
      (filter (\<lambda>c. active_channel c \<and> ch_notify_resolved c) (notification_channels d)) d"

subsection \<open>The sink\<close>

definition open_incident :: "string \<Rightarrow> incident_row \<Rightarrow> bool" where
  "open_incident grp i = (in_group_key i = grp \<and> in_status i = ''open'')"

definition insert_member :: "string \<Rightarrow> string \<Rightarrow> time \<Rightarrow> db \<Rightarrow> db result" where
  "insert_member incidentID alertID now d =
    (if list_ex (\<lambda>m. ia_alert_id m = alertID) (incident_alerts d) then Inl (ErrConstraint ''incident_alerts'')
     else Inr (d\<lparr>incident_alerts := incident_alerts d @
            [\<lparr>ia_incident_id = incidentID, ia_alert_id = alertID, ia_joined_at = unix now, ia_resolved_at = None\<rparr>]\<rparr>))"

definition new_incident :: "string \<Rightarrow> Alert \<Rightarrow> time \<Rightarrow> duration \<Rightarrow> incident_row" where
  "new_incident incidentID a now reminder =
    (case groupFor a of (grp, targetType, targetID) \<Rightarrow>
      \<lparr>in_id = incidentID, in_group_key = grp, in_status = ''open'', in_severity = severity_str (alert_Severity a),
       in_target_type = targetType, in_target_id = targetID,
       in_title = targetType @ '' incident on '' @ targetID, in_opened_at = unix now, in_updated_at = unix now,
       in_resolved_at = None, in_version = 1, in_next_reminder_at = Some (unix (now + reminder))\<rparr>)"

definition alertFiredTx ::
  "(nat \<Rightarrow> string) \<Rightarrow> time \<Rightarrow> duration \<Rightarrow> Alert \<Rightarrow> time \<Rightarrow> bool \<Rightarrow> db \<Rightarrow> db result" where
  "alertFiredTx rnd wall reminder a now notify d =
    (case find (open_incident (fst (groupFor a))) (incidents d) of
       None \<Rightarrow>
         (let (incidentID, d1) = newID rnd ''inc_'' d
          in if list_ex (\<lambda>i. in_id i = incidentID) (incidents d1) then Inl (ErrConstraint ''incidents'')
             else bind_result
               (insert_member incidentID (alert_ID a) now
                 (d1\<lparr>incidents := incidents d1 @ [new_incident incidentID a now reminder]\<rparr>))
               (\<lambda>d2. if notify
                     then enqueueIncidentTx rnd wall incidentID ''opened'' (severity_str (alert_Severity a)) (now + seconds 15) d2
                     else Inr d2))
     | Some i \<Rightarrow>
         (let severity = (if in_severity i = ''warning'' \<and> alert_Severity a = Critical then ''critical'' else in_severity i)
          in bind_result
               (insert_member (in_id i) (alert_ID a) now
                 (d\<lparr>incidents := upd_where (\<lambda>r. in_id r = in_id i)
                    (\<lambda>r. r\<lparr>in_severity := severity, in_updated_at := unix now, in_version := in_version r + 1\<rparr>)
                    (incidents d)\<rparr>))
               (\<lambda>d2. if notify
                     then enqueueIncidentTx rnd wall (in_id i) ''updated'' severity (now + seconds 15) d2
                     else Inr d2)))"

definition alertResolvedTx ::
  "(nat \<Rightarrow> string) \<Rightarrow> time \<Rightarrow> string \<Rightarrow> time \<Rightarrow> db \<Rightarrow> db result" where
  "alertResolvedTx rnd wall alertID now d =
    (case find (\<lambda>m. ia_alert_id m = alertID) (incident_alerts d) of
       None \<Rightarrow> Inr d
     | Some m \<Rightarrow>
         (let incidentID = ia_incident_id m;
              d1 = d\<lparr>incident_alerts := upd_where (\<lambda>m. ia_alert_id m = alertID \<and> ia_resolved_at m = None)
                       (\<lambda>m. m\<lparr>ia_resolved_at := Some (unix now)\<rparr>) (incident_alerts d)\<rparr>
          in if list_ex firing_member (members incidentID d1)
             then (let severity = (if list_ex (\<lambda>a. firing_member a \<and> al_severity a = Critical) (members incidentID d1)
                                   then ''critical'' else ''warning'')
                   in Inr (d1\<lparr>incidents := upd_where (\<lambda>r. in_id r = incidentID)
                        (\<lambda>r. r\<lparr>in_severity := severity, in_updated_at := unix now, in_version := in_version r + 1\<rparr>)
                        (incidents d1)\<rparr>))
             else enqueueResolutionTx rnd wall incidentID now
                    (d1\<lparr>incidents := upd_where (\<lambda>r. in_id r = incidentID)
                       (\<lambda>r. r\<lparr>in_status := ''resolved'', in_resolved_at := Some (unix now), in_updated_at := unix now,
                              in_next_reminder_at := None, in_version := in_version r + 1\<rparr>)
                       (incidents d1)\<rparr>)))"

definition notification_sink :: "(nat \<Rightarrow> string) \<Rightarrow> time \<Rightarrow> duration \<Rightarrow> IncidentSink" where
  "notification_sink rnd wall reminder =
    \<lparr>AlertFiredTx = (\<lambda>a now. alertFiredTx rnd wall reminder a now True),
     AlertResolvedTx = alertResolvedTx rnd wall\<rparr>"

subsection \<open>Reconciliation, reminders, cleanup\<close>

definition reconcile_alert ::
  "(nat \<Rightarrow> string) \<Rightarrow> time \<Rightarrow> duration \<Rightarrow> time \<Rightarrow> alert_row \<Rightarrow> db \<Rightarrow> db result" where
  "reconcile_alert rnd wall reminder now a d =
    bind_result (alertFiredTx rnd wall reminder (scan_alert a []) now False d) (\<lambda>d1.
      Inr (d1\<lparr>incidents := upd_where
             (\<lambda>i. case find (\<lambda>m. ia_alert_id m = al_id a) (incident_alerts d1) of
                    None \<Rightarrow> False | Some m \<Rightarrow> in_id i = ia_incident_id m)
             (\<lambda>i. i\<lparr>in_opened_at := min (in_opened_at i) (al_started_at a)\<rparr>) (incidents d1)\<rparr>))"

definition Reconcile :: "(nat \<Rightarrow> string) \<Rightarrow> time \<Rightarrow> duration \<Rightarrow> time \<Rightarrow> db \<Rightarrow> db result" where
  "Reconcile rnd wall reminder now d =
    fold_result (reconcile_alert rnd wall reminder now)
      (sort_key al_started_at
        (filter (\<lambda>a. firing_member a \<and> \<not> list_ex (\<lambda>m. ia_alert_id m = al_id a) (incident_alerts d)) (alerts d))) d"

definition remind :: "(nat \<Rightarrow> string) \<Rightarrow> time \<Rightarrow> time \<Rightarrow> duration \<Rightarrow> string \<times> string \<Rightarrow> db \<Rightarrow> db result" where
  "remind rnd wall now interval due d =
    enqueueIncidentTx rnd wall (fst due) ''reminder'' (snd due) now
      (d\<lparr>incidents := upd_where (\<lambda>i. in_id i = fst due)
         (\<lambda>i. i\<lparr>in_next_reminder_at := Some (unix (now + interval))\<rparr>) (incidents d)\<rparr>)"

definition ScheduleReminders :: "(nat \<Rightarrow> string) \<Rightarrow> time \<Rightarrow> time \<Rightarrow> duration \<Rightarrow> db \<Rightarrow> db result" where
  "ScheduleReminders rnd wall now interval d =
    (let interval = (if interval \<le> 0 then hours 2 else interval)
     in fold_result (remind rnd wall now interval)
          (map (\<lambda>i. (in_id i, in_severity i))
            (filter (\<lambda>i. in_status i = ''open'' \<and>
               (case in_next_reminder_at i of None \<Rightarrow> False | Some t \<Rightarrow> t \<le> unix now)) (incidents d))) d)"

definition old_delivery :: "time \<Rightarrow> delivery_row \<Rightarrow> bool" where
  "old_delivery now n = (nd_status n \<in> {''succeeded'', ''permanent_failure'', ''cancelled''} \<and>
     (case nd_completed_at n of None \<Rightarrow> False | Some t \<Rightarrow> t < unix (now - hours (90 * 24))))"

definition old_incident :: "time \<Rightarrow> incident_row \<Rightarrow> bool" where
  "old_incident now i = (in_status i = ''resolved'' \<and>
     (case in_resolved_at i of None \<Rightarrow> False | Some t \<Rightarrow> t < unix (now - hours (365 * 24))))"

text \<open>
  Removing an incident removes its memberships and detaches its deliveries
  (\<^verbatim>\<open>ON DELETE CASCADE\<close>, \<^verbatim>\<open>ON DELETE SET NULL\<close>).
\<close>

definition Cleanup_notifications :: "time \<Rightarrow> db \<Rightarrow> db" where
  "Cleanup_notifications now d =
    (let gone = (\<lambda>i. list_ex (\<lambda>r. old_incident now r \<and> in_id r = i) (incidents d))
     in d\<lparr>notification_deliveries :=
            upd_where (\<lambda>n. case nd_incident_id n of None \<Rightarrow> False | Some i \<Rightarrow> gone i) (\<lambda>n. n\<lparr>nd_incident_id := None\<rparr>)
              (del_where (old_delivery now) (notification_deliveries d)),
          incidents := del_where (old_incident now) (incidents d),
          incident_alerts := del_where (\<lambda>m. gone (ia_incident_id m)) (incident_alerts d)\<rparr>)"

subsection \<open>The sink keeps its contract\<close>

lemma newID_frame:
  "newID rnd p d = (i, d') \<Longrightarrow> i = p @ rnd (draws d) \<and> d' = d\<lparr>draws := Suc (draws d)\<rparr>"
  by (auto simp: newID_def draw_def Let_def)

text \<open>What the notification operations leave alone.\<close>

definition queue_frame :: "db \<Rightarrow> db \<Rightarrow> bool" where
  "queue_frame d d' \<longleftrightarrow> sink_frame d d' \<and> incidents d' = incidents d \<and> incident_alerts d' = incident_alerts d \<and>
     notification_channels d' = notification_channels d"

lemma queue_frame_refl [simp]: "queue_frame d d"
  by (simp add: queue_frame_def)

lemma queue_frame_trans: "queue_frame d d' \<Longrightarrow> queue_frame d' d'' \<Longrightarrow> queue_frame d d''"
  by (simp add: queue_frame_def sink_frame_def)

lemma queue_frame_update: "draws d \<le> k \<Longrightarrow> queue_frame d (d\<lparr>notification_deliveries := t, draws := k\<rparr>)"
  by (simp add: queue_frame_def sink_frame_def)

lemma queue_frame_deliveries: "queue_frame d (d\<lparr>notification_deliveries := t\<rparr>)"
  by (simp add: queue_frame_def sink_frame_def)

lemma choose_delivery_state:
  assumes "choose_delivery rnd i c e d = (did, key, ev, d1)"
  obtains k where "d1 = d\<lparr>draws := k\<rparr>" "draws d \<le> k"
proof -
  have "\<exists>k. d1 = d\<lparr>draws := k\<rparr> \<and> draws d \<le> k"
  proof (cases "first_by nd_created_at (filter (pending_lifecycle i c) (notification_deliveries d))")
    case None
    then have "d1 = d\<lparr>draws := Suc (Suc (draws d))\<rparr>"
      using assms by (simp add: choose_delivery_def fresh_delivery_def newID_def draw_def)
    then show ?thesis by (intro exI [of _ "Suc (Suc (draws d))"]) simp
  next
    case (Some n)
    show ?thesis
    proof (cases "lifecycle_event e")
      case True
      then show ?thesis using assms Some by (intro exI [of _ "draws d"]) (simp add: choose_delivery_def)
    next
      case False
      then have "d1 = d\<lparr>draws := Suc (Suc (draws d))\<rparr>"
        using assms Some by (simp add: choose_delivery_def fresh_delivery_def newID_def draw_def)
      then show ?thesis by (intro exI [of _ "Suc (Suc (draws d))"]) simp
    qed
  qed
  then show ?thesis using that by blast
qed

lemma write_delivery_frame:
  "write_delivery wall i c e due did key p d = Inr d' \<Longrightarrow> queue_frame d d'"
  by (auto simp: write_delivery_def insert_delivery_def queue_frame_deliveries split: if_splits)

lemma upsertDeliveryTx_frame:
  assumes "upsertDeliveryTx rnd wall i c e due d = Inr d'"
  shows "queue_frame d d'"
proof -
  obtain did key ev d1 where ch: "choose_delivery rnd i c e d = (did, key, ev, d1)"
    by (metis prod_cases4)
  obtain k where k: "d1 = d\<lparr>draws := k\<rparr>" "draws d \<le> k" using ch by (rule choose_delivery_state)
  have "queue_frame d d1" using k by (simp add: queue_frame_def sink_frame_def)
  moreover obtain p where "write_delivery wall i c e due did key p d1 = Inr d'"
    using assms by (auto simp: upsertDeliveryTx_def ch bind_result_Inr)
  then have "queue_frame d1 d'" by (rule write_delivery_frame)
  ultimately show ?thesis by (rule queue_frame_trans)
qed

lemma enqueueIncidentTx_frame:
  assumes "enqueueIncidentTx rnd wall i e sev due d = Inr d'"
  shows "queue_frame d d'"
  by (rule fold_result_inv [where P = "queue_frame d", OF assms [unfolded enqueueIncidentTx_def]])
     (auto simp: enqueue_for_def intro: queue_frame_trans dest: upsertDeliveryTx_frame split: if_splits)

lemma resolve_for_frame:
  assumes "resolve_for rnd wall i now c d = Inr d'"
  shows "queue_frame d d'"
  using assms queue_frame_trans [OF queue_frame_deliveries upsertDeliveryTx_frame]
  by (auto simp: resolve_for_def queue_frame_deliveries split: if_splits)

lemma enqueueResolutionTx_frame:
  assumes "enqueueResolutionTx rnd wall i now d = Inr d'"
  shows "queue_frame d d'"
  by (rule fold_result_inv [where P = "queue_frame d", OF assms [unfolded enqueueResolutionTx_def]])
     (auto intro: queue_frame_trans dest: resolve_for_frame)

text \<open>The incident and membership rows a fired alert leaves behind.\<close>

lemma alertFiredTx_cases:
  assumes "alertFiredTx rnd wall reminder a now notify d = Inr d'"
  obtains (opened) i d2 where
      "\<forall>r \<in> set (incidents d). \<not> open_incident (fst (groupFor a)) r"
      "i = ''inc_'' @ rnd (draws d)" "\<forall>r \<in> set (incidents d). in_id r \<noteq> i"
      "insert_member i (alert_ID a) now (d\<lparr>draws := Suc (draws d), incidents := incidents d @ [new_incident i a now reminder]\<rparr>) = Inr d2"
      "queue_frame d2 d'"
    | (updated) r d2 where
      "r \<in> set (incidents d)" "open_incident (fst (groupFor a)) r"
      "insert_member (in_id r) (alert_ID a) now
         (d\<lparr>incidents := upd_where (\<lambda>x. in_id x = in_id r)
            (\<lambda>x. x\<lparr>in_severity := if in_severity r = ''warning'' \<and> alert_Severity a = Critical then ''critical'' else in_severity r,
                   in_updated_at := unix now, in_version := in_version x + 1\<rparr>) (incidents d)\<rparr>) = Inr d2"
      "queue_frame d2 d'"
proof (cases "find (open_incident (fst (groupFor a))) (incidents d)")
  case None
  obtain i where i: "i = ''inc_'' @ rnd (draws d)" by simp
  have nid: "newID rnd ''inc_'' d = (i, d\<lparr>draws := Suc (draws d)\<rparr>)" by (simp add: newID_def draw_def i)
  have no: "\<forall>r \<in> set (incidents d). \<not> open_incident (fst (groupFor a)) r" using None by (simp add: find_None)
  have fresh: "\<forall>r \<in> set (incidents d). in_id r \<noteq> i"
    using assms None by (auto simp: alertFiredTx_def nid list_ex_iff split: if_splits)
  obtain d2 where d2: "insert_member i (alert_ID a) now
      (d\<lparr>draws := Suc (draws d), incidents := incidents d @ [new_incident i a now reminder]\<rparr>) = Inr d2"
    and k: "(if notify then enqueueIncidentTx rnd wall i ''opened'' (severity_str (alert_Severity a)) (now + seconds 15) d2
             else Inr d2) = Inr d'"
    using assms None fresh by (auto simp: alertFiredTx_def nid list_ex_iff bind_result_Inr)
  have "queue_frame d2 d'" using k by (cases notify) (auto dest: enqueueIncidentTx_frame)
  then show ?thesis using opened [OF no i fresh d2] by blast
next
  case (Some r)
  have r: "r \<in> set (incidents d)" "open_incident (fst (groupFor a)) r" using find_Some_in [OF Some] by auto
  obtain d2 sev where d2: "insert_member (in_id r) (alert_ID a) now
      (d\<lparr>incidents := upd_where (\<lambda>x. in_id x = in_id r)
            (\<lambda>x. x\<lparr>in_severity := if in_severity r = ''warning'' \<and> alert_Severity a = Critical then ''critical'' else in_severity r,
                   in_updated_at := unix now, in_version := in_version x + 1\<rparr>) (incidents d)\<rparr>) = Inr d2"
    and k: "(if notify then enqueueIncidentTx rnd wall (in_id r) ''updated'' sev (now + seconds 15) d2 else Inr d2) = Inr d'"
    using assms Some by (auto simp: alertFiredTx_def Let_def bind_result_Inr)
  have "queue_frame d2 d'" using k by (cases notify) (auto dest: enqueueIncidentTx_frame)
  then show ?thesis using updated [OF r d2] by blast
qed

lemma insert_member_Inr:
  "insert_member i al now d = Inr d' \<longleftrightarrow>
     (\<forall>m \<in> set (incident_alerts d). ia_alert_id m \<noteq> al) \<and>
     d' = d\<lparr>incident_alerts := incident_alerts d @
            [\<lparr>ia_incident_id = i, ia_alert_id = al, ia_joined_at = unix now, ia_resolved_at = None\<rparr>]\<rparr>"
  by (auto simp: insert_member_def list_ex_iff)

lemma alertFiredTx_frame:
  assumes "alertFiredTx rnd wall reminder a now notify d = Inr d'"
  shows "sink_frame d d'"
  using assms
  by (cases rule: alertFiredTx_cases) (auto simp: insert_member_Inr queue_frame_def sink_frame_def)

lemma alertResolvedTx_frame:
  assumes "alertResolvedTx rnd wall i now d = Inr d'"
  shows "sink_frame d d'"
proof (cases "find (\<lambda>m. ia_alert_id m = i) (incident_alerts d)")
  case None
  then show ?thesis using assms by (simp add: alertResolvedTx_def)
next
  case (Some m)
  then show ?thesis using assms
    by (auto simp: alertResolvedTx_def Let_def sink_frame_def queue_frame_def
        split: if_splits dest!: enqueueResolutionTx_frame)
qed

interpretation notif: incident_sink "Some (notification_sink rnd wall reminder)" for rnd wall reminder
  by unfold_locales
     (auto simp: fire_sink_def resolve_sink_def notification_sink_def
       intro: alertFiredTx_frame alertResolvedTx_frame)

interpretation nosink: incident_sink None
  by unfold_locales (simp_all add: fire_sink_def resolve_sink_def)

end
