(* ===== verification/Incident_Invariants.thy ===== *)
theory Incident_Invariants
  imports Incidents
begin

section \<open>The invariant of the incident tables\<close>

text \<open>
  An incident is open exactly while one of its alerts is firing, its severity is the highest
  severity among its firing alerts, and a group has at most one open incident. Each sink
  operation, run on the tables the evaluator hands it, re-establishes this.
\<close>

abbreviation critical_row :: "alert_row \<Rightarrow> bool" where
  "critical_row a \<equiv> al_severity a = Critical"

text \<open>An incident has a firing member; with \<open>True\<close>, a critical one.\<close>

definition has_firing :: "bool \<Rightarrow> db \<Rightarrow> string \<Rightarrow> bool" where
  "has_firing q d i \<longleftrightarrow>
    (\<exists>m \<in> set (incident_alerts d). ia_incident_id m = i \<and>
       (\<exists>a \<in> set (alerts d). al_id a = ia_alert_id m \<and> firing_member a \<and> (q \<longrightarrow> critical_row a)))"

definition incident_ok :: "db \<Rightarrow> incident_row \<Rightarrow> bool" where
  "incident_ok d i \<longleftrightarrow>
    (in_status i = ''open'' \<or> in_status i = ''resolved'') \<and>
    (in_status i = ''open'' \<longleftrightarrow> has_firing False d (in_id i)) \<and>
    (in_status i = ''open'' \<longrightarrow> in_severity i = (if has_firing True d (in_id i) then ''critical'' else ''warning''))"

definition incident_inv :: "db \<Rightarrow> bool" where
  "incident_inv d \<longleftrightarrow>
     distinct (map in_id (incidents d)) \<and>
     distinct (map ia_alert_id (incident_alerts d)) \<and>
     set (map ia_incident_id (incident_alerts d)) \<subseteq> set (map in_id (incidents d)) \<and>
     (\<forall>g. count_where (open_incident g) (incidents d) \<le> 1) \<and>
     (\<forall>i \<in> set (incidents d). incident_ok d i)"

lemma incident_inv_empty: "incident_inv empty_db"
  by (simp add: incident_inv_def empty_db_def)

lemma members_iff:
  "a \<in> set (members i d) \<longleftrightarrow>
     a \<in> set (alerts d) \<and> (\<exists>m \<in> set (incident_alerts d). ia_incident_id m = i \<and> ia_alert_id m = al_id a)"
  by (auto simp: members_def)

lemma has_firing_members: "has_firing q d i \<longleftrightarrow> list_ex (\<lambda>a. firing_member a \<and> (q \<longrightarrow> critical_row a)) (members i d)"
  unfolding has_firing_def list_ex_iff Bex_def members_iff by metis

lemma has_firing_cong:
  "set (incident_alerts d') = set (incident_alerts d) \<Longrightarrow> alerts d' = alerts d \<Longrightarrow> has_firing q d' = has_firing q d"
  by (auto simp: has_firing_def)

lemma has_firing_pairs:
  "has_firing q d i \<longleftrightarrow>
    (\<exists>p \<in> set (map (\<lambda>m. (ia_incident_id m, ia_alert_id m)) (incident_alerts d)). fst p = i \<and>
       (\<exists>a \<in> set (alerts d). al_id a = snd p \<and> firing_member a \<and> (q \<longrightarrow> critical_row a)))"
  by (simp add: has_firing_def)

lemma incident_ok_cong:
  assumes "\<And>q. has_firing q d' (in_id i) = has_firing q d (in_id i)"
  shows "incident_ok d' i = incident_ok d i"
  using assms by (simp add: incident_ok_def)

lemma incident_ok_key_cong:
  "in_id i' = in_id i \<Longrightarrow> in_status i' = in_status i \<Longrightarrow> in_severity i' = in_severity i \<Longrightarrow>
   incident_ok d i' = incident_ok d i"
  by (simp add: incident_ok_def)

text \<open>Incidents are untouched and every incident's firing members are the same.\<close>

lemma incident_inv_frame:
  assumes "incident_inv d"
    and "incidents d' = incidents d"
    and "distinct (map ia_alert_id (incident_alerts d'))"
    and "set (map ia_incident_id (incident_alerts d')) \<subseteq> set (map ia_incident_id (incident_alerts d))"
    and "\<And>q i. has_firing q d' i = has_firing q d i"
  shows "incident_inv d'"
proof -
  have "incident_ok d' i = incident_ok d i" for i by (rule incident_ok_cong) (rule assms(5))
  moreover have "set (map ia_incident_id (incident_alerts d')) \<subseteq> set (map in_id (incidents d))"
    using assms(1,4) unfolding incident_inv_def by blast
  ultimately show ?thesis using assms(1-3) by (simp add: incident_inv_def)
qed

lemma incident_inv_queue: "incident_inv d \<Longrightarrow> queue_frame d d' \<Longrightarrow> incident_inv d'"
  by (rule incident_inv_frame [of d])
     (simp_all add: queue_frame_def sink_frame_def incident_inv_def has_firing_def)

subsection \<open>A fired alert\<close>

lemma has_firing_join:
  assumes "alerts d' = alerts d" "incident_alerts d' = incident_alerts d @ [m]"
    and "row \<in> set (alerts d)" "al_id row = ia_alert_id m" "firing_member row" "distinct (map al_id (alerts d))"
  shows "has_firing q d' i \<longleftrightarrow> has_firing q d i \<or> i = ia_incident_id m \<and> (q \<longrightarrow> critical_row row)"
proof -
  have "(\<exists>a \<in> set (alerts d). al_id a = ia_alert_id m \<and> firing_member a \<and> (q \<longrightarrow> critical_row a)) \<longleftrightarrow> (q \<longrightarrow> critical_row row)"
    using assms(3-6) by (metis distinct_map_unique)
  then show ?thesis unfolding has_firing_def assms(1,2) by (simp add: bex_Un) blast
qed

lemma count_open_append:
  "\<forall>g. count_where (open_incident g) t \<le> 1 \<Longrightarrow> \<forall>r \<in> set t. \<not> open_incident (in_group_key i) r \<Longrightarrow>
   count_where (open_incident g) (t @ [i]) \<le> 1"
proof -
  assume le: "\<forall>g. count_where (open_incident g) t \<le> 1" and no: "\<forall>r \<in> set t. \<not> open_incident (in_group_key i) r"
  show ?thesis
  proof (cases "g = in_group_key i")
    case True
    then have "count_where (open_incident g) t = 0" using no by (simp add: count_where_0_iff)
    then show ?thesis by simp
  next
    case False
    then have "\<not> open_incident g i" by (auto simp: open_incident_def)
    then show ?thesis using le by simp
  qed
qed

lemma has_firing_fresh:
  "incident_inv d \<Longrightarrow> \<forall>r \<in> set (incidents d). in_id r \<noteq> i \<Longrightarrow> \<not> has_firing q d i"
  by (auto simp: incident_inv_def has_firing_def dest!: subsetD)

lemma alertFiredTx_inv:
  assumes inv: "incident_inv d" and ids: "distinct (map al_id (alerts d))"
    and row: "row \<in> set (alerts d)" "al_id row = alert_ID a" "firing_member row" "al_severity row = alert_Severity a"
    and sev: "valid_severity (alert_Severity a)"
    and tx: "alertFiredTx rnd wall reminder a now notify d = Inr d'"
  shows "incident_inv d'"
  using tx
proof (cases rule: alertFiredTx_cases)
  case (opened i d2)
  let ?inc = "new_incident i a now reminder"
  define m where "m = \<lparr>ia_incident_id = i, ia_alert_id = alert_ID a, ia_joined_at = unix now, ia_resolved_at = None\<rparr>"
  have d2: "incidents d2 = incidents d @ [?inc]" "incident_alerts d2 = incident_alerts d @ [m]" "alerts d2 = alerts d"
    and nm: "\<forall>x \<in> set (incident_alerts d). ia_alert_id x \<noteq> alert_ID a"
    using opened(4) by (auto simp: insert_member_Inr m_def)
  have hf: "has_firing q d2 j \<longleftrightarrow> has_firing q d j \<or> j = i \<and> (q \<longrightarrow> critical_row row)" for q j
    using has_firing_join [OF d2(3,2) row(1) _ row(3) ids] row(2) by (simp add: m_def)
  have inc: "in_id ?inc = i" "in_status ?inc = ''open''" "in_group_key ?inc = fst (groupFor a)"
    "in_severity ?inc = severity_str (alert_Severity a)"
    by (simp_all add: new_incident_def split: prod.splits)
  have fresh: "\<not> has_firing q d i" for q by (rule has_firing_fresh [OF inv opened(3)])
  have old: "incident_ok d2 r" if "r \<in> set (incidents d)" for r
  proof -
    have "in_id r \<noteq> i" using opened(3) that by blast
    then have "incident_ok d2 r = incident_ok d r" by (intro incident_ok_cong) (simp add: hf)
    then show ?thesis using inv that by (simp add: incident_inv_def)
  qed
  have new: "incident_ok d2 ?inc"
    using inc sev fresh row(4) by (auto simp: incident_ok_def hf severity_str_def valid_severity_def)
  have "distinct (map in_id (incidents d2))" using inv opened(3) inc by (auto simp: incident_inv_def d2)
  moreover have "distinct (map ia_alert_id (incident_alerts d2))"
    using inv nm by (auto simp: incident_inv_def d2 m_def)
  moreover have "set (map ia_incident_id (incident_alerts d2)) \<subseteq> set (map in_id (incidents d2))"
    using inv inc by (auto simp: incident_inv_def d2 m_def)
  moreover have "count_where (open_incident g) (incidents d2) \<le> 1" for g
    unfolding d2 using inv opened(1) inc by (intro count_open_append) (auto simp: incident_inv_def)
  ultimately have "incident_inv d2" using old new by (auto simp: incident_inv_def d2)
  then show ?thesis using opened(5) by (rule incident_inv_queue)
next
  case (updated r d2)
  let ?sev = "if in_severity r = ''warning'' \<and> alert_Severity a = Critical then ''critical'' else in_severity r"
  let ?f = "\<lambda>x. x\<lparr>in_severity := ?sev, in_updated_at := unix now, in_version := in_version x + 1\<rparr>"
  define m where "m = \<lparr>ia_incident_id = in_id r, ia_alert_id = alert_ID a, ia_joined_at = unix now, ia_resolved_at = None\<rparr>"
  have d2: "incidents d2 = upd_where (\<lambda>x. in_id x = in_id r) ?f (incidents d)"
    "incident_alerts d2 = incident_alerts d @ [m]" "alerts d2 = alerts d"
    and nm: "\<forall>x \<in> set (incident_alerts d). ia_alert_id x \<noteq> alert_ID a"
    using updated(3) by (auto simp: insert_member_Inr m_def)
  have hf: "has_firing q d2 j \<longleftrightarrow> has_firing q d j \<or> j = in_id r \<and> (q \<longrightarrow> critical_row row)" for q j
    using has_firing_join [OF d2(3,2) row(1) _ row(3) ids] row(2) by (simp add: m_def)
  have dist: "distinct (map in_id (incidents d))" and okd: "\<forall>x \<in> set (incidents d). incident_ok d x"
    using inv by (auto simp: incident_inv_def)
  have ok: "incident_ok d2 x" if "x \<in> set (incidents d2)" for x
  proof -
    from that consider y where "y \<in> set (incidents d)" "in_id y = in_id r" "x = ?f y" | "x \<in> set (incidents d)" "in_id x \<noteq> in_id r"
      by (auto simp: d2 set_upd_where)
    then show ?thesis
    proof cases
      case 1
      then have "y = r" using dist updated(1) by (metis distinct_map_unique)
      then show ?thesis using 1 okd updated(1,2) row(4) by (auto simp: incident_ok_def hf open_incident_def)
    next
      case 2
      then have "incident_ok d2 x = incident_ok d x" by (intro incident_ok_cong) (simp add: hf)
      then show ?thesis using okd 2 by blast
    qed
  qed
  have ids2: "map in_id (incidents d2) = map in_id (incidents d)" unfolding d2 by (rule map_upd_where) simp
  have "count_where (open_incident g) (incidents d2) = count_where (open_incident g) (incidents d)" for g
    unfolding d2 by (rule count_where_upd_same) (simp add: open_incident_def)
  moreover have "set (map ia_incident_id (incident_alerts d2)) \<subseteq> set (map in_id (incidents d2))"
    unfolding ids2 using inv updated(1) by (auto simp: incident_inv_def d2(2) m_def)
  moreover have "distinct (map ia_alert_id (incident_alerts d2))"
    using inv nm by (auto simp: incident_inv_def d2 m_def)
  ultimately have "incident_inv d2" using inv ok ids2 by (simp add: incident_inv_def)
  then show ?thesis using updated(4) by (rule incident_inv_queue)
qed

subsection \<open>A resolved alert\<close>

lemma has_firing_untouched:
  assumes "alerts d = upd_where (\<lambda>r. al_id r = i) g (alerts d0)" "incident_alerts d = incident_alerts d0"
    and g: "\<And>r. al_id (g r) = al_id r"
    and "\<And>m. m \<in> set (incident_alerts d0) \<Longrightarrow> ia_incident_id m = j \<Longrightarrow> ia_alert_id m \<noteq> i"
  shows "has_firing q d j = has_firing q d0 j"
proof -
  have "(\<exists>a \<in> set (alerts d). al_id a = k \<and> firing_member a \<and> (q \<longrightarrow> critical_row a)) =
        (\<exists>a \<in> set (alerts d0). al_id a = k \<and> firing_member a \<and> (q \<longrightarrow> critical_row a))" if "k \<noteq> i" for k
    using that g by (auto simp: assms(1) set_upd_where)
  then show ?thesis unfolding has_firing_def assms(2) using assms(4) by (intro bex_cong) auto
qed

lemma alertResolvedTx_inv:
  assumes inv: "incident_inv d0"
    and d: "alerts d = upd_where (\<lambda>r. al_id r = i) g (alerts d0)" "incident_alerts d = incident_alerts d0"
      "incidents d = incidents d0"
    and g: "\<And>r. al_id (g r) = al_id r"
    and fir: "\<exists>a \<in> set (alerts d0). al_id a = i \<and> firing_member a"
    and tx: "alertResolvedTx rnd wall i now d = Inr d'"
  shows "incident_inv d'"
proof (cases "find (\<lambda>m. ia_alert_id m = i) (incident_alerts d)")
  case None
  then have "d' = d" using tx by (simp add: alertResolvedTx_def)
  moreover have "has_firing q d j = has_firing q d0 j" for q j
    by (rule has_firing_untouched [OF d(1,2) g]) (use None d(2) in \<open>auto simp: find_None\<close>)
  then have "incident_inv d"
    using inv by (intro incident_inv_frame [OF inv d(3)]) (auto simp: d incident_inv_def)
  ultimately show ?thesis by simp
next
  case (Some m)
  let ?I = "ia_incident_id m"
  define ms where "ms = upd_where (\<lambda>m. ia_alert_id m = i \<and> ia_resolved_at m = None)
      (\<lambda>m. m\<lparr>ia_resolved_at := Some (unix now)\<rparr>) (incident_alerts d0)"
  define d1 where "d1 = d\<lparr>incident_alerts := ms\<rparr>"
  have m: "m \<in> set (incident_alerts d0)" "ia_alert_id m = i" using find_Some_in [OF Some] d(2) by auto
  have dist: "distinct (map in_id (incidents d0))" "distinct (map ia_alert_id (incident_alerts d0))"
    and ok0: "\<And>x. x \<in> set (incidents d0) \<Longrightarrow> incident_ok d0 x"
    and sub: "set (map ia_incident_id (incident_alerts d0)) \<subseteq> set (map in_id (incidents d0))"
    and cnt: "\<And>gr. count_where (open_incident gr) (incidents d0) \<le> 1"
    using inv by (auto simp: incident_inv_def)
  have pairs: "map ia_alert_id ms = map ia_alert_id (incident_alerts d0)"
    "map ia_incident_id ms = map ia_incident_id (incident_alerts d0)"
    unfolding ms_def by (rule map_upd_where, simp)+
  have hf1: "has_firing q d1 j = has_firing q d j" for q j
  proof -
    have "map (\<lambda>m. (ia_incident_id m, ia_alert_id m)) ms = map (\<lambda>m. (ia_incident_id m, ia_alert_id m)) (incident_alerts d)"
      unfolding ms_def d(2) by (rule map_upd_where) simp
    then show ?thesis unfolding has_firing_pairs by (simp add: d1_def del: set_map)
  qed
  have other: "has_firing q d1 j = has_firing q d0 j" if "j \<noteq> ?I" for q j
  proof -
    have "has_firing q d j = has_firing q d0 j"
    proof (rule has_firing_untouched [OF d(1,2) g])
      fix m' assume "m' \<in> set (incident_alerts d0)" "ia_incident_id m' = j"
      then show "ia_alert_id m' \<noteq> i" using distinct_map_unique [OF dist(2) m(1), of m'] m(2) that by blast
    qed
    then show ?thesis by (simp add: hf1)
  qed
  have open0: "in_status x = ''open''" if "x \<in> set (incidents d0)" "in_id x = ?I" for x
  proof -
    have "has_firing False d0 ?I" using m fir by (auto simp: has_firing_def)
    then show ?thesis using ok0 [OF that(1)] that(2) by (simp add: incident_ok_def)
  qed
  have finish: "incident_inv e"
    if e: "incidents e = upd_where (\<lambda>r. in_id r = ?I) f (incidents d0)" "incident_alerts e = ms" "alerts e = alerts d"
      and f: "\<And>r. in_id (f r) = in_id r" "\<And>gr r. open_incident gr (f r) \<Longrightarrow> open_incident gr r"
        "\<And>x. x \<in> set (incidents d0) \<Longrightarrow> in_id x = ?I \<Longrightarrow> incident_ok d1 (f x)" for e f
  proof -
    have hfe: "has_firing q e j = has_firing q d1 j" for q j
      by (simp add: has_firing_def e d1_def)
    have ids: "map in_id (incidents e) = map in_id (incidents d0)" unfolding e by (rule map_upd_where) (simp add: f)
    have "incident_ok e x" if "x \<in> set (incidents e)" for x
    proof -
      from that consider y where "y \<in> set (incidents d0)" "in_id y = ?I" "x = f y"
        | "x \<in> set (incidents d0)" "in_id x \<noteq> ?I" by (auto simp: e set_upd_where)
      then show ?thesis
      proof cases
        case 1
        then show ?thesis using f(3) [OF 1(1,2)] incident_ok_cong [of e x d1] hfe by simp
      next
        case 2
        then show ?thesis using ok0 [OF 2(1)] incident_ok_cong [of e x d0] hfe other by simp
      qed
    qed
    moreover have "count_where (open_incident gr) (incidents e) \<le> 1" for gr
      unfolding e using count_where_upd_le [of "open_incident gr" f] f(2) cnt le_trans by metis
    moreover have "set (map ia_incident_id ms) \<subseteq> set (map in_id (incidents d0))"
      unfolding pairs by (rule sub)
    ultimately show ?thesis using dist by (simp add: incident_inv_def ids pairs e(2) del: set_map)
  qed
  show ?thesis
  proof (cases "list_ex firing_member (members ?I d1)")
    case True
    let ?s = "if list_ex (\<lambda>a. firing_member a \<and> critical_row a) (members ?I d1) then ''critical'' else ''warning''"
    have "d' = d1\<lparr>incidents := upd_where (\<lambda>r. in_id r = ?I)
        (\<lambda>r. r\<lparr>in_severity := ?s, in_updated_at := unix now, in_version := in_version r + 1\<rparr>) (incidents d0)\<rparr>"
      using tx Some True by (auto simp: alertResolvedTx_def d1_def ms_def d Let_def)
    then show ?thesis
      by (intro finish [of d' "\<lambda>r. r\<lparr>in_severity := ?s, in_updated_at := unix now, in_version := in_version r + 1\<rparr>"])
         (use True open0 in \<open>auto simp: d1_def open_incident_def incident_ok_def has_firing_members\<close>)
  next
    case False
    let ?f = "\<lambda>r. r\<lparr>in_status := ''resolved'', in_resolved_at := Some (unix now), in_updated_at := unix now,
                 in_next_reminder_at := None, in_version := in_version r + 1\<rparr>"
    let ?e = "d1\<lparr>incidents := upd_where (\<lambda>r. in_id r = ?I) ?f (incidents d0)\<rparr>"
    have "enqueueResolutionTx rnd wall ?I now ?e = Inr d'"
      using tx Some False by (simp add: alertResolvedTx_def d1_def ms_def d Let_def)
    then have "queue_frame ?e d'" by (rule enqueueResolutionTx_frame)
    moreover have "incident_inv ?e"
      by (intro finish [of _ ?f]) (use False in \<open>auto simp: d1_def open_incident_def incident_ok_def has_firing_members\<close>)
    ultimately show ?thesis by (blast intro: incident_inv_queue)
  qed
qed

subsection \<open>The other operations on incidents\<close>

lemma Cleanup_incident_inv:
  assumes "incident_inv d" and "distinct (map al_id (alerts d))" and "Cleanup now d = Inr d'"
  shows "incident_inv d'"
proof -
  have d': "alerts d' = del_where (expired_alert now) (alerts d)" "incidents d' = incidents d"
    "incident_alerts d' = del_where (\<lambda>m. list_ex (\<lambda>a. expired_alert now a \<and> al_id a = ia_alert_id m) (alerts d)) (incident_alerts d)"
    using assms(3) by (auto simp: Cleanup_def)
  have keep: "\<not> list_ex (\<lambda>a. expired_alert now a \<and> al_id a = ia_alert_id m) (alerts d)"
    if "a \<in> set (alerts d)" "al_id a = ia_alert_id m" "firing_member a" for a m
  proof
    assume "list_ex (\<lambda>a. expired_alert now a \<and> al_id a = ia_alert_id m) (alerts d)"
    then obtain b where b: "b \<in> set (alerts d)" "expired_alert now b" "al_id b = ia_alert_id m"
      by (auto simp: list_ex_iff)
    have "b = a" by (rule distinct_map_unique [OF assms(2) b(1) that(1)]) (simp add: b(3) that(2))
    then show False using b(2) that(3) by (simp add: firing_member_def expired_alert_def)
  qed
  have "has_firing q d' i = has_firing q d i" for q i
  proof
    assume "has_firing q d' i"
    then show "has_firing q d i" unfolding has_firing_def d' set_del_where by blast
  next
    assume "has_firing q d i"
    then obtain m a where ma: "m \<in> set (incident_alerts d)" "ia_incident_id m = i" "a \<in> set (alerts d)"
      "al_id a = ia_alert_id m" "firing_member a" "q \<longrightarrow> critical_row a"
      by (auto simp: has_firing_def)
    then have "\<not> expired_alert now a" by (simp add: firing_member_def expired_alert_def)
    then show "has_firing q d' i" using ma keep [OF ma(3,4,5)] unfolding has_firing_def d' set_del_where by blast
  qed
  then show ?thesis
    using assms(1) by (intro incident_inv_frame [OF assms(1) d'(2)]) (auto simp: d' incident_inv_def distinct_map_del)
qed

lemma bex_kept: "\<not> g j \<Longrightarrow> (\<exists>m \<in> {r \<in> A. \<not> g (k r)}. k m = j \<and> P m) = (\<exists>m \<in> A. k m = j \<and> P m)"
  by auto

lemma Cleanup_notifications_inv:
  assumes "incident_inv d"
  shows "incident_inv (Cleanup_notifications now d)"
proof -
  let ?d = "Cleanup_notifications now d"
  let ?gone = "\<lambda>i. list_ex (\<lambda>r. old_incident now r \<and> in_id r = i) (incidents d)"
  have d': "alerts ?d = alerts d" "incidents ?d = del_where (old_incident now) (incidents d)"
    "incident_alerts ?d = del_where (\<lambda>m. ?gone (ia_incident_id m)) (incident_alerts d)"
    by (simp_all add: Cleanup_notifications_def Let_def)
  have dist: "distinct (map in_id (incidents d))" using assms by (simp add: incident_inv_def)
  have kept: "\<not> ?gone (in_id i)" if "i \<in> set (incidents d)" "\<not> old_incident now i" for i
  proof
    assume "?gone (in_id i)"
    then obtain r where r: "r \<in> set (incidents d)" "old_incident now r" "in_id r = in_id i" by (auto simp: list_ex_iff)
    then have "r = i" using distinct_map_unique [OF dist r(1) that(1)] by simp
    then show False using r(2) that(2) by simp
  qed
  have hf: "has_firing q ?d (in_id i) = has_firing q d (in_id i)" if "i \<in> set (incidents d)" "\<not> old_incident now i" for q i
    unfolding has_firing_def d' set_del_where by (rule bex_kept) (rule kept [OF that])
  have ok: "incident_ok ?d i" if "i \<in> set (incidents ?d)" for i
  proof -
    have i: "i \<in> set (incidents d)" "\<not> old_incident now i" using that by (simp_all add: d')
    have "incident_ok ?d i = incident_ok d i" by (rule incident_ok_cong) (rule hf [OF i])
    then show ?thesis using assms i(1) by (simp add: incident_inv_def)
  qed
  have "set (map ia_incident_id (incident_alerts ?d)) \<subseteq> set (map in_id (incidents ?d))"
  proof
    fix j assume "j \<in> set (map ia_incident_id (incident_alerts ?d))"
    then obtain m where m: "m \<in> set (incident_alerts d)" "j = ia_incident_id m" and g: "\<not> ?gone j"
      unfolding d' set_map set_del_where by blast
    have "set (map ia_incident_id (incident_alerts d)) \<subseteq> set (map in_id (incidents d))"
      using assms by (simp add: incident_inv_def)
    then obtain i where i: "i \<in> set (incidents d)" "in_id i = j" using m by (auto simp del: list_ex_iff)
    then have "\<not> old_incident now i" using g by (auto simp: list_ex_iff)
    then show "j \<in> set (map in_id (incidents ?d))" unfolding d' set_map set_del_where using i by blast
  qed
  moreover have "count_where (open_incident g) (incidents ?d) \<le> 1" for g
  proof -
    have "count_where (open_incident g) (incidents d) \<le> 1" using assms by (simp add: incident_inv_def)
    then show ?thesis unfolding d' by (rule le_trans [OF count_where_del_le])
  qed
  moreover have "distinct (map in_id (incidents ?d))" "distinct (map ia_alert_id (incident_alerts ?d))"
    using assms unfolding d' incident_inv_def by (simp_all only: distinct_map_del)
  ultimately show ?thesis unfolding incident_inv_def using ok by blast
qed

lemma incident_inv_upd:
  assumes "incident_inv d" and "incidents d' = upd_where p f (incidents d)"
    and "incident_alerts d' = incident_alerts d" "alerts d' = alerts d"
    and "\<And>i. in_id (f i) = in_id i" "\<And>i. in_status (f i) = in_status i" "\<And>i. in_severity (f i) = in_severity i"
      "\<And>i. in_group_key (f i) = in_group_key i"
  shows "incident_inv d'"
proof -
  have "map in_id (incidents d') = map in_id (incidents d)" unfolding assms(2) by (rule map_upd_where) (rule assms(5))
  moreover have "count_where (open_incident g) (incidents d') = count_where (open_incident g) (incidents d)" for g
    unfolding assms(2) by (rule count_where_upd_same) (simp add: open_incident_def assms)
  moreover have "incident_ok d' i = incident_ok d i" for i
    by (rule incident_ok_cong) (simp add: has_firing_def assms)
  moreover have "incident_ok d (f i) = incident_ok d i" for i
    by (rule incident_ok_key_cong) (simp_all add: assms)
  ultimately show ?thesis using assms(1)
    unfolding incident_inv_def assms(2,3) set_upd_where by auto
qed

lemma ScheduleReminders_inv:
  assumes "incident_inv d" and "ScheduleReminders rnd wall now interval d = Inr d'"
  shows "incident_inv d' \<and> sink_frame d d'"
proof -
  have step: "incident_inv e' \<and> sink_frame d e'"
    if "incident_inv e \<and> sink_frame d e" "remind rnd wall now iv x e = Inr e'" for x e e' iv
  proof -
    let ?e = "e\<lparr>incidents := upd_where (\<lambda>i. in_id i = fst x) (\<lambda>i. i\<lparr>in_next_reminder_at := Some (unix (now + iv))\<rparr>) (incidents e)\<rparr>"
    have q: "queue_frame ?e e'" using that(2) by (auto simp: remind_def dest: enqueueIncidentTx_frame)
    have "incident_inv ?e"
      by (rule incident_inv_upd [of e ?e "\<lambda>i. in_id i = fst x" "\<lambda>i. i\<lparr>in_next_reminder_at := Some (unix (now + iv))\<rparr>"])
         (use that(1) in simp_all)
    moreover have "sink_frame d ?e" using that(1) by (simp add: sink_frame_def)
    moreover have "sink_frame ?e e'" using q by (simp add: queue_frame_def)
    ultimately show ?thesis using incident_inv_queue [OF _ q] sink_frame_trans by blast
  qed
  show ?thesis
    by (rule fold_result_inv [where P = "\<lambda>e. incident_inv e \<and> sink_frame d e", OF assms(2) [unfolded ScheduleReminders_def Let_def]])
       (simp add: assms(1), rule step)
qed

lemma Reconcile_inv:
  assumes "incident_inv d" and "distinct (map al_id (alerts d))"
    and "\<forall>a \<in> set (alerts d). valid_severity (al_severity a)"
    and "Reconcile rnd wall reminder now d = Inr d'"
  shows "incident_inv d' \<and> sink_frame d d'"
proof (rule fold_result_inv [where P = "\<lambda>e. incident_inv e \<and> sink_frame d e", OF assms(4) [unfolded Reconcile_def]])
  show "incident_inv d \<and> sink_frame d d" using assms(1) by simp
next
  fix a e e'
  assume a: "a \<in> set (sort_key al_started_at (filter (\<lambda>a. firing_member a \<and>
      \<not> list_ex (\<lambda>m. ia_alert_id m = al_id a) (incident_alerts d)) (alerts d)))"
    and e: "incident_inv e \<and> sink_frame d e" and r: "reconcile_alert rnd wall reminder now a e = Inr e'"
  obtain e1 where tx: "alertFiredTx rnd wall reminder (scan_alert a []) now False e = Inr e1"
    and e': "e' = e1\<lparr>incidents := upd_where (\<lambda>i. case find (\<lambda>m. ia_alert_id m = al_id a) (incident_alerts e1) of
                  None \<Rightarrow> False | Some m \<Rightarrow> in_id i = ia_incident_id m)
             (\<lambda>i. i\<lparr>in_opened_at := min (in_opened_at i) (al_started_at a)\<rparr>) (incidents e1)\<rparr>"
    using r by (auto simp: reconcile_alert_def bind_result_Inr)
  have "alerts e = alerts d" using e by (simp add: sink_frame_def)
  moreover have "a \<in> set (alerts d)" "firing_member a" using a by simp_all
  ultimately have "incident_inv e1"
    by (intro alertFiredTx_inv [OF _ _ _ _ _ _ _ tx, of a]) (use e assms(2,3) in \<open>simp_all add: scan_alert_def\<close>)
  then have "incident_inv e'"
    by (rule incident_inv_upd [where f = "\<lambda>i. i\<lparr>in_opened_at := min (in_opened_at i) (al_started_at a)\<rparr>"]) (simp_all add: e')
  moreover have "sink_frame e e1" by (rule alertFiredTx_frame [OF tx])
  then have "sink_frame d e'" using e by (auto simp: e' sink_frame_def)
  ultimately show "incident_inv e' \<and> sink_frame d e'" by simp
qed

end
