(* ===== verification/Monitor_System.thy ===== *)
theory Monitor_System
  imports Incident_Invariants
begin

section \<open>Alerts and incidents together\<close>

text \<open>
  The evaluator run with the incident repository as its sink, as \<^verbatim>\<open>cmd/binnacle\<close> wires them. One
  invariant covers the alert and the incident tables; every operation of both components keeps
  it, hence it holds in every database the program can reach.
\<close>

text \<open>A committed evaluation with the tables it handed to the sink.\<close>

lemma evaluate_cases:
  assumes "evaluate rnd sink rule tt target v f r now d = Inr d'"
  obtains (fired) d1 d3 e where
      "sink_frame (d\<lparr>alert_evaluation_state := alert_evaluation_state d1\<rparr>) d1" "incidents d1 = incidents d"
      "incident_alerts d1 = incident_alerts d" "draws d1 = Suc (draws d)"
      "fire_sink sink (firing_alert (rnd (draws d)) rule tt target v now) now
         (d1\<lparr>alerts := alerts d @ [firing_row (rnd (draws d)) rule tt target v now]\<rparr>) = Inr d3"
      "d' = d3\<lparr>events := events d3 @ [e]\<rparr>"
    | (resolved) d1 a d3 e where
      "sink_frame (d\<lparr>alert_evaluation_state := alert_evaluation_state d1\<rparr>) d1" "incidents d1 = incidents d"
      "incident_alerts d1 = incident_alerts d"
      "a \<in> set (alerts d)" "open_alert (dedup (rule_Family rule) target) a"
      "resolve_sink sink (al_id a) now
        (d1\<lparr>alerts := upd_where (\<lambda>r. al_id r = al_id a)
            (\<lambda>r. r\<lparr>al_status := ''resolved'', al_resolved_at := Some (unix now), al_last_observed_at := unix now\<rparr>) (alerts d)\<rparr>) = Inr d3"
      "d' = d3\<lparr>events := events d3 @ [e]\<rparr>"
    | (quiet) p t w where
      "alert_rules d' = alert_rules d" "incidents d' = incidents d" "incident_alerts d' = incident_alerts d"
      "alerts d' = upd_where p (\<lambda>r. r\<lparr>al_last_observed_at := t, al_observed := w\<rparr>) (alerts d)"
proof -
  let ?key = "dedup (rule_Family rule) target"
  let ?tr = "transition_of rule target f r now d"
  let ?d1 = "save_state ?key rule tt target (State_of ?tr) now v d"
  have frame: "sink_frame (d\<lparr>alert_evaluation_state := alert_evaluation_state x\<rparr>) x" "incidents x = incidents d"
    "incident_alerts x = incident_alerts d" if "x = ?d1 \<or> x = ?d1\<lparr>draws := Suc (draws d)\<rparr>" for x
    using that by (auto simp: sink_frame_def save_state_def Let_def)
  show ?thesis
  proof (cases "Triggered ?tr")
    case True
    obtain d3 where fs: "fire_sink sink (firing_alert (rnd (draws d)) rule tt target v now) now
        (?d1\<lparr>draws := Suc (draws d), alerts := alerts d @ [firing_row (rnd (draws d)) rule tt target v now]\<rparr>) = Inr d3"
      and ie: "insertEvent (rnd (draws d)) rule target ''alert_triggered'' now d3 = Inr d'"
      using assms True
      by (auto simp: evaluate_def Let_def transition_of_def draw_def bind_result_Inr split: if_splits)
    obtain e where e: "d' = d3\<lparr>events := events d3 @ [e]\<rparr>" using ie by (simp add: insertEvent_Inr)
    let ?d2 = "?d1\<lparr>draws := Suc (draws d)\<rparr>"
    have x: "?d2 = ?d1 \<or> ?d2 = ?d1\<lparr>draws := Suc (draws d)\<rparr>" by simp
    show ?thesis by (rule fired [OF frame [OF x] _ _ e]) (use fs in simp_all)
  next
    case nt: False
    show ?thesis
    proof (cases "\<not> Repeated ?tr \<and> Resolved ?tr \<and> latest_by al_started_at (filter (open_alert ?key) (alerts d)) \<noteq> None")
      case True
      then obtain a where a: "latest_by al_started_at (filter (open_alert ?key) (alerts d)) = Some a" by auto
      obtain d3 where "resolve_sink sink (al_id a) now (?d1\<lparr>alerts := upd_where (\<lambda>r. al_id r = al_id a)
              (\<lambda>r. r\<lparr>al_status := ''resolved'', al_resolved_at := Some (unix now), al_last_observed_at := unix now\<rparr>) (alerts d)\<rparr>) = Inr d3"
        and "insertEvent (al_id a) rule target ''alert_resolved'' now d3 = Inr d'"
        using assms nt True a by (auto simp: evaluate_def Let_def transition_of_def bind_result_Inr)
      then obtain e where rs: "resolve_sink sink (al_id a) now (?d1\<lparr>alerts := upd_where (\<lambda>r. al_id r = al_id a)
              (\<lambda>r. r\<lparr>al_status := ''resolved'', al_resolved_at := Some (unix now), al_last_observed_at := unix now\<rparr>) (alerts d)\<rparr>) = Inr d3"
        and e: "d' = d3\<lparr>events := events d3 @ [e]\<rparr>" by (simp add: insertEvent_Inr)
      have a': "a \<in> set (alerts d)" "open_alert ?key a" using latest_by_Some [OF a] by auto
      have x: "?d1 = ?d1 \<or> ?d1 = ?d1\<lparr>draws := Suc (draws d)\<rparr>" by simp
      show ?thesis by (rule resolved [OF frame [OF x] a' rs e])
    next
      case False
      have "alert_rules d' = alert_rules d \<and> incidents d' = incidents d \<and> incident_alerts d' = incident_alerts d \<and>
         (\<exists>p t w. alerts d' = upd_where p (\<lambda>r. r\<lparr>al_last_observed_at := t, al_observed := w\<rparr>) (alerts d))"
      proof (cases "Repeated ?tr")
        case True
        then have "insertEvent (rnd (draws d)) rule target ''alert_repeated'' now (?d1\<lparr>draws := Suc (draws d)\<rparr>) = Inr d'"
          using assms nt by (simp add: evaluate_def Let_def transition_of_def draw_def)
        then have "alerts d' = alerts d" "alert_rules d' = alert_rules d" "incidents d' = incidents d"
          "incident_alerts d' = incident_alerts d"
          by (simp_all add: insertEvent_Inr save_state_def Let_def)
        moreover have "alerts d = upd_where (\<lambda>_. False) (\<lambda>r. r\<lparr>al_last_observed_at := 0, al_observed := None\<rparr>) (alerts d)"
          by (simp add: upd_where_none)
        ultimately show ?thesis by metis
      next
        case nr: False
        then have "Resolved ?tr \<Longrightarrow> latest_by al_started_at (filter (open_alert ?key) (alerts d)) = None" using False by auto
        then have "d' = ?d1 \<or> (\<exists>t w. d' = ?d1\<lparr>alerts := upd_where (open_alert ?key)
                   (\<lambda>r. r\<lparr>al_last_observed_at := t, al_observed := w\<rparr>) (alerts d)\<rparr>)"
          using assms nt nr by (auto simp: evaluate_def Let_def transition_of_def split: if_splits)
        moreover have "alerts d = upd_where (\<lambda>_. False) (\<lambda>r. r\<lparr>al_last_observed_at := 0, al_observed := None\<rparr>) (alerts d)"
          by (simp add: upd_where_none)
        moreover have "alert_rules ?d1 = alert_rules d" "incidents ?d1 = incidents d" "incident_alerts ?d1 = incident_alerts d"
          "alerts ?d1 = alerts d" by (simp_all add: save_state_def Let_def)
        ultimately show ?thesis by (elim disjE exE) (simp, metis, simp, blast)
      qed
      then show ?thesis using quiet by blast
    qed
  qed
qed

definition monitor_inv :: "(nat \<Rightarrow> string) \<Rightarrow> db \<Rightarrow> bool" where
  "monitor_inv rnd d \<longleftrightarrow>
     alert_inv rnd d \<and> incident_inv d \<and>
     (\<forall>r \<in> set (alert_rules d). valid_severity (ar_severity r)) \<and>
     (\<forall>a \<in> set (alerts d). valid_severity (al_severity a))"

lemma alert_inv_ids: "alert_inv rnd d \<Longrightarrow> distinct (map al_id (alerts d))"
  by (simp add: alert_inv_def)

lemma incident_inv_events [simp]: "incident_inv (d\<lparr>events := x\<rparr>) = incident_inv d"
  by (simp add: incident_inv_def incident_ok_def has_firing_def)

lemma quiet_incident_inv:
  assumes "incident_inv d" "incidents d' = incidents d" "incident_alerts d' = incident_alerts d"
    and "alerts d' = upd_where p (\<lambda>r. r\<lparr>al_last_observed_at := t, al_observed := w\<rparr>) (alerts d)"
  shows "incident_inv d'"
proof (rule incident_inv_frame [OF assms(1,2)])
  have same: "map (\<lambda>a. (al_id a, al_status a, al_severity a)) (alerts d') = map (\<lambda>a. (al_id a, al_status a, al_severity a)) (alerts d)"
    unfolding assms(4) by (rule map_upd_where) simp
  have ex: "(\<exists>a \<in> set (alerts x). al_id a = k \<and> firing_member a \<and> (q \<longrightarrow> critical_row a)) \<longleftrightarrow>
     (\<exists>y \<in> set (map (\<lambda>a. (al_id a, al_status a, al_severity a)) (alerts x)). case y of (i, s, c) \<Rightarrow> i = k \<and> s = ''firing'' \<and> (q \<longrightarrow> c = Critical))"
    for x k q by (auto simp: firing_member_def)
  show "has_firing q d' i = has_firing q d i" for q i
    unfolding has_firing_def ex same assms(3) by (rule refl)
qed (use assms in \<open>simp_all add: incident_inv_def\<close>)

subsection \<open>One evaluation with the incident sink\<close>

lemma evaluate_monitor_inv:
  assumes inj: "inj rnd" and sev: "valid_severity (rule_Severity rule)" and inv: "monitor_inv rnd d"
    and ev: "evaluate rnd (Some (notification_sink rnd wall reminder)) rule tt target v f r now d = Inr d'"
  shows "monitor_inv rnd d'"
proof -
  have al: "alert_inv rnd d'" using notif.evaluate_inv [OF inj _ ev] inv by (simp add: monitor_inv_def)
  have ii: "incident_inv d" and ids: "distinct (map al_id (alerts d))"
    and rs: "\<forall>r \<in> set (alert_rules d). valid_severity (ar_severity r)"
    and ss: "\<forall>a \<in> set (alerts d). valid_severity (al_severity a)"
    using inv by (auto simp: monitor_inv_def alert_inv_def)
  have "incident_inv d' \<and> alert_rules d' = alert_rules d \<and> (\<forall>a \<in> set (alerts d'). valid_severity (al_severity a))"
    using ev
  proof (cases rule: evaluate_cases)
    case (fired d1 d3 e)
    let ?row = "firing_row (rnd (draws d)) rule tt target v now"
    let ?d2 = "d1\<lparr>alerts := alerts d @ [?row]\<rparr>"
    have tx: "alertFiredTx rnd wall reminder (firing_alert (rnd (draws d)) rule tt target v now) now True ?d2 = Inr d3"
      using fired(5) by (simp add: fire_sink_def notification_sink_def)
    have fr: "sink_frame ?d2 d3" by (rule alertFiredTx_frame [OF tx])
    have rid: "al_id ?row = rnd (draws d)" "firing_member ?row" "al_severity ?row = rule_Severity rule"
      by (simp_all add: firing_row_def firing_member_def)
    have new: "\<forall>a \<in> set (alerts d). al_id a \<noteq> rnd (draws d)"
      using inv by (simp add: monitor_inv_def alert_inv_def fresh_ids_def)
    have nomem: "\<forall>m \<in> set (incident_alerts d). ia_alert_id m \<noteq> rnd (draws d)"
      using tx fired(3) by (cases rule: alertFiredTx_cases) (auto simp: insert_member_Inr firing_alert_def)
    have "has_firing q ?d2 i = has_firing q d i" for q i
      using nomem rid(1) by (auto simp: has_firing_def fired(3))
    then have "incident_inv ?d2"
      by (intro incident_inv_frame [OF ii]) (use ii in \<open>auto simp: incident_inv_def fired\<close>)
    then have "incident_inv d3"
      by (rule alertFiredTx_inv [OF _ _ _ _ rid(2) _ _ tx])
         (use ids new rid sev in \<open>auto simp: firing_alert_def\<close>)
    then have "incident_inv d'" by (simp add: fired(6))
    then show ?thesis using fr fired(1) ss sev rid(3) by (auto simp: fired(6) sink_frame_def)
  next
    case (resolved d1 a d3 e)
    let ?g = "\<lambda>r. r\<lparr>al_status := ''resolved'', al_resolved_at := Some (unix now), al_last_observed_at := unix now\<rparr>"
    let ?d2 = "d1\<lparr>alerts := upd_where (\<lambda>r. al_id r = al_id a) ?g (alerts d)\<rparr>"
    have tx: "alertResolvedTx rnd wall (al_id a) now ?d2 = Inr d3"
      using resolved(6) by (simp add: resolve_sink_def notification_sink_def)
    have fr: "sink_frame ?d2 d3" by (rule alertResolvedTx_frame [OF tx])
    have "incident_inv d3"
      by (rule alertResolvedTx_inv [OF ii, of ?d2 "al_id a" ?g, OF _ _ _ _ _ tx])
         (use resolved in \<open>auto simp: open_alert_def firing_member_def\<close>)
    then have "incident_inv d'" by (simp add: resolved(7))
    then show ?thesis using fr resolved(1) ss by (auto simp: resolved(7) sink_frame_def set_upd_where)
  next
    case (quiet p t w)
    then show ?thesis using quiet_incident_inv [OF ii quiet(2-4)] ss by (auto simp: set_upd_where)
  qed
  then show ?thesis using al rs by (simp add: monitor_inv_def)
qed

subsection \<open>Steps of the monitor\<close>

lemma monitor_inv_frame:
  assumes "monitor_inv rnd d" and "alert_rules d' = alert_rules d"
    and "alert_evaluation_state d' = alert_evaluation_state d" "alerts d' = alerts d"
    and "incidents d' = incidents d" "incident_alerts d' = incident_alerts d" "draws d \<le> draws d'"
    and "\<And>e n. e \<in> set (events d') \<Longrightarrow> draws d' \<le> n \<Longrightarrow> e \<in> set (events d) \<or> ev_id e \<noteq> ''alert-'' @ rnd n"
  shows "monitor_inv rnd d'"
proof -
  have "alert_inv rnd d'"
    by (rule alert_inv_frame [of d' d]) (use assms in \<open>simp_all add: monitor_inv_def\<close>)
  moreover have "incident_inv d'"
    by (rule incident_inv_frame [of d]) (use assms in \<open>simp_all add: monitor_inv_def incident_inv_def has_firing_def\<close>)
  ultimately show ?thesis using assms by (simp add: monitor_inv_def)
qed

lemma Cleanup_monitor_inv: "monitor_inv rnd d \<Longrightarrow> Cleanup now d = Inr d' \<Longrightarrow> monitor_inv rnd d'"
  using Cleanup_inv [of rnd d now d'] Cleanup_incident_inv [of d now d']
  by (auto simp: monitor_inv_def alert_inv_ids Cleanup_def)

lemma upsert_grace_monitor_inv: "monitor_inv rnd d \<Longrightarrow> upsert_grace res t c d = Inr d' \<Longrightarrow> monitor_inv rnd d'"
  by (rule monitor_inv_frame [of rnd d]) (auto simp: upsert_grace_def Let_def split: if_splits)

lemma Evaluate_monitor_inv:
  assumes "inj rnd" and "monitor_inv rnd d"
  shows "monitor_inv rnd (fst (Evaluate rnd (Some (notification_sink rnd wall reminder)) ord snap now d))"
proof (rule Evaluate_preserves [of "\<lambda>r. valid_severity (rule_Severity r)" "monitor_inv rnd", OF _ _ _ _ _ assms(2)])
  show "valid_severity (rule_Severity r)" if "r \<in> set (Rules d)" for r
    using that assms(2) by (auto simp: in_set_Rules scan_rule_def monitor_inv_def)
qed (auto intro: evaluate_monitor_inv [OF assms(1)] Cleanup_monitor_inv upsert_grace_monitor_inv)

text \<open>
  The other writers of the database keep these tables as they are, prune events, and write
  events under sequence numbers.
\<close>

definition other_writer :: "db \<Rightarrow> db \<Rightarrow> bool" where
  "other_writer d d' \<longleftrightarrow>
     alert_rules d' = alert_rules d \<and> alert_evaluation_state d' = alert_evaluation_state d \<and>
     alerts d' = alerts d \<and> incidents d' = incidents d \<and> incident_alerts d' = incident_alerts d \<and>
     draws d \<le> draws d' \<and> (\<forall>e \<in> set (events d'). e \<in> set (events d) \<or> \<not> has_prefix (ev_id e) ''alert-'')"

inductive monitor_step :: "(nat \<Rightarrow> string) \<Rightarrow> db \<Rightarrow> db \<Rightarrow> bool" for rnd where
  mon_Evaluate: "monitor_step rnd d (fst (Evaluate rnd (Some (notification_sink rnd wall reminder)) ord snap now d))"
| mon_SeedDefaults: "SeedDefaults now d = Inr d' \<Longrightarrow> monitor_step rnd d d'"
| mon_UpdateRule: "UpdateRule now v d = Inr d' \<Longrightarrow> monitor_step rnd d d'"
| mon_CreateRule: "CreateRule now v d = Inr d' \<Longrightarrow> monitor_step rnd d d'"
| mon_CreateSilence: "CreateSilence rnd now s d = Inr d' \<Longrightarrow> monitor_step rnd d d'"
| mon_DeleteSilence: "DeleteSilence i d = Inr d' \<Longrightarrow> monitor_step rnd d d'"
| mon_DeploymentGrace: "DeploymentGrace res c t d = Inr d' \<Longrightarrow> monitor_step rnd d d'"
| mon_Reconcile: "Reconcile rnd wall reminder now d = Inr d' \<Longrightarrow> monitor_step rnd d d'"
| mon_ScheduleReminders: "ScheduleReminders rnd wall now interval d = Inr d' \<Longrightarrow> monitor_step rnd d d'"
| mon_Cleanup: "monitor_step rnd d (Cleanup_notifications now d)"
| mon_other: "other_writer d d' \<Longrightarrow> monitor_step rnd d d'"

inductive monitor_reachable :: "(nat \<Rightarrow> string) \<Rightarrow> db \<Rightarrow> bool" for rnd where
  mon_init: "monitor_reachable rnd empty_db"
| mon_step: "monitor_reachable rnd d \<Longrightarrow> monitor_step rnd d d' \<Longrightarrow> monitor_reachable rnd d'"

lemma monitor_inv_rules:
  assumes "monitor_inv rnd d" and "\<forall>r \<in> set rs. valid_severity (ar_severity r)"
  shows "monitor_inv rnd (d\<lparr>alert_rules := rs\<rparr>)"
  using assms
  by (auto simp: monitor_inv_def alert_inv_def fresh_ids_def open_matches_def phase_in_def incident_inv_def
      incident_ok_def has_firing_def)

lemma DefaultRules_severity: "v \<in> set DefaultRules \<Longrightarrow> valid_severity (rule_Severity v)"
  by (auto simp: DefaultRules_def valid_severity_def)

lemma seed_rule_inv:
  assumes "monitor_inv rnd d" "v \<in> set DefaultRules" "seed_rule now v d = Inr d'"
  shows "monitor_inv rnd d'"
proof -
  let ?row = "rule_row v (rule_BuiltIn v) 300 7200 (unix now)"
  have "d' = d \<or> d' = d\<lparr>alert_rules := alert_rules d @ [?row]\<rparr>"
    using assms(3) by (auto simp: seed_rule_def Let_def split: if_splits)
  moreover have "monitor_inv rnd (d\<lparr>alert_rules := alert_rules d @ [?row]\<rparr>)"
    using assms(1) DefaultRules_severity [OF assms(2)]
    by (intro monitor_inv_rules) (auto simp: monitor_inv_def rule_row_def)
  ultimately show ?thesis using assms(1) by blast
qed

lemma UpdateRule_inv:
  assumes "monitor_inv rnd d" "UpdateRule now v d = Inr d'"
  shows "monitor_inv rnd d'"
proof -
  obtain f where sev: "valid_severity (rule_Severity v)"
    and d': "d' = d\<lparr>alert_rules := upd_where (\<lambda>r. ar_id r = rule_ID v) f (alert_rules d)\<rparr>"
    and f: "\<And>r. ar_severity (f r) = rule_Severity v"
    using assms(2) by (auto simp: UpdateRule_def split: if_splits)
  show ?thesis unfolding d'
    by (rule monitor_inv_rules [OF assms(1)]) (use assms(1) sev f in \<open>auto simp: monitor_inv_def set_upd_where\<close>)
qed

lemma CreateRule_inv:
  assumes "monitor_inv rnd d" "CreateRule now v d = Inr d'"
  shows "monitor_inv rnd d'"
proof -
  let ?row = "rule_row v False (trunc_div (rule_Cooldown v) (seconds 1)) (trunc_div (rule_Repeat v) (seconds 1)) (unix now)"
  have sev: "valid_severity (rule_Severity v)" and d': "d' = d\<lparr>alert_rules := alert_rules d @ [?row]\<rparr>"
    using assms(2) unfolding CreateRule_def Let_def by (simp_all split: if_split_asm)
  show ?thesis unfolding d'
    by (rule monitor_inv_rules [OF assms(1)]) (use assms(1) sev in \<open>auto simp: monitor_inv_def rule_row_def\<close>)
qed

lemma other_writer_inv:
  assumes "monitor_inv rnd d" "other_writer d d'"
  shows "monitor_inv rnd d'"
proof (rule monitor_inv_frame [OF assms(1)])
  fix e n assume "e \<in> set (events d')"
  then have "e \<in> set (events d) \<or> \<not> has_prefix (ev_id e) ''alert-''" using assms(2) by (simp add: other_writer_def)
  moreover have "has_prefix (''alert-'' @ rnd n) ''alert-''" by (rule has_prefix_append)
  ultimately show "e \<in> set (events d) \<or> ev_id e \<noteq> ''alert-'' @ rnd n" by metis
qed (use assms(2) in \<open>simp_all add: other_writer_def\<close>)

lemma sink_frame_monitor:
  assumes "monitor_inv rnd d" "sink_frame d d'" "incident_inv d'"
  shows "monitor_inv rnd d'"
proof -
  have "alert_inv rnd d'"
    by (rule alert_inv_frame [of d' d]) (use assms in \<open>auto simp: monitor_inv_def sink_frame_def\<close>)
  then show ?thesis using assms by (simp add: monitor_inv_def sink_frame_def)
qed

lemma monitor_step_inv:
  assumes "inj rnd" and "monitor_step rnd d d'" and "monitor_inv rnd d"
  shows "monitor_inv rnd d'"
  using assms(2,3)
proof (induction rule: monitor_step.induct)
  case (mon_Evaluate d wall reminder ord snap now)
  then show ?case by (rule Evaluate_monitor_inv [OF assms(1)])
next
  case (mon_SeedDefaults now d d')
  show ?case
    by (rule fold_result_inv [where P = "monitor_inv rnd", OF mon_SeedDefaults(1) [unfolded SeedDefaults_def] mon_SeedDefaults(2)])
       (rule seed_rule_inv)
next
  case (mon_UpdateRule now v d d')
  then show ?case by (blast intro: UpdateRule_inv)
next
  case (mon_CreateRule now v d d')
  then show ?case by (blast intro: CreateRule_inv)
next
  case (mon_CreateSilence now s d d')
  then show ?case
    by (intro monitor_inv_frame [OF mon_CreateSilence(2)])
       (auto simp: CreateSilence_def draw_def Let_def split: if_splits prod.splits)
next
  case (mon_DeleteSilence i d d')
  then show ?case
    by (intro monitor_inv_frame [OF mon_DeleteSilence(2)]) (auto simp: DeleteSilence_def split: if_splits)
next
  case (mon_DeploymentGrace res c t d d')
  then show ?case by (auto simp: DeploymentGrace_def intro: upsert_grace_monitor_inv split: if_splits)
next
  case (mon_Reconcile wall reminder now d d')
  then show ?case using Reconcile_inv [OF _ _ _ mon_Reconcile(1)] alert_inv_ids
    by (intro sink_frame_monitor [OF mon_Reconcile(2)]) (auto simp: monitor_inv_def)
next
  case (mon_ScheduleReminders wall now interval d d')
  then show ?case using ScheduleReminders_inv [OF _ mon_ScheduleReminders(1)]
    by (intro sink_frame_monitor [OF mon_ScheduleReminders(2)]) (auto simp: monitor_inv_def)
next
  case (mon_Cleanup d now)
  have "sink_frame d (Cleanup_notifications now d)"
    by (simp add: sink_frame_def Cleanup_notifications_def Let_def)
  then show ?case using mon_Cleanup Cleanup_notifications_inv
    by (intro sink_frame_monitor [OF mon_Cleanup]) (auto simp: monitor_inv_def)
next
  case (mon_other d d')
  then show ?case by (blast intro: other_writer_inv)
qed

lemma monitor_inv_empty: "monitor_inv rnd empty_db"
  by (simp add: monitor_inv_def alert_inv_empty incident_inv_empty) (simp add: empty_db_def)

lemma monitor_reachable_inv:
  assumes "inj rnd" and "monitor_reachable rnd d"
  shows "monitor_inv rnd d"
  using assms(2) by induction (auto intro: monitor_inv_empty monitor_step_inv [OF assms(1)])

subsection \<open>Properties\<close>

text \<open>
  C2. In every database the program reaches, and for every key: there is exactly one firing
  alert row for the key when its stored phase is firing or recovering, and none otherwise.
\<close>

theorem one_firing_alert_per_key:
  assumes "inj rnd" and "monitor_reachable rnd d"
  shows "count_where (open_alert key) (alerts d) = (if active (phase_in key d) then 1 else 0)"
  using monitor_reachable_inv [OF assms] by (simp add: monitor_inv_def alert_inv_def open_matches_def)

text \<open>
  C1. In every database the program reaches a group has at most one open incident, and an
  incident is open exactly while at least one of its alerts is firing.
\<close>

theorem incident_open_iff_firing:
  assumes "inj rnd" and "monitor_reachable rnd d" and "i \<in> set (incidents d)"
  shows "count_where (open_incident (in_group_key i)) (incidents d) \<le> 1 \<and>
         (in_status i = ''open'' \<longleftrightarrow> list_ex firing_member (members (in_id i) d))"
proof -
  have inv: "incident_inv d" using monitor_reachable_inv [OF assms(1,2)] by (simp add: monitor_inv_def)
  then have "incident_ok d i" using assms(3) by (simp add: incident_inv_def)
  then show ?thesis using inv by (simp add: incident_inv_def incident_ok_def has_firing_members)
qed

text \<open>
  In every database the program reaches the severity of an open incident is critical when
  one of its firing alerts is critical, and warning otherwise.
\<close>

theorem incident_severity_is_highest:
  assumes "inj rnd" and "monitor_reachable rnd d" and "i \<in> set (incidents d)" and "in_status i = ''open''"
  shows "in_severity i = (if list_ex (\<lambda>a. firing_member a \<and> al_severity a = Critical) (members (in_id i) d)
                          then ''critical'' else ''warning'')"
proof -
  have "incident_ok d i" using monitor_reachable_inv [OF assms(1,2)] assms(3) by (simp add: monitor_inv_def incident_inv_def)
  then show ?thesis using assms(4) by (simp add: incident_ok_def has_firing_members)
qed

subsection \<open>Resolution and the event that recorded the trigger\<close>

text \<open>
  \<open>insertEvent\<close> names the event of a trigger and the event of the matching resolution alike
  (\<^verbatim>\<open>"alert-" + alertID\<close>), and \<^verbatim>\<open>events.id\<close> is a primary key.
\<close>

definition event_stored :: "string \<Rightarrow> db \<Rightarrow> bool" where
  "event_stored alertID d = list_ex (\<lambda>e. ev_id e = ''alert-'' @ alertID) (events d)"

definition firing_row_exists :: "string \<Rightarrow> db \<Rightarrow> bool" where
  "firing_row_exists alertID d = list_ex (\<lambda>a. al_id a = alertID \<and> al_status a = ''firing'') (alerts d)"

lemma evaluate_keeps_firing:
  assumes "firing_row_exists i d" "event_stored i d"
    and "evaluate rnd (Some (notification_sink rnd wall reminder)) rule tt target v f r now d = Inr d'"
  shows "firing_row_exists i d' \<and> event_stored i d'"
proof -
  obtain a e where a: "a \<in> set (alerts d)" "al_id a = i" "al_status a = ''firing''"
    and e: "e \<in> set (events d)" "ev_id e = ''alert-'' @ i"
    using assms(1,2) by (auto simp: firing_row_exists_def event_stored_def list_ex_iff)
  obtain eff where eff: "effect_ok rnd rule target (transition_of rule target f r now d) d eff d'"
    using assms(3) by (rule notif.evaluate_effect)
  have ev: "set (events d) \<subseteq> set (events d')"
    using eff by (cases eff) (auto simp: effect_ok_def Let_def)
  have "\<exists>a' \<in> set (alerts d'). al_id a' = i \<and> al_status a' = ''firing''"
  proof (cases eff)
    case (Resolved_row j e')
    then have "j \<noteq> i" using eff e by (auto simp: effect_ok_def Let_def)
    then show ?thesis using eff Resolved_row a by (auto simp: effect_ok_def Let_def set_upd_where)
  next
    case Observed_row
    then obtain t w where al: "alerts d' = upd_where (open_alert (dedup (rule_Family rule) target))
        (\<lambda>r. r\<lparr>al_last_observed_at := t, al_observed := w\<rparr>) (alerts d)"
      using eff by (auto simp: effect_ok_def Let_def)
    let ?a = "if open_alert (dedup (rule_Family rule) target) a then a\<lparr>al_last_observed_at := t, al_observed := w\<rparr> else a"
    have "?a \<in> set (alerts d')" unfolding al using a(1) by (auto simp: upd_where_def)
    then show ?thesis using a(2,3) by (intro bexI [of _ ?a]) simp_all
  qed (use eff a in \<open>auto simp: effect_ok_def Let_def\<close>)
  then show ?thesis using ev e by (auto simp: firing_row_exists_def event_stored_def list_ex_iff)
qed

text \<open>
  C3. An alert cannot be resolved while the event that recorded its trigger is stored: in every
  reachable database, evaluating a transition that resolves the key of an open alert whose
  trigger event has not been pruned fails, and its transaction is rolled back.
\<close>

theorem resolution_fails_while_event_kept:
  assumes "inj rnd" and "monitor_reachable rnd d"
    and "a \<in> set (alerts d)" and "open_alert (dedup (rule_Family rule) target) a"
    and "event_stored (al_id a) d"
    and "Resolved (transition_of rule target f r now d)"
  shows "\<exists>err. evaluate rnd (Some (notification_sink rnd wall reminder)) rule tt target v f r now d = Inl err"
proof (cases "evaluate rnd (Some (notification_sink rnd wall reminder)) rule tt target v f r now d")
  case (Inr d')
  then obtain eff where eff: "effect_ok rnd rule target (transition_of rule target f r now d) d eff d'"
    by (rule notif.evaluate_effect)
  let ?key = "dedup (rule_Family rule) target"
  let ?tr = "transition_of rule target f r now d"
  have "open_matches d" using monitor_reachable_inv [OF assms(1,2)] by (simp add: monitor_inv_def alert_inv_def)
  then have one: "count_where (open_alert ?key) (alerts d) \<le> 1" by (simp add: open_matches_def)
  have flags: "\<not> Triggered ?tr" "\<not> Repeated ?tr"
    using assms(6) Advance_at_most_one_flag unfolding transition_of_def by blast+
  have False
  proof (cases eff)
    case (Resolved_row j e)
    then obtain a' where a': "a' \<in> set (alerts d)" "open_alert ?key a'" "al_id a' = j"
      and ns: "\<forall>e' \<in> set (events d). ev_id e' \<noteq> ''alert-'' @ j"
      using eff by (auto simp: effect_ok_def Let_def)
    have "a' = a" by (rule count_where_unique [OF one a'(1) assms(3) a'(2) assms(4)])
    then show False using ns a'(3) assms(5) by (auto simp: event_stored_def list_ex_iff)
  qed (use eff flags assms in \<open>auto simp: effect_ok_def Let_def\<close>)
  then show ?thesis ..
qed simp

text \<open>
  As long as the event that recorded its trigger is not pruned, a firing alert stays firing
  through every evaluation round, whatever is observed.
\<close>

theorem firing_persists_while_event_kept:
  assumes "firing_row_exists i d" and "event_stored i d"
  shows "firing_row_exists i (fst (Evaluate rnd (Some (notification_sink rnd wall reminder)) ord snap now d)) \<and>
         event_stored i (fst (Evaluate rnd (Some (notification_sink rnd wall reminder)) ord snap now d))"
proof (rule Evaluate_preserves [of "\<lambda>_. True" "\<lambda>d. firing_row_exists i d \<and> event_stored i d"])
  show "firing_row_exists i d' \<and> event_stored i d'"
    if "firing_row_exists i e \<and> event_stored i e" "Cleanup now e = Inr d'" for e d'
    using that by (auto simp: Cleanup_def firing_row_exists_def event_stored_def list_ex_iff expired_alert_def)
  show "firing_row_exists i d' \<and> event_stored i d'"
    if "firing_row_exists i e \<and> event_stored i e" "upsert_grace res t c e = Inr d'" for e d' res t c
    using that by (auto simp: upsert_grace_def Let_def firing_row_exists_def event_stored_def split: if_splits)
  show "firing_row_exists i d' \<and> event_stored i d'"
    if "True" "firing_row_exists i e \<and> event_stored i e"
      "evaluate rnd (Some (notification_sink rnd wall reminder)) rule tt target v f r now e = Inr d'"
    for rule tt target v f r e d'
    using evaluate_keeps_firing [OF _ _ that(3)] that(2) by blast
  show "firing_row_exists i d \<and> event_stored i d" using assms by simp
qed simp_all

subsection \<open>Two required checks of one resource\<close>




end
