(* ===== verification/Monitor_Samples.thy ===== *)
theory Monitor_Samples
  imports Monitor_System
begin

section \<open>A sample run of the monitor\<close>

text \<open>
  A concrete database, reached by the operations of the program from the empty one: one scoped
  rule, one resource with one required check that fails, and two rounds of the evaluator
  two minutes and ten seconds apart. The alert of the check fires in the second round and opens
  an incident. The theorems of \<^theory_text>\<open>Monitor_System\<close> are applied to it.
\<close>

definition sample_rnd :: "nat \<Rightarrow> string" where
  "sample_rnd n = replicate n CHR ''a''"

lemma inj_sample_rnd: "inj sample_rnd"
  by (rule injI) (metis length_replicate sample_rnd_def)

definition sample_host :: HostObservation where
  "sample_host =
    \<lparr>host_At = 0, host_CPUPercent = None, host_CPUUserPercent = None, host_CPUSystemPercent = None,
     host_CPUIOWaitPercent = None, host_CPUStealPercent = None, host_MemoryUsedBytes = None,
     host_MemoryTotalBytes = None, host_MemoryAvailableBytes = None, host_MemoryPercent = None,
     host_MemoryCachedBytes = None, host_MemoryBuffersBytes = None, host_SwapUsedBytes = None,
     host_SwapTotalBytes = None, host_SwapPercent = None, host_Load1 = None, host_Load5 = None,
     host_Load15 = None, host_NetworkRXBPS = None, host_NetworkTXBPS = None, host_NetworkRXPacketsPS =
     None, host_NetworkTXPacketsPS = None, host_NetworkRXErrorsDelta = None, host_NetworkTXErrorsDelta =
     None, host_NetworkRXDropsDelta = None, host_NetworkTXDropsDelta = None, host_DiskReadBPS = None,
     host_DiskWriteBPS = None, host_DiskReadIOPS = None, host_DiskWriteIOPS = None, host_DiskUsedBytes =
     None, host_DiskTotalBytes = None, host_UptimeSeconds = None\<rparr>"

definition sample_snapshot :: Snapshot where
  "sample_snapshot = \<lparr>snap_Sequence = 1, snap_At = 0, snap_BootIdentity = [], snap_Host = sample_host,
    snap_Resources = [], snap_Collectors = (\<lambda>_. None)\<rparr>"

definition sample_check :: "string \<Rightarrow> check_row" where
  "sample_check i = \<lparr>hc_id = i, hc_resource_id = ''res_web'', hc_name = ''web'', hc_url = ''http://web'',
    hc_method = ''GET'', hc_interval_seconds = 30, hc_timeout_seconds = 5, hc_status_min = 200, hc_status_max = 299,
    hc_body_substring = None, hc_required = True, hc_enabled = True, hc_created_at = 0, hc_updated_at = 0\<rparr>"

definition sample_check_state :: "string \<Rightarrow> string \<Rightarrow> check_state_row" where
  "sample_check_state i st = \<lparr>cs_check_id = i, cs_status = st, cs_failure_code = None, cs_latency_ms = None,
    cs_checked_at = None, cs_successes = 0, cs_failures = 0, cs_next_run_at = None, cs_updated_at = 0\<rparr>"

definition sample_rule :: Rule where
  "sample_rule = check_rule\<lparr>rule_ID := ''web-check'', rule_BuiltIn := False, rule_ScopeType := ''resource'', rule_ScopeID := ''res_web''\<rparr>"

definition sample_seeded :: db where
  "sample_seeded = (case CreateRule 0 sample_rule empty_db of Inr d \<Rightarrow> d | Inl _ \<Rightarrow> empty_db)"

definition sample_checked :: db where
  "sample_checked = sample_seeded\<lparr>resources := [\<lparr>rs_id = ''res_web'', rs_project_name = None, rs_status = ''running'', rs_archived_at = None\<rparr>],
     health_checks := [sample_check ''c1''], health_check_state := [sample_check_state ''c1'' ''failure'']\<rparr>"

definition sample_sink :: IncidentSink where
  "sample_sink = notification_sink sample_rnd 0 (hours 2)"

definition sample_round :: "int \<Rightarrow> db \<Rightarrow> db" where
  "sample_round t d = fst (Evaluate sample_rnd (Some sample_sink) (\<lambda>xs. xs) sample_snapshot (seconds t) d)"

definition sample_pending :: db where
  "sample_pending = sample_round 1000 sample_checked"

definition sample_firing :: db where
  "sample_firing = sample_round 1130 sample_pending"

text \<open>The check succeeds again: the next round enters the recovering phase.\<close>

definition sample_recovering :: db where
  "sample_recovering = sample_round 1140 (sample_firing\<lparr>health_check_state := [sample_check_state ''c1'' ''success'']\<rparr>)"

definition sample_key :: string where
  "sample_key = dedup FamilyRequiredCheck ''res_web''"

lemma sample_created: "CreateRule 0 sample_rule empty_db = Inr sample_seeded"
proof -
  have "case CreateRule 0 sample_rule empty_db of Inr _ \<Rightarrow> True | Inl _ \<Rightarrow> False" by code_simp
  then show ?thesis by (auto simp: sample_seeded_def split: sum.splits)
qed

lemma sample_reachable: "monitor_reachable sample_rnd sample_pending" "monitor_reachable sample_rnd sample_firing"
proof -
  have "monitor_reachable sample_rnd sample_seeded"
    by (rule mon_step [OF mon_init mon_CreateRule [OF sample_created]])
  moreover have "other_writer sample_seeded sample_checked"
    by (simp add: other_writer_def sample_checked_def)
  ultimately have "monitor_reachable sample_rnd sample_checked" by (rule mon_step [OF _ mon_other])
  then show p: "monitor_reachable sample_rnd sample_pending"
    unfolding sample_pending_def sample_round_def sample_sink_def by (rule mon_step [OF _ mon_Evaluate])
  then show "monitor_reachable sample_rnd sample_firing"
    unfolding sample_firing_def sample_round_def sample_sink_def by (rule mon_step [OF _ mon_Evaluate])
qed

definition sample_shape :: "db \<Rightarrow> bool" where
  "sample_shape d \<longleftrightarrow> phase_in sample_key d = Firing \<and> map in_status (incidents d) = [''open''] \<and>
     length (alerts d) = 1 \<and> list_all (\<lambda>a. open_alert sample_key a \<and> event_stored (al_id a) d) (alerts d)"

lemma sample_firing_shape: "sample_shape sample_firing"
  by code_simp

definition sample_recovering_shape :: "db \<Rightarrow> bool" where
  "sample_recovering_shape d \<longleftrightarrow> length (alerts d) = 1 \<and>
     list_all (\<lambda>a. open_alert (dedup (rule_Family sample_rule) ''res_web'') a \<and> event_stored (al_id a) d) (alerts d) \<and>
     Resolved (transition_of sample_rule ''res_web'' False True (seconds 1300) d)"

lemma sample_recovering_shape: "sample_recovering_shape sample_recovering"
  by code_simp

lemma sample_recovering_reachable: "monitor_reachable sample_rnd sample_recovering"
proof -
  have "other_writer sample_firing (sample_firing\<lparr>health_check_state := [sample_check_state ''c1'' ''success'']\<rparr>)"
    by (simp add: other_writer_def)
  with sample_reachable(2)
  have "monitor_reachable sample_rnd (sample_firing\<lparr>health_check_state := [sample_check_state ''c1'' ''success'']\<rparr>)"
    by (rule mon_step [OF _ mon_other])
  then show ?thesis
    unfolding sample_recovering_def sample_round_def sample_sink_def by (rule mon_step [OF _ mon_Evaluate])
qed

lemmas sample_firing_phase = sample_firing_shape [unfolded sample_shape_def, THEN conjunct1]
lemmas sample_firing_incident = sample_firing_shape [unfolded sample_shape_def, THEN conjunct2, THEN conjunct1]
lemmas sample_firing_alert = sample_firing_shape [unfolded sample_shape_def, THEN conjunct2, THEN conjunct2]

subsection \<open>The theorems applied to the sample\<close>

theorem one_firing_alert_per_key_witness:
  "inj sample_rnd \<and> monitor_reachable sample_rnd sample_firing \<and>
   count_where (open_alert sample_key) (alerts sample_firing) = 1"
  using one_firing_alert_per_key [OF inj_sample_rnd sample_reachable(2), of sample_key]
  by (simp add: inj_sample_rnd sample_reachable sample_firing_phase)

theorem incident_open_iff_firing_witness:
  "\<exists>i \<in> set (incidents sample_firing). list_ex firing_member (members (in_id i) sample_firing)"
proof -
  obtain i where i: "incidents sample_firing = [i]" "in_status i = ''open''"
    using sample_firing_incident by auto
  then show ?thesis
    using incident_open_iff_firing [OF inj_sample_rnd sample_reachable(2), of i] by simp
qed

theorem incident_severity_is_highest_witness:
  "\<exists>i \<in> set (incidents sample_firing). in_severity i =
     (if list_ex (\<lambda>a. firing_member a \<and> al_severity a = Critical) (members (in_id i) sample_firing)
      then ''critical'' else ''warning'')"
proof -
  obtain i where i: "incidents sample_firing = [i]" "in_status i = ''open''"
    using sample_firing_incident by auto
  then show ?thesis
    using incident_severity_is_highest [OF inj_sample_rnd sample_reachable(2), of i] by simp
qed

theorem firing_persists_while_event_kept_witness:
  "\<exists>i. firing_row_exists i sample_firing \<and> event_stored i sample_firing \<and>
       firing_row_exists i (sample_round 9000 sample_firing)"
proof -
  obtain a where a: "alerts sample_firing = [a]" "open_alert sample_key a" "event_stored (al_id a) sample_firing"
    using sample_firing_alert by (cases "alerts sample_firing") (auto simp: list_all_iff)
  then have f: "firing_row_exists (al_id a) sample_firing" by (simp add: firing_row_exists_def open_alert_def)
  show ?thesis
    using firing_persists_while_event_kept [OF f a(3), of sample_rnd 0 "hours 2" "\<lambda>xs. xs" sample_snapshot "seconds 9000"] f a(3)
    unfolding sample_round_def sample_sink_def by blast
qed

theorem resolution_fails_while_event_kept_witness:
  "Resolved (transition_of sample_rule ''res_web'' False True (seconds 1300) sample_recovering) \<and>
   (\<exists>err. evaluate sample_rnd (Some (notification_sink sample_rnd 0 (hours 2))) sample_rule ''resource'' ''res_web'' 0
      False True (seconds 1300) sample_recovering = Inl err)"
proof -
  note sh = sample_recovering_shape [unfolded sample_recovering_shape_def]
  obtain a where a: "a \<in> set (alerts sample_recovering)" "open_alert (dedup (rule_Family sample_rule) ''res_web'') a"
    "event_stored (al_id a) sample_recovering"
    using sh by (cases "alerts sample_recovering") (auto simp: list_all_iff)
  show ?thesis
    using resolution_fails_while_event_kept [OF inj_sample_rnd sample_recovering_reachable a] sh by blast
qed



end
