(* ===== verification/Alert_Health.thy ===== *)
theory Alert_Health
  imports Alert_Evaluator
begin

section \<open>The health overlay\<close>

text \<open>
  \<^verbatim>\<open>internal/alerts/health.go\<close>: \<open>Decorate\<close> lays the state of checks and alerts over the resource
  statuses of a snapshot. \<open>None\<close> stands for a repository without a database.
\<close>

record health =
  requiredUnknown :: bool
  requiredPending :: bool
  requiredFiring :: bool
  optionalFailure :: bool
  resourceAlert :: bool

definition no_health :: health where
  "no_health = \<lparr>requiredUnknown = False, requiredPending = False, requiredFiring = False,
     optionalFailure = False, resourceAlert = False\<rparr>"

text \<open>A row of the query: resource, required, status of the check, phase of its alert key.\<close>

definition health_row :: "db \<Rightarrow> check_row \<Rightarrow> string \<times> bool \<times> string \<times> Phase" where
  "health_row d c =
    (hc_resource_id c, hc_required c,
     case find (\<lambda>s. cs_check_id s = hc_id c) (health_check_state d) of None \<Rightarrow> ''unknown'' | Some s \<Rightarrow> cs_status s,
     phase_in ((if hc_required c then ''required_check_failure:'' else ''optional_check_failure:'') @ hc_resource_id c) d)"

definition add_health :: "string \<Rightarrow> string \<times> bool \<times> string \<times> Phase \<Rightarrow> health \<Rightarrow> health" where
  "add_health rid row h =
    (case row of (resource, required, status, phase) \<Rightarrow>
       if resource \<noteq> rid then h
       else let h = (if required \<and> status = ''unknown'' then h\<lparr>requiredUnknown := True\<rparr> else h);
                h = (if required \<and> (phase = Pending \<or> phase = Recovering) then h\<lparr>requiredPending := True\<rparr> else h);
                h = (if required \<and> phase = Firing then h\<lparr>requiredFiring := True\<rparr> else h)
            in if \<not> required \<and> (status = ''failure'' \<or> phase = Firing \<or> phase = Pending)
               then h\<lparr>optionalFailure := True\<rparr> else h)"

definition resource_alert :: "db \<Rightarrow> string \<Rightarrow> bool" where
  "resource_alert d rid = list_ex (\<lambda>a. al_status a = ''firing'' \<and> al_target_type a = ''resource'' \<and>
     al_family a \<notin> {FamilyRequiredCheck, FamilyOptionalCheck} \<and> al_target_id a = rid) (alerts d)"

definition resource_health :: "db \<Rightarrow> string \<Rightarrow> health" where
  "resource_health d rid =
    (let h = fold (add_health rid) (map (health_row d) (filter hc_enabled (health_checks d))) no_health
     in if resource_alert d rid then h\<lparr>resourceAlert := True\<rparr> else h)"

definition decorate_resource :: "db option \<Rightarrow> ResourceSnapshot \<Rightarrow> ResourceSnapshot" where
  "decorate_resource db v =
    (let v = v\<lparr>res_SignalStatus := res_Status v\<rparr>
     in case db of
          None \<Rightarrow> v
        | Some d \<Rightarrow>
            if res_SignalStatus v \<in> {StatusPaused, StatusArchived, StatusDown} then v
            else let h = resource_health d (res_ID v)
                 in if requiredFiring h then v\<lparr>res_Status := StatusDown\<rparr>
                    else if requiredPending h \<or> optionalFailure h \<or> resourceAlert h then v\<lparr>res_Status := StatusDegraded\<rparr>
                    else if requiredUnknown h then v\<lparr>res_Status := StatusUnknown\<rparr>
                    else v)"

definition Decorate :: "db option \<Rightarrow> Snapshot \<Rightarrow> Snapshot" where
  "Decorate db snapshot = snapshot\<lparr>snap_Resources := map (decorate_resource db) (snap_Resources snapshot)\<rparr>"

text \<open>The checks of one resource that count for its health.\<close>

definition health_checks_of :: "db \<Rightarrow> string \<Rightarrow> check_row list" where
  "health_checks_of d rid = filter (\<lambda>c. hc_enabled c \<and> hc_resource_id c = rid) (health_checks d)"

definition check_status :: "db \<Rightarrow> check_row \<Rightarrow> string" where
  "check_status d c = fst (snd (snd (health_row d c)))"

definition check_phase :: "db \<Rightarrow> check_row \<Rightarrow> Phase" where
  "check_phase d c = snd (snd (snd (health_row d c)))"

lemma health_row_key: "fst (health_row d c) = hc_resource_id c" "fst (snd (health_row d c)) = hc_required c"
  by (simp_all add: health_row_def)

lemma add_health_row:
  "add_health rid (health_row d c) h =
   (if hc_resource_id c \<noteq> rid then h
    else if hc_required c
    then h\<lparr>requiredUnknown := requiredUnknown h \<or> check_status d c = ''unknown'',
           requiredPending := requiredPending h \<or> check_phase d c = Pending \<or> check_phase d c = Recovering,
           requiredFiring := requiredFiring h \<or> check_phase d c = Firing\<rparr>
    else h\<lparr>optionalFailure := optionalFailure h \<or> check_status d c = ''failure'' \<or> check_phase d c = Firing \<or>
             check_phase d c = Pending\<rparr>)"
proof -
  obtain r q s p where row: "health_row d c = (r, q, s, p)" by (metis prod_cases4)
  have rq: "r = hc_resource_id c" "q = hc_required c" "s = check_status d c" "p = check_phase d c"
    using health_row_key [of d c] by (simp_all add: check_status_def check_phase_def row)
  show ?thesis unfolding row add_health_def prod.case rq Let_def by (cases h) auto
qed

lemma fold_health:
  "fold (add_health rid) (map (health_row d) cs) h =
   \<lparr>requiredUnknown = requiredUnknown h \<or>
       (\<exists>c \<in> set cs. hc_resource_id c = rid \<and> hc_required c \<and> check_status d c = ''unknown''),
    requiredPending = requiredPending h \<or>
       (\<exists>c \<in> set cs. hc_resource_id c = rid \<and> hc_required c \<and> (check_phase d c = Pending \<or> check_phase d c = Recovering)),
    requiredFiring = requiredFiring h \<or> (\<exists>c \<in> set cs. hc_resource_id c = rid \<and> hc_required c \<and> check_phase d c = Firing),
    optionalFailure = optionalFailure h \<or>
       (\<exists>c \<in> set cs. hc_resource_id c = rid \<and> \<not> hc_required c \<and>
          (check_status d c = ''failure'' \<or> check_phase d c = Firing \<or> check_phase d c = Pending)),
    resourceAlert = resourceAlert h\<rparr>"
proof (induction cs arbitrary: h)
  case Nil
  then show ?case by simp
next
  case (Cons c cs)
  show ?case
    by (cases "hc_resource_id c = rid"; cases "hc_required c") (auto simp: Cons.IH add_health_row)
qed

subsection \<open>Properties\<close>

text \<open>
  The status a resource gets from the overlay, in order of precedence: paused, archived
  and down resources keep their status; otherwise a required check whose alert fires makes the
  resource down; otherwise a required check that is pending or recovering, a failing optional
  check or a firing alert on the resource makes it degraded; otherwise a required check with
  an unknown result makes it unknown. The status the collectors reported is kept as the signal
  status.
\<close>

theorem decorate_status:
  "res_SignalStatus (decorate_resource (Some d) v) = res_Status v \<and>
   res_Status (decorate_resource (Some d) v) =
     (let cs = set (health_checks_of d (res_ID v)) in
      if res_Status v \<in> {StatusPaused, StatusArchived, StatusDown} then res_Status v
      else if \<exists>c \<in> cs. hc_required c \<and> check_phase d c = Firing then StatusDown
      else if (\<exists>c \<in> cs. hc_required c \<and> (check_phase d c = Pending \<or> check_phase d c = Recovering)) \<or>
              (\<exists>c \<in> cs. \<not> hc_required c \<and>
                 (check_status d c = ''failure'' \<or> check_phase d c = Firing \<or> check_phase d c = Pending)) \<or>
              resource_alert d (res_ID v) then StatusDegraded
      else if \<exists>c \<in> cs. hc_required c \<and> check_status d c = ''unknown'' then StatusUnknown
      else res_Status v)"
proof -
  have rh: "resource_health d (res_ID v) =
     \<lparr>requiredUnknown = (\<exists>c \<in> set (health_checks_of d (res_ID v)). hc_required c \<and> check_status d c = ''unknown''),
      requiredPending = (\<exists>c \<in> set (health_checks_of d (res_ID v)). hc_required c \<and> (check_phase d c = Pending \<or> check_phase d c = Recovering)),
      requiredFiring = (\<exists>c \<in> set (health_checks_of d (res_ID v)). hc_required c \<and> check_phase d c = Firing),
      optionalFailure = (\<exists>c \<in> set (health_checks_of d (res_ID v)). \<not> hc_required c \<and>
          (check_status d c = ''failure'' \<or> check_phase d c = Firing \<or> check_phase d c = Pending)),
      resourceAlert = resource_alert d (res_ID v)\<rparr>"
    unfolding resource_health_def fold_health Let_def
    by (auto simp: no_health_def health_checks_of_def)
  have st: "res_Status (decorate_resource (Some d) v) =
     (let h = resource_health d (res_ID v) in
      if res_Status v \<in> {StatusPaused, StatusArchived, StatusDown} then res_Status v
      else if requiredFiring h then StatusDown
      else if requiredPending h \<or> optionalFailure h \<or> resourceAlert h then StatusDegraded
      else if requiredUnknown h then StatusUnknown else res_Status v)"
    by (simp add: decorate_resource_def Let_def)
  have "res_SignalStatus (decorate_resource (Some d) v) = res_Status v"
    by (simp add: decorate_resource_def Let_def)
  then show ?thesis unfolding st Let_def rh health.select_convs by (rule conjI) (rule refl)
qed

end
