(* ===== verification/Channels.thy ===== *)
theory Channels
  imports Incidents
begin

section \<open>Notification channels and deliveries\<close>

text \<open>
  \<^verbatim>\<open>internal/notifications/repository.go\<close>, the channel half: listing, creating, patching and deleting
  channels, listing and retrying deliveries, test deliveries, and the incident listings.
  \<open>keyed\<close> says that the secret store has its master key; \<open>parse_addr\<close> is \<open>mail.ParseAddress\<close>.
  An operation that writes the secret store before it fails returns the changed database
  together with its error.
\<close>

record Channel =
  chan_ID :: string
  chan_Name :: string
  chan_Kind :: string
  chan_Enabled :: bool
  chan_MinimumSeverity :: string
  chan_NotifyResolved :: bool
  chan_Config :: "config option"
  chan_SecretConfigured :: bool
  chan_CreatedAt :: time
  chan_UpdatedAt :: time

record SecretPatch =
  patch_URL :: "string option"
  patch_BearerToken :: "string option"
  patch_SigningSecret :: "string option"
  patch_Host :: "string option"
  patch_Username :: "string option"
  patch_Password :: "string option"
  patch_Sender :: "string option"
  patch_Recipients :: "string list option"

record Delivery =
  del_ID :: string
  del_ChannelID :: string
  del_IncidentID :: string
  del_EventType :: string
  del_IdempotencyKey :: string
  del_Status :: string
  del_AttemptCount :: int
  del_NextAttemptAt :: "time option"
  del_CompletedAt :: "time option"
  del_FailureCode :: string
  del_CreatedAt :: time

record Health =
  hl_QueueDepth :: nat
  hl_PermanentFailures :: nat
  hl_DroppedDeliveries :: int
  hl_LastSuccess :: "time option"

definition master_key_missing :: go_error where
  "master_key_missing = ErrMsg ''master encryption key is not configured''"

definition secret_not_found :: go_error where
  "secret_not_found = ErrMsg ''encrypted secret was not found''"

definition secret_ref :: "string \<Rightarrow> string" where
  "secret_ref i = ''notification.channel.'' @ i"

definition scan_channel :: "db \<Rightarrow> channel_row \<Rightarrow> Channel" where
  "scan_channel d c = \<lparr>chan_ID = ch_id c, chan_Name = ch_name c, chan_Kind = ch_kind c, chan_Enabled = ch_enabled c,
     chan_MinimumSeverity = ch_minimum_severity c, chan_NotifyResolved = ch_notify_resolved c,
     chan_Config = Some (ch_config c), chan_SecretConfigured = (channel_secrets d (ch_secret_ref c) \<noteq> None),
     chan_CreatedAt = from_unix (ch_created_at c), chan_UpdatedAt = from_unix (ch_updated_at c)\<rparr>"

definition Channels :: "db \<Rightarrow> Channel list" where
  "Channels d = map (scan_channel d) (sort_key ch_name (filter (\<lambda>c. ch_deleted_at c = None) (notification_channels d)))"

definition Channel_by_id :: "string \<Rightarrow> db \<Rightarrow> Channel result" where
  "Channel_by_id i d = (case find (\<lambda>c. chan_ID c = i) (Channels d) of None \<Rightarrow> Inl ErrNoRows | Some c \<Rightarrow> Inr c)"

definition validateChannel :: "(string \<Rightarrow> bool) \<Rightarrow> Channel \<Rightarrow> ChannelSecrets \<Rightarrow> unit result" where
  "validateChannel parse_addr c s =
    (let minimum = (if chan_MinimumSeverity c = [] then ''warning'' else chan_MinimumSeverity c);
         tlsMode = (case chan_Config c of None \<Rightarrow> [] | Some m \<Rightarrow> (case m ''tlsMode'' of Some (JStr x) \<Rightarrow> x | _ \<Rightarrow> []))
     in if trim_space (chan_Name c) = [] \<or> length (chan_Name c) > 120 then Inl (ErrMsg ''channel name is required'')
        else if chan_Kind c \<noteq> ''webhook'' \<and> chan_Kind c \<noteq> ''smtp'' then Inl (ErrMsg ''channel kind must be webhook or smtp'')
        else if minimum \<noteq> ''warning'' \<and> minimum \<noteq> ''critical'' then Inl (ErrMsg ''invalid minimum severity'')
        else if chan_Kind c = ''webhook'' \<and> sec_URL s = [] then Inl (ErrMsg ''webhook URL is required'')
        else if chan_Kind c = ''smtp'' then
          (if sec_Host s = [] \<or> sec_Sender s = [] \<or> sec_Recipients s = [] \<or> length (sec_Recipients s) > 20
           then Inl (ErrMsg ''SMTP host, sender, and 1-20 recipients are required'')
           else if tlsMode \<noteq> ''starttls'' \<and> tlsMode \<noteq> ''implicit'' then Inl (ErrMsg ''SMTP TLS mode must be starttls or implicit'')
           else if \<not> parse_addr (sec_Sender s) then Inl (ErrMsg ''invalid SMTP sender'')
           else if \<not> list_all parse_addr (sec_Recipients s) then Inl (ErrMsg ''invalid SMTP recipient'')
           else Inr ())
        else Inr ())"

definition live_channels :: "db \<Rightarrow> nat" where
  "live_channels d = count_where (\<lambda>c. ch_deleted_at c = None) (notification_channels d)"

text \<open>The insert, with the primary key and the trigger that limits the live channels to 32.\<close>

definition insert_channel :: "channel_row \<Rightarrow> db \<Rightarrow> db result" where
  "insert_channel row d =
    (if live_channels d \<ge> 32 \<or> list_ex (\<lambda>c. ch_id c = ch_id row) (notification_channels d)
     then Inl (ErrConstraint ''notification_channels'')
     else Inr (d\<lparr>notification_channels := notification_channels d @ [row]\<rparr>))"

definition channel_defaults :: "string \<Rightarrow> Channel \<Rightarrow> Channel" where
  "channel_defaults cid c = c\<lparr>chan_ID := cid,
     chan_MinimumSeverity := (if chan_MinimumSeverity c = [] then ''warning'' else chan_MinimumSeverity c),
     chan_Config := (case chan_Config c of None \<Rightarrow> Some (\<lambda>_. None) | Some m \<Rightarrow> Some m)\<rparr>"

definition new_channel_row :: "time \<Rightarrow> Channel \<Rightarrow> channel_row" where
  "new_channel_row now c = \<lparr>ch_id = chan_ID c, ch_name = chan_Name c, ch_kind = chan_Kind c, ch_enabled = chan_Enabled c,
     ch_minimum_severity = chan_MinimumSeverity c, ch_notify_resolved = chan_NotifyResolved c,
     ch_config = the (chan_Config c), ch_secret_ref = secret_ref (chan_ID c), ch_created_at = unix now,
     ch_updated_at = unix now, ch_deleted_at = None\<rparr>"

definition put_secret :: "string \<Rightarrow> ChannelSecrets option \<Rightarrow> db \<Rightarrow> db" where
  "put_secret ref s d = d\<lparr>channel_secrets := (channel_secrets d)(ref := s)\<rparr>"

definition CreateChannel ::
  "(nat \<Rightarrow> string) \<Rightarrow> (string \<Rightarrow> bool) \<Rightarrow> bool \<Rightarrow> time \<Rightarrow> Channel \<Rightarrow> ChannelSecrets \<Rightarrow> db \<Rightarrow> db \<times> Channel result" where
  "CreateChannel rnd parse_addr keyed now c s d =
    (if live_channels d \<ge> 32 then (d, Inl (ErrMsg ''notification channel limit reached''))
     else
       (let (cid, d1) = (if chan_ID c = [] then newID rnd ''chn_'' d else (chan_ID c, d));
            c1 = channel_defaults cid c
        in case validateChannel parse_addr c1 s of
             Inl e \<Rightarrow> (d1, Inl e)
           | Inr _ \<Rightarrow>
               if \<not> keyed then (d1, Inl master_key_missing)
               else
                 (let d2 = put_secret (secret_ref cid) (Some s) d1
                  in case insert_channel (new_channel_row now c1) d2 of
                       Inl e \<Rightarrow> (put_secret (secret_ref cid) None d2, Inl e)
                     | Inr d3 \<Rightarrow>
                         (d3, Inr (c1\<lparr>chan_SecretConfigured := True, chan_CreatedAt := now, chan_UpdatedAt := now\<rparr>)))))"

definition apply_patch :: "SecretPatch \<Rightarrow> ChannelSecrets \<Rightarrow> ChannelSecrets" where
  "apply_patch p s =
    (let s = (case patch_URL p of None \<Rightarrow> s | Some x \<Rightarrow> s\<lparr>sec_URL := x\<rparr>);
         s = (case patch_BearerToken p of None \<Rightarrow> s | Some x \<Rightarrow> s\<lparr>sec_BearerToken := x\<rparr>);
         s = (case patch_SigningSecret p of None \<Rightarrow> s | Some x \<Rightarrow> s\<lparr>sec_SigningSecret := x\<rparr>);
         s = (case patch_Host p of None \<Rightarrow> s | Some x \<Rightarrow> s\<lparr>sec_Host := x\<rparr>);
         s = (case patch_Username p of None \<Rightarrow> s | Some x \<Rightarrow> s\<lparr>sec_Username := x\<rparr>);
         s = (case patch_Password p of None \<Rightarrow> s | Some x \<Rightarrow> s\<lparr>sec_Password := x\<rparr>);
         s = (case patch_Sender p of None \<Rightarrow> s | Some x \<Rightarrow> s\<lparr>sec_Sender := x\<rparr>)
     in case patch_Recipients p of None \<Rightarrow> s | Some x \<Rightarrow> s\<lparr>sec_Recipients := x\<rparr>)"

definition get_secret :: "bool \<Rightarrow> string \<Rightarrow> db \<Rightarrow> ChannelSecrets result" where
  "get_secret keyed ref d =
    (if \<not> keyed then Inl master_key_missing
     else case channel_secrets d ref of None \<Rightarrow> Inl secret_not_found | Some s \<Rightarrow> Inr s)"

definition PatchedSecrets :: "bool \<Rightarrow> string \<Rightarrow> SecretPatch \<Rightarrow> db \<Rightarrow> ChannelSecrets result" where
  "PatchedSecrets keyed i p d = bind_result (get_secret keyed (secret_ref i) d) (\<lambda>s. Inr (apply_patch p s))"

definition cancel_pending :: "time \<Rightarrow> string \<Rightarrow> db \<Rightarrow> db" where
  "cancel_pending now i d = d\<lparr>notification_deliveries :=
     upd_where (\<lambda>n. nd_channel_id n = i \<and> nd_status n = ''pending'') (cancel_delivery now) (notification_deliveries d)\<rparr>"

definition PatchChannel ::
  "(string \<Rightarrow> bool) \<Rightarrow> bool \<Rightarrow> time \<Rightarrow> string \<Rightarrow> Channel \<Rightarrow> SecretPatch \<Rightarrow> db \<Rightarrow> db \<times> Channel result" where
  "PatchChannel parse_addr keyed now i c p d =
    (case Channel_by_id i d of
       Inl e \<Rightarrow> (d, Inl e)
     | Inr old \<Rightarrow>
         (let c1 = c\<lparr>chan_Name := (if chan_Name c = [] then chan_Name old else chan_Name c),
                     chan_MinimumSeverity := (if chan_MinimumSeverity c = [] then chan_MinimumSeverity old else chan_MinimumSeverity c),
                     chan_Config := (case chan_Config c of None \<Rightarrow> chan_Config old | Some m \<Rightarrow> Some m),
                     chan_ID := i, chan_Kind := chan_Kind old\<rparr>
          in case get_secret keyed (secret_ref i) d of
               Inl e \<Rightarrow> (d, Inl e)
             | Inr s \<Rightarrow>
                 (case validateChannel parse_addr c1 (apply_patch p s) of
                    Inl e \<Rightarrow> (d, Inl e)
                  | Inr _ \<Rightarrow>
                      (let d1 = put_secret (secret_ref i) (Some (apply_patch p s)) d;
                           d2 = d1\<lparr>notification_channels := upd_where (\<lambda>r. ch_id r = i \<and> ch_deleted_at r = None)
                                  (\<lambda>r. r\<lparr>ch_name := chan_Name c1, ch_enabled := chan_Enabled c1,
                                         ch_minimum_severity := chan_MinimumSeverity c1,
                                         ch_notify_resolved := chan_NotifyResolved c1, ch_config := the (chan_Config c1),
                                         ch_updated_at := unix now\<rparr>) (notification_channels d1)\<rparr>;
                           d3 = (if chan_Enabled c1 then d2 else cancel_pending now i d2)
                       in (d3, Channel_by_id i d3)))))"

definition DeleteChannel :: "time \<Rightarrow> string \<Rightarrow> db \<Rightarrow> db result" where
  "DeleteChannel now i d =
    (if \<not> list_ex (\<lambda>r. ch_id r = i \<and> ch_deleted_at r = None) (notification_channels d) then Inl ErrNoRows
     else Inr (cancel_pending now i
       (d\<lparr>notification_channels := upd_where (\<lambda>r. ch_id r = i \<and> ch_deleted_at r = None)
          (\<lambda>r. r\<lparr>ch_enabled := False, ch_deleted_at := Some (unix now), ch_updated_at := unix now\<rparr>)
          (notification_channels d)\<rparr>)))"

definition scan_delivery :: "delivery_row \<Rightarrow> Delivery" where
  "scan_delivery n = \<lparr>del_ID = nd_id n, del_ChannelID = nd_channel_id n,
     del_IncidentID = (case nd_incident_id n of None \<Rightarrow> [] | Some i \<Rightarrow> i), del_EventType = nd_event_type n,
     del_IdempotencyKey = nd_idempotency_key n, del_Status = nd_status n, del_AttemptCount = nd_attempts n,
     del_NextAttemptAt = map_option from_unix (nd_next_attempt_at n),
     del_CompletedAt = map_option from_unix (nd_completed_at n),
     del_FailureCode = (case nd_failure_code n of None \<Rightarrow> [] | Some f \<Rightarrow> f), del_CreatedAt = from_unix (nd_created_at n)\<rparr>"

text \<open>A negative \<^verbatim>\<open>OFFSET\<close> counts as zero in SQLite.\<close>

definition Deliveries :: "string \<Rightarrow> int \<Rightarrow> int \<Rightarrow> db \<Rightarrow> Delivery list" where
  "Deliveries incident limit offset d =
    (let limit = (if limit < 1 \<or> limit > 100 then 50 else limit)
     in map scan_delivery (take (nat limit) (drop (nat offset)
          (sort_key (\<lambda>n. - nd_created_at n)
            (filter (\<lambda>n. incident = [] \<or> nd_incident_id n = Some incident) (notification_deliveries d))))))"

definition Retry :: "time \<Rightarrow> string \<Rightarrow> db \<Rightarrow> db result" where
  "Retry now i d =
    (if \<not> list_ex (\<lambda>n. nd_id n = i \<and> nd_status n = ''permanent_failure'') (notification_deliveries d) then Inl ErrNoRows
     else Inr (d\<lparr>notification_deliveries := upd_where (\<lambda>n. nd_id n = i \<and> nd_status n = ''permanent_failure'')
       (\<lambda>n. n\<lparr>nd_status := ''pending'', nd_attempts := 0, nd_started_at := None, nd_next_attempt_at := Some (unix now),
              nd_failure_code := None, nd_completed_at := None, nd_updated_at := unix now\<rparr>)
       (notification_deliveries d)\<rparr>))"

definition Test :: "(nat \<Rightarrow> string) \<Rightarrow> time \<Rightarrow> string \<Rightarrow> db \<Rightarrow> (string \<times> db) result" where
  "Test rnd now channelID d =
    bind_result (Channel_by_id channelID d) (\<lambda>c.
      (let (i, d1) = newID rnd ''del_'' d; (key, d2) = newID rnd ''idem_'' d1
       in bind_result (insert_delivery
            \<lparr>nd_id = i, nd_channel_id = chan_ID c, nd_incident_id = None, nd_event_type = ''test'',
             nd_payload = TestPayload i key, nd_idempotency_key = key, nd_status = ''pending'', nd_attempts = 0,
             nd_next_attempt_at = Some (unix now), nd_started_at = None, nd_completed_at = None, nd_failure_code = None,
             nd_created_at = unix now, nd_updated_at = unix now\<rparr> d2) (\<lambda>d3. Inr (i, d3))))"

definition Health_of :: "int \<Rightarrow> db \<Rightarrow> Health" where
  "Health_of dropped d =
    \<lparr>hl_QueueDepth = count_where (\<lambda>n. nd_status n = ''pending'') (notification_deliveries d),
     hl_PermanentFailures = count_where (\<lambda>n. nd_status n = ''permanent_failure'') (notification_deliveries d),
     hl_DroppedDeliveries = dropped,
     hl_LastSuccess =
       (case List.map_filter nd_completed_at (filter (\<lambda>n. nd_status n = ''succeeded'') (notification_deliveries d)) of
          [] \<Rightarrow> None | t # ts \<Rightarrow> Some (from_unix (fold max ts t)))\<rparr>"

subsection \<open>Incident listings\<close>

definition Incidents_list :: "string \<Rightarrow> string \<Rightarrow> int \<Rightarrow> int \<Rightarrow> db \<Rightarrow> Incident list" where
  "Incidents_list status severity limit offset d =
    (let limit = (if limit < 1 \<or> limit > 100 then 50 else limit);
         offset = (if offset < 0 then 0 else offset)
     in map (\<lambda>i. scanIncident i (members (in_id i) d) [])
          (take (nat limit) (drop (nat offset)
             (sort_key (\<lambda>i. (if in_status i = ''open'' then 0 else 1 :: int, if in_severity i = ''critical'' then 0 else 1 :: int, - in_opened_at i))
               (filter (\<lambda>i. (status = [] \<or> in_status i = status) \<and> (severity = [] \<or> in_severity i = severity)) (incidents d))))))"

definition incident_alerts_of :: "string \<Rightarrow> db \<Rightarrow> MemberAlert list" where
  "incident_alerts_of i d = map member_alert (sort_key al_started_at (members i d))"

definition Incident_by_id :: "string \<Rightarrow> db \<Rightarrow> (Incident \<times> Delivery list) result" where
  "Incident_by_id i d =
    (case find (\<lambda>r. in_id r = i) (incidents d) of
       None \<Rightarrow> Inl ErrNoRows
     | Some r \<Rightarrow> Inr (scanIncident r (members i d) (incident_alerts_of i d), Deliveries i 100 0 d))"

definition ExportIncidents :: "time \<Rightarrow> time \<Rightarrow> int \<Rightarrow> db \<Rightarrow> Incident list" where
  "ExportIncidents t0 t1 limit d =
    (let limit = (if limit < 1 \<or> limit > 10001 then 10001 else limit)
     in map (\<lambda>i. scanIncident i (members (in_id i) d) (incident_alerts_of (in_id i) d))
          (take (nat limit) (sort_key (\<lambda>i. (in_opened_at i, in_id i))
             (filter (\<lambda>i. unix t0 \<le> in_opened_at i \<and> in_opened_at i \<le> unix t1) (incidents d)))))"

subsection \<open>Properties\<close>


lemma Channel_by_id_Inl:
  assumes "\<And>m. m \<in> set (notification_channels d) \<Longrightarrow> ch_deleted_at m = None \<Longrightarrow> ch_id m \<noteq> i"
  shows "Channel_by_id i d = Inl ErrNoRows"
proof -
  have "find (\<lambda>x. chan_ID x = i) (Channels d) = None"
    using assms by (auto simp: find_None Channels_def scan_channel_def)
  then show ?thesis by (simp add: Channel_by_id_def)
qed

lemma validateChannel_stamps [simp]:
  "validateChannel pa (c\<lparr>chan_SecretConfigured := x, chan_CreatedAt := y, chan_UpdatedAt := z\<rparr>) s = validateChannel pa c s"
  unfolding validateChannel_def Let_def by (simp cong: if_cong)



text \<open>
  A creation that fails leaves the channels and every other secret as they were; when it
  fails because its identifier is already taken, the stored secret of the channel that has the
  identifier is gone: it was overwritten before the insert and deleted after it.
\<close>

theorem create_channel_duplicate:
  assumes "live_channels d < 32" "chan_ID c \<noteq> []" "c' \<in> set (notification_channels d)" "ch_id c' = chan_ID c"
    and "chan_MinimumSeverity c \<noteq> []" "chan_Config c = Some m" "validateChannel pa c s = Inr ()"
  shows "\<exists>e. snd (CreateChannel rnd pa True now c s d) = Inl e \<and>
             notification_channels (fst (CreateChannel rnd pa True now c s d)) = notification_channels d \<and>
             channel_secrets (fst (CreateChannel rnd pa True now c s d)) = (channel_secrets d)(secret_ref (chan_ID c) := None)"
proof -
  have ex: "list_ex (\<lambda>r. ch_id r = chan_ID c) (notification_channels d)" using assms(3,4) by (auto simp: list_ex_iff)
  have c1: "channel_defaults (chan_ID c) c = c" "ch_id (new_channel_row now c) = chan_ID c"
    using assms(5,6) by (cases c, simp add: channel_defaults_def, simp add: new_channel_row_def)
  show ?thesis using assms(1,2,5,6,7) ex
    by (simp add: CreateChannel_def Let_def insert_channel_def live_channels_def c1 put_secret_def)
qed

end
