(* ===== verification/Outbound.thy ===== *)
theory Outbound
  imports Binnacle_Base
begin

section \<open>The outbound policy\<close>

text \<open>
  \<^verbatim>\<open>internal/outbound/policy.go\<close>: which network addresses Binnacle may connect to. An address is
  its numeric value; the predicates of \<open>net/netip\<close> are written out. \<open>url.Parse\<close>, the DNS
  resolver (whose answers carry no IPv6 zone) and the dialer are parameters.
\<close>

datatype Addr = AddrInvalid | V4 int | V6 int

definition Unmap :: "Addr \<Rightarrow> Addr" where
  "Unmap a = (case a of V6 n \<Rightarrow> if n div 2 ^ 32 = 65535 then V4 (n mod 2 ^ 32) else V6 n | _ \<Rightarrow> a)"

definition ipv4 :: "int \<Rightarrow> int \<Rightarrow> int \<Rightarrow> int \<Rightarrow> Addr" where
  "ipv4 a b c d = V4 (((a * 256 + b) * 256 + c) * 256 + d)"

definition IsUnspecified :: "Addr \<Rightarrow> bool" where
  "IsUnspecified a = (a = V4 0 \<or> a = V6 0)"

definition IsLoopback :: "Addr \<Rightarrow> bool" where
  "IsLoopback a = (case a of V4 n \<Rightarrow> n div 2 ^ 24 = 127 | V6 n \<Rightarrow> n = 1 | AddrInvalid \<Rightarrow> False)"

definition IsLinkLocalUnicast :: "Addr \<Rightarrow> bool" where
  "IsLinkLocalUnicast a =
    (case a of V4 n \<Rightarrow> n div 2 ^ 16 = 169 * 256 + 254 | V6 n \<Rightarrow> n div 2 ^ 118 = 0xFE80 div 2 ^ 6 | AddrInvalid \<Rightarrow> False)"

definition IsMulticast :: "Addr \<Rightarrow> bool" where
  "IsMulticast a = (case a of V4 n \<Rightarrow> n div 2 ^ 28 = 14 | V6 n \<Rightarrow> n div 2 ^ 120 = 255 | AddrInvalid \<Rightarrow> False)"

definition IsLinkLocalMulticast :: "Addr \<Rightarrow> bool" where
  "IsLinkLocalMulticast a =
    (case a of V4 n \<Rightarrow> n div 2 ^ 8 = 224 * 2 ^ 16 | V6 n \<Rightarrow> n div 2 ^ 120 = 255 \<and> (n div 2 ^ 112) mod 16 = 2 | AddrInvalid \<Rightarrow> False)"

definition IsPrivate :: "Addr \<Rightarrow> bool" where
  "IsPrivate a =
    (case a of
       V4 n \<Rightarrow> n div 2 ^ 24 = 10 \<or> n div 2 ^ 20 = 172 * 16 + 1 \<or> n div 2 ^ 16 = 192 * 256 + 168
     | V6 n \<Rightarrow> n div 2 ^ 121 = 0xFC div 2 | AddrInvalid \<Rightarrow> False)"

definition IsGlobalUnicast :: "Addr \<Rightarrow> bool" where
  "IsGlobalUnicast a =
    (a \<noteq> AddrInvalid \<and> a \<noteq> V4 0 \<and> a \<noteq> V4 (2 ^ 32 - 1) \<and> a \<noteq> V6 0 \<and>
     \<not> IsLoopback a \<and> \<not> IsMulticast a \<and> \<not> IsLinkLocalUnicast a)"

definition metadataAddresses :: "Addr list" where
  "metadataAddresses = [ipv4 169 254 169 254, ipv4 100 100 100 200, V6 (0xFD000EC2 * 2 ^ 96 + 0x254)]"

definition Allowed :: "bool \<Rightarrow> Addr \<Rightarrow> bool" where
  "Allowed allowPrivate addr =
    (let addr = Unmap addr
     in if addr = AddrInvalid \<or> \<not> IsGlobalUnicast addr \<or> IsUnspecified addr \<or> IsLoopback addr \<or>
           IsLinkLocalUnicast addr \<or> IsLinkLocalMulticast addr \<or> IsMulticast addr then False
        else if addr \<in> set metadataAddresses then False
        else allowPrivate \<or> \<not> IsPrivate addr)"

text \<open>
  An error of the network, by what \<open>errors.Is\<close> and \<open>errors.As\<close> find in it, and its text.
\<close>

record net_error =
  ne_deadline :: bool
  ne_dns :: bool
  ne_certificate :: bool
  ne_blocked :: bool
  ne_text :: string

datatype outbound_error = ErrBlocked | ErrDNS | ErrAddress string | ErrDial net_error

definition as_net_error :: "outbound_error \<Rightarrow> net_error" where
  "as_net_error e =
    (let plain = \<lparr>ne_deadline = False, ne_dns = False, ne_certificate = False, ne_blocked = False, ne_text = []\<rparr>
     in case e of
          ErrBlocked \<Rightarrow> plain\<lparr>ne_blocked := True, ne_text := ''outbound target is blocked''\<rparr>
        | ErrDNS \<Rightarrow> plain\<lparr>ne_text := ''outbound target DNS lookup failed''\<rparr>
        | ErrAddress t \<Rightarrow> plain\<lparr>ne_text := t\<rparr>
        | ErrDial n \<Rightarrow> n)"

definition Resolve :: "bool \<Rightarrow> (string \<Rightarrow> Addr list option) \<Rightarrow> string \<Rightarrow> outbound_error + Addr list" where
  "Resolve allowPrivate lookup host =
    (let host = to_lower (trim_suffix host ''.'')
     in if host = ''localhost'' \<or> has_suffix host ''.localhost'' then Inl ErrBlocked
        else case lookup host of
               None \<Rightarrow> Inl ErrDNS
             | Some addrs \<Rightarrow>
                 if addrs = [] then Inl ErrDNS
                 else if list_all (Allowed allowPrivate) addrs then Inr addrs
                 else Inl ErrBlocked)"

record url =
  url_Scheme :: string
  url_Hostname :: string
  url_HasUser :: bool

definition ValidateURL ::
  "bool \<Rightarrow> (string \<Rightarrow> url option) \<Rightarrow> (string \<Rightarrow> Addr list option) \<Rightarrow> string \<Rightarrow> string list \<Rightarrow> outbound_error + url" where
  "ValidateURL allowPrivate parse lookup raw schemes =
    (case parse raw of
       None \<Rightarrow> Inl ErrBlocked
     | Some u \<Rightarrow>
         if url_Hostname u = [] \<or> url_HasUser u then Inl ErrBlocked
         else if \<not> list_ex (\<lambda>s. url_Scheme u = s) schemes then Inl ErrBlocked
         else case Resolve allowPrivate lookup (url_Hostname u) of Inl e \<Rightarrow> Inl e | Inr _ \<Rightarrow> Inr u)"

text \<open>The dialing loop, with the addresses it tried.\<close>

fun dial_loop :: "(Addr \<Rightarrow> string \<Rightarrow> net_error + 'conn) \<Rightarrow> string \<Rightarrow> outbound_error \<Rightarrow> Addr list \<Rightarrow> Addr list \<times> (outbound_error + 'conn)" where
  "dial_loop dial port lst [] = ([], Inl lst)"
| "dial_loop dial port lst (a # as) =
    (case dial a port of
       Inr conn \<Rightarrow> ([a], Inr conn)
     | Inl e \<Rightarrow> (case dial_loop dial port (ErrDial e) as of (tried, r) \<Rightarrow> (a # tried, r)))"

definition DialContext ::
  "bool \<Rightarrow> (string \<Rightarrow> Addr list option) \<Rightarrow> (string \<Rightarrow> string + (string \<times> string)) \<Rightarrow> (Addr \<Rightarrow> string \<Rightarrow> net_error + 'conn) \<Rightarrow> string \<Rightarrow>
   Addr list \<times> (outbound_error + 'conn)" where
  "DialContext allowPrivate lookup splitHostPort dial address =
    (case splitHostPort address of
       Inl text \<Rightarrow> ([], Inl (ErrAddress text))
     | Inr (host, port) \<Rightarrow>
         (case Resolve allowPrivate lookup host of
            Inl e \<Rightarrow> ([], Inl e)
          | Inr addrs \<Rightarrow> dial_loop dial port ErrDNS addrs))"

lemma dial_loop_subset: "set (fst (dial_loop dial port lst as)) \<subseteq> set as"
  by (induction dial port lst as rule: dial_loop.induct) (auto split: sum.splits prod.splits)

lemma Resolve_Inr: "Resolve ap lookup host = Inr addrs \<Longrightarrow> addrs \<noteq> [] \<and> list_all (Allowed ap) addrs"
  by (auto simp: Resolve_def Let_def split: if_splits option.splits)

lemma Allowed_public:
  "Allowed ap a \<Longrightarrow> \<not> IsLoopback (Unmap a) \<and> \<not> IsLinkLocalUnicast (Unmap a) \<and> \<not> IsUnspecified (Unmap a) \<and>
     \<not> IsMulticast (Unmap a) \<and> Unmap a \<notin> set metadataAddresses \<and> (IsPrivate (Unmap a) \<longrightarrow> ap)"
  by (auto simp: Allowed_def Let_def split: if_splits)

text \<open>
  C9. Whatever the resolver answers, and also when its answer differs from the one given at
  configuration time, the dialer is only ever asked to connect to addresses that are, after
  unmapping IPv4-mapped addresses, neither loopback nor link-local nor unspecified nor
  multicast nor a cloud metadata address, and that are private only when the policy allows it;
  when one resolved address is not allowed, nothing is dialled at all.
\<close>

theorem dial_only_allowed:
  "(\<forall>a \<in> set (fst (DialContext ap lookup shp dial address)).
      \<not> IsLoopback (Unmap a) \<and> \<not> IsLinkLocalUnicast (Unmap a) \<and> \<not> IsUnspecified (Unmap a) \<and>
      \<not> IsMulticast (Unmap a) \<and> Unmap a \<notin> set metadataAddresses \<and> (IsPrivate (Unmap a) \<longrightarrow> ap)) \<and>
   (\<forall>host port as. shp address = Inr (host, port) \<longrightarrow> lookup (to_lower (trim_suffix host ''.'')) = Some as \<longrightarrow>
      (\<exists>a \<in> set as. \<not> Allowed ap a) \<longrightarrow> fst (DialContext ap lookup shp dial address) = [])"
proof (intro conjI ballI allI impI)
  have tried: "\<forall>a \<in> set (fst (DialContext ap lookup shp dial address)). Allowed ap a"
  proof (cases "shp address")
    case shp: (Inr hp)
    obtain host port where hp: "hp = (host, port)" by force
    show ?thesis
    proof (cases "Resolve ap lookup host")
      case (Inr addrs)
      then show ?thesis
        using Resolve_Inr [OF Inr] dial_loop_subset [of dial port ErrDNS addrs]
        by (auto simp: DialContext_def shp hp list_all_iff)
    qed (simp add: DialContext_def shp hp)
  qed (simp add: DialContext_def)
  fix a assume a: "a \<in> set (fst (DialContext ap lookup shp dial address))"
  note pub = Allowed_public [OF tried [rule_format, OF a]]
  show "\<not> IsLoopback (Unmap a)" "\<not> IsLinkLocalUnicast (Unmap a)" "\<not> IsUnspecified (Unmap a)"
    "\<not> IsMulticast (Unmap a)" "Unmap a \<notin> set metadataAddresses" using pub by simp_all
  show ap if "IsPrivate (Unmap a)" using pub that by simp
next
  fix host port as
  assume "shp address = Inr (host, port)" "lookup (to_lower (trim_suffix host ''.'')) = Some as"
    "\<exists>a \<in> set as. \<not> Allowed ap a"
  moreover from this(3) have "as \<noteq> []" "\<not> list_all (Allowed ap) as" by (auto simp: list_all_iff)
  ultimately show "fst (DialContext ap lookup shp dial address) = []"
    by (simp add: DialContext_def Resolve_def Let_def)
qed

definition sample_lookup :: "string \<Rightarrow> Addr list option" where
  "sample_lookup host = (if host = ''rebind.example'' then Some [ipv4 93 184 216 34, V6 (0xFFFF * 2 ^ 32 + 127 * 2 ^ 24 + 1)]
     else Some [ipv4 93 184 216 34])"

theorem dial_only_allowed_witness:
  "fst (DialContext False sample_lookup (\<lambda>a. Inr (a, ''443'')) (\<lambda>a p. Inr a) ''rebind.example'') = [] \<and>
   fst (DialContext False sample_lookup (\<lambda>a. Inr (a, ''443'')) (\<lambda>a p. Inr a) ''example.org'') = [ipv4 93 184 216 34] \<and>
   \<not> IsLoopback (Unmap (ipv4 93 184 216 34))"
proof -
  have l: "sample_lookup (to_lower (trim_suffix ''rebind.example'' ''.'')) =
      Some [ipv4 93 184 216 34, V6 (0xFFFF * 2 ^ 32 + 127 * 2 ^ 24 + 1)]" by code_simp
  have n: "\<not> Allowed False (V6 (0xFFFF * 2 ^ 32 + 127 * 2 ^ 24 + 1))" by code_simp
  have 1: "fst (DialContext False sample_lookup (\<lambda>a. Inr (a, ''443'')) (\<lambda>a p. Inr a) ''rebind.example'') = []"
    by (rule dial_only_allowed [THEN conjunct2, rule_format, of "\<lambda>a. Inr (a, ''443'')" "''rebind.example''" _ _ sample_lookup, OF _ l])
       (use n in simp_all)
  have 2: "fst (DialContext False sample_lookup (\<lambda>a. Inr (a, ''443'')) (\<lambda>a p. Inr a) ''example.org'') = [ipv4 93 184 216 34]"
    by code_simp
  have "ipv4 93 184 216 34 \<in> set (fst (DialContext False sample_lookup (\<lambda>a. Inr (a, ''443'')) (\<lambda>a p. Inr a) ''example.org''))"
    unfolding 2 by simp
  from dial_only_allowed [THEN conjunct1, rule_format, OF this] 1 2 show ?thesis by simp
qed

end
