(* ===== verification/Delivery_Worker.thy ===== *)
theory Delivery_Worker
  imports Channels Outbound
begin

section \<open>The delivery worker\<close>

text \<open>
  \<^verbatim>\<open>internal/notifications/worker.go\<close>: the dispatcher that queues due deliveries, the runners that
  claim and deliver them, the webhook and SMTP transports, and the retry schedule. The
  network, the resolver, \<open>mail.ParseAddress\<close>, the HMAC, the JSON encoding and the HTTP date
  parser are fields of \<open>net_env\<close>. A goroutine of \<open>run\<close> is a \<open>runner\<close>: its value says which
  statement of \<open>deliver\<close> or \<open>finish\<close> comes next, so that the database statements of several
  runners interleave.
\<close>

record WorkerConfig =
  cfg_MaxConcurrency :: int
  cfg_QueueCapacity :: int
  cfg_DeliveryTimeout :: duration
  cfg_ReminderInterval :: duration
  cfg_AllowPrivate :: bool

definition retryDelays :: "duration list" where
  "retryDelays = [minutes 1, minutes 5, minutes 15, hours 1, hours 4, hours 12]"

definition NewWorker :: "WorkerConfig \<Rightarrow> WorkerConfig" where
  "NewWorker c =
    (let c = (if cfg_MaxConcurrency c \<le> 0 then c\<lparr>cfg_MaxConcurrency := 4\<rparr> else c);
         c = (if cfg_QueueCapacity c \<le> 0 then c\<lparr>cfg_QueueCapacity := 1000\<rparr> else c);
         c = (if cfg_DeliveryTimeout c \<le> 0 then c\<lparr>cfg_DeliveryTimeout := seconds 15\<rparr> else c)
     in if cfg_ReminderInterval c \<le> 0 then c\<lparr>cfg_ReminderInterval := hours 2\<rparr> else c)"

subsection \<open>Transports\<close>

record http_request =
  req_URL :: string
  req_Body :: string
  req_Headers :: "(string \<times> string) list"

record http_response =
  resp_StatusCode :: int
  resp_RetryAfter :: string

datatype smtp_error = Textproto int | SmtpNetwork net_error

text \<open>The replies of the mail server, command by command.\<close>

record smtp_session =
  ss_handshake :: "net_error option"
  ss_new_client :: "smtp_error option"
  ss_starttls :: "smtp_error option"
  ss_auth :: "string \<Rightarrow> string \<Rightarrow> smtp_error option"
  ss_mail :: "string \<Rightarrow> smtp_error option"
  ss_rcpt :: "string \<Rightarrow> smtp_error option"
  ss_data :: "smtp_error option"
  ss_write :: "string \<Rightarrow> smtp_error option"
  ss_close :: "smtp_error option"
  ss_quit :: "smtp_error option"

record net_env =
  env_lookup :: "string \<Rightarrow> Addr list option"
  env_parse_url :: "string \<Rightarrow> url option"
  env_split_host_port :: "string \<Rightarrow> string + string \<times> string"
  env_new_request :: "string \<Rightarrow> bool"
  env_http :: "http_request \<Rightarrow> net_error + http_response"
  env_parse_time :: "string \<Rightarrow> time option"
  env_dial :: "Addr \<Rightarrow> string \<Rightarrow> net_error + smtp_session"
  env_parse_addr :: "string \<Rightarrow> string option"
  env_hmac :: "string \<Rightarrow> string \<Rightarrow> string"
  env_json :: "Payload \<Rightarrow> string"
  env_rfc3339 :: "time \<Rightarrow> string"

definition ValidateChannel :: "net_env \<Rightarrow> bool \<Rightarrow> Channel \<Rightarrow> ChannelSecrets \<Rightarrow> unit result" where
  "ValidateChannel env allowPrivate c s =
    bind_result (validateChannel (\<lambda>a. env_parse_addr env a \<noteq> None) c s) (\<lambda>_.
      if chan_Kind c = ''webhook'' then
        (case ValidateURL allowPrivate (env_parse_url env) (env_lookup env) (sec_URL s) [''https''] of
           Inl _ \<Rightarrow> Inl (ErrMsg ''webhook target is blocked'') | Inr _ \<Rightarrow> Inr ())
      else
        (case env_split_host_port env (sec_Host s) of
           Inl _ \<Rightarrow> Inl (ErrMsg ''SMTP host must include a port'')
         | Inr (host, _) \<Rightarrow>
             (case Resolve allowPrivate (env_lookup env) host of
                Inl _ \<Rightarrow> Inl (ErrMsg ''SMTP target is blocked'') | Inr _ \<Rightarrow> Inr ())))"

definition classifyNetwork :: "net_error \<Rightarrow> string" where
  "classifyNetwork e =
    (if ne_deadline e then ''timeout''
     else if ne_dns e then ''dns_failure''
     else if ne_certificate e \<or> contains (to_lower (ne_text e)) ''tls'' then ''tls_failure''
     else if ne_blocked e then ''target_blocked''
     else ''network_failure'')"

definition parseRetryAfter :: "net_env \<Rightarrow> time \<Rightarrow> string \<Rightarrow> duration" where
  "parseRetryAfter env now v =
    (case atoi (trim_space v) of
       Some s \<Rightarrow>
         if s > 0 then min (wrap64 (s * seconds 1)) (hours 1)
         else (case env_parse_time env v of Some t \<Rightarrow> min (max (time_sub t now) 0) (hours 1) | None \<Rightarrow> 0)
     | None \<Rightarrow> (case env_parse_time env v of Some t \<Rightarrow> min (max (time_sub t now) 0) (hours 1) | None \<Rightarrow> 0))"

record deliveryRow =
  dr_id :: string
  dr_channelID :: string
  dr_event :: string
  dr_payload :: Payload
  dr_key :: string
  dr_kind :: string
  dr_config :: config
  dr_secretRef :: string
  dr_attempt :: int

definition webhook_request :: "net_env \<Rightarrow> deliveryRow \<Rightarrow> ChannelSecrets \<Rightarrow> http_request" where
  "webhook_request env d s =
    (let body = env_json env (dr_payload d)
     in \<lparr>req_URL = sec_URL s, req_Body = body,
         req_Headers = [(''Content-Type'', ''application/json''), (''Idempotency-Key'', dr_key d),
             (''User-Agent'', ''Binnacle-Notifications/1'')] @
           (if sec_BearerToken s \<noteq> [] then [(''Authorization'', ''Bearer '' @ sec_BearerToken s)] else []) @
           (if sec_SigningSecret s \<noteq> []
            then [(''X-Binnacle-Signature'', ''sha256='' @ env_hmac env (sec_SigningSecret s) body)] else [])\<rparr>)"

definition webhook :: "net_env \<Rightarrow> bool \<Rightarrow> time \<Rightarrow> deliveryRow \<Rightarrow> ChannelSecrets \<Rightarrow> bool \<times> string \<times> duration" where
  "webhook env allowPrivate now d s =
    (case ValidateURL allowPrivate (env_parse_url env) (env_lookup env) (sec_URL s) [''https''] of
       Inl _ \<Rightarrow> (False, ''target_blocked'', 0)
     | Inr u \<Rightarrow>
         if \<not> env_new_request env (sec_URL s) then (False, ''invalid_configuration'', 0)
         else case env_http env (webhook_request env d s) of
                Inl e \<Rightarrow> (True, classifyNetwork e, 0)
              | Inr resp \<Rightarrow>
                  (let code = resp_StatusCode resp; retry = (code = 408 \<or> code = 425 \<or> code = 429 \<or> code \<ge> 500)
                   in if 200 \<le> code \<and> code < 300 then (False, [], 0)
                      else (retry, ''http_'' @ show_int code,
                            if retry then parseRetryAfter env now (resp_RetryAfter resp) else 0)))"

definition smtpRetry :: "smtp_error \<Rightarrow> bool" where
  "smtpRetry e = (case e of Textproto c \<Rightarrow> 400 \<le> c \<and> c < 500 | SmtpNetwork _ \<Rightarrow> True)"

definition smtpCode :: "smtp_error \<Rightarrow> string" where
  "smtpCode e = (case e of Textproto c \<Rightarrow> ''smtp_'' @ show_int c | SmtpNetwork n \<Rightarrow> classifyNetwork n)"

definition addressOnly :: "net_env \<Rightarrow> string \<Rightarrow> string" where
  "addressOnly env v = (case env_parse_addr env v of None \<Rightarrow> v | Some a \<Rightarrow> a)"

definition crlf :: string where
  "crlf = [CHR 0x0D, CHR 0x0A]"

definition nl :: string where
  "nl = [CHR 0x0A]"

definition plainText :: "net_env \<Rightarrow> Payload \<Rightarrow> string" where
  "plainText env p =
    (case p of
       TestPayload _ _ \<Rightarrow> ''Binnacle test notification.''
     | IncidentPayload e _ _ i \<Rightarrow>
         if e = ''test'' then ''Binnacle test notification.''
         else ''Incident '' @ e @ nl @ nl @ inc_Title i @ nl @ ''Status: '' @ inc_Status i @ nl @ ''Severity: '' @ inc_Severity i @ nl @
              ''Target: '' @ inc_TargetType i @ '' '' @ inc_TargetID i @ nl @ ''Alerts: '' @ show_nat (inc_AlertCount i) @ '' ('' @
              show_nat (inc_FiringCount i) @ '' firing)'' @ nl @ ''Opened: '' @ env_rfc3339 env (inc_OpenedAt i))"

fun join :: "string \<Rightarrow> string list \<Rightarrow> string" where
  "join sep [] = []"
| "join sep [s] = s"
| "join sep (s # t # ss) = s @ sep @ join sep (t # ss)"

definition mail_message :: "net_env \<Rightarrow> deliveryRow \<Rightarrow> ChannelSecrets \<Rightarrow> string" where
  "mail_message env d s =
    ''From: '' @ sec_Sender s @ crlf @ ''To: '' @ join '', '' (sec_Recipients s) @ crlf @
    ''Subject: Binnacle incident notification'' @ crlf @ ''Message-ID: <'' @ dr_key d @ ''@binnacle.local>'' @ crlf @
    ''MIME-Version: 1.0'' @ crlf @ ''Content-Type: text/plain; charset=UTF-8'' @ crlf @ crlf @
    plainText env (dr_payload d) @ crlf"

fun first_error :: "('a \<Rightarrow> 'e option) \<Rightarrow> 'a list \<Rightarrow> 'e option" where
  "first_error f [] = None"
| "first_error f (x # xs) = (case f x of Some e \<Rightarrow> Some e | None \<Rightarrow> first_error f xs)"

text \<open>Everything after the greeting, in the order of the commands.\<close>

definition smtp_transaction :: "net_env \<Rightarrow> deliveryRow \<Rightarrow> ChannelSecrets \<Rightarrow> smtp_session \<Rightarrow> smtp_error option" where
  "smtp_transaction env d s c =
    first_error (\<lambda>step. step ())
      ([\<lambda>_. if sec_Username s \<noteq> [] then ss_auth c (sec_Username s) (sec_Password s) else None,
        \<lambda>_. ss_mail c (addressOnly env (sec_Sender s))] @
       map (\<lambda>rcpt _. ss_rcpt c (addressOnly env rcpt)) (sec_Recipients s) @
       [\<lambda>_. ss_data c,
        \<lambda>_. (case ss_write c (mail_message env d s) of Some e \<Rightarrow> Some e | None \<Rightarrow> ss_close c),
        \<lambda>_. ss_quit c])"

definition email :: "net_env \<Rightarrow> bool \<Rightarrow> deliveryRow \<Rightarrow> ChannelSecrets \<Rightarrow> bool \<times> string" where
  "email env allowPrivate d s =
    (case env_split_host_port env (sec_Host s) of
       Inl _ \<Rightarrow> (False, ''invalid_configuration'')
     | Inr (host, port) \<Rightarrow>
         if host = [] \<or> port = [] \<or> length (sec_Recipients s) < 1 \<or> length (sec_Recipients s) > 20 then (False, ''invalid_configuration'')
         else if (case Resolve allowPrivate (env_lookup env) host of Inl _ \<Rightarrow> True | Inr _ \<Rightarrow> False) then (False, ''target_blocked'')
         else if env_parse_addr env (sec_Sender s) = None then (False, ''invalid_configuration'')
         else if list_ex (\<lambda>r. env_parse_addr env r = None) (sec_Recipients s) then (False, ''invalid_configuration'')
         else
           (let mode = (case dr_config d ''tlsMode'' of Some (JStr m) \<Rightarrow> m | _ \<Rightarrow> [])
            in case snd (DialContext allowPrivate (env_lookup env) (env_split_host_port env) (env_dial env) (sec_Host s)) of
                 Inl e \<Rightarrow> (True, classifyNetwork (as_net_error e))
               | Inr c \<Rightarrow>
                   if mode = ''implicit'' \<and> ss_handshake c \<noteq> None then (True, ''tls_failure'')
                   else if mode \<noteq> ''implicit'' \<and> mode \<noteq> ''starttls'' then (False, ''invalid_configuration'')
                   else
                     (let client = (case ss_new_client c of
                                      Some e \<Rightarrow> Some e | None \<Rightarrow> if mode = ''starttls'' then ss_starttls c else None);
                          err = (case client of Some e \<Rightarrow> Some e | None \<Rightarrow> smtp_transaction env d s c)
                      in case err of Some e \<Rightarrow> (smtpRetry e, smtpCode e) | None \<Rightarrow> (False, []))))"

subsection \<open>Claiming and finishing a delivery\<close>

definition retryDelay :: "int \<Rightarrow> bool \<Rightarrow> duration \<Rightarrow> duration option" where
  "retryDelay attempt retryable retryAfter =
    (if \<not> retryable \<or> attempt < 1 \<or> attempt > int (length retryDelays) then None
     else (let delay = retryDelays ! nat (attempt - 1)
           in Some (if retryAfter > delay then min retryAfter (hours 1) else delay)))"

text \<open>Comparison with a NULL incident is never true.\<close>

definition same_thread :: "delivery_row \<Rightarrow> delivery_row \<Rightarrow> bool" where
  "same_thread a b = (nd_channel_id a = nd_channel_id b \<and> nd_incident_id a \<noteq> None \<and> nd_incident_id a = nd_incident_id b)"

definition due_now :: "time \<Rightarrow> delivery_row \<Rightarrow> bool" where
  "due_now now n = (nd_status n = ''pending'' \<and> (case nd_next_attempt_at n of None \<Rightarrow> False | Some t \<Rightarrow> t \<le> unix now))"

definition claimable :: "time \<Rightarrow> string \<Rightarrow> delivery_row list \<Rightarrow> delivery_row \<Rightarrow> bool" where
  "claimable now i t n = (nd_id n = i \<and> due_now now n \<and>
     \<not> list_ex (\<lambda>a. same_thread a n \<and> nd_id a \<noteq> nd_id n \<and> nd_status a = ''in_progress'') t)"

definition claim :: "time \<Rightarrow> string \<Rightarrow> db \<Rightarrow> bool \<times> db" where
  "claim now i d =
    (let t = notification_deliveries d
     in (list_ex (claimable now i t) t,
         d\<lparr>notification_deliveries := upd_where (claimable now i t)
            (\<lambda>n. n\<lparr>nd_status := ''in_progress'', nd_started_at := Some (unix now), nd_updated_at := unix now\<rparr>) t\<rparr>))"

definition load_delivery :: "string \<Rightarrow> db \<Rightarrow> deliveryRow option" where
  "load_delivery i d =
    (case find (\<lambda>n. nd_id n = i) (notification_deliveries d) of
       None \<Rightarrow> None
     | Some n \<Rightarrow>
         (case find (\<lambda>c. ch_id c = nd_channel_id n \<and> active_channel c) (notification_channels d) of
            None \<Rightarrow> None
          | Some c \<Rightarrow> Some \<lparr>dr_id = nd_id n, dr_channelID = nd_channel_id n, dr_event = nd_event_type n,
              dr_payload = nd_payload n, dr_key = nd_idempotency_key n, dr_kind = ch_kind c, dr_config = ch_config c,
              dr_secretRef = ch_secret_ref c, dr_attempt = nd_attempts n\<rparr>))"

text \<open>The arguments of \<open>finish\<close> after its identifier: success, retryable, code, retryAfter.\<close>

record delivery_result =
  res_success :: bool
  res_retryable :: bool
  res_code :: string
  res_retryAfter :: duration

definition failed :: "string \<Rightarrow> delivery_result" where
  "failed code = \<lparr>res_success = False, res_retryable = False, res_code = code, res_retryAfter = 0\<rparr>"

definition transport :: "net_env \<Rightarrow> bool \<Rightarrow> bool \<Rightarrow> time \<Rightarrow> deliveryRow \<Rightarrow> db \<Rightarrow> delivery_result" where
  "transport env allowPrivate keyed now r d =
    (case get_secret keyed (dr_secretRef r) d of
       Inl e \<Rightarrow> failed (if e = master_key_missing then ''master_key_missing'' else ''secret_unavailable'')
     | Inr s \<Rightarrow>
         if dr_kind r = ''webhook'' then
           (case webhook env allowPrivate now r s of (retryable, code, after) \<Rightarrow>
              \<lparr>res_success = (code = []), res_retryable = retryable, res_code = code, res_retryAfter = after\<rparr>)
         else if dr_kind r = ''smtp'' then
           (case email env allowPrivate r s of (retryable, code) \<Rightarrow>
              \<lparr>res_success = (code = []), res_retryable = retryable, res_code = code, res_retryAfter = 0\<rparr>)
         else failed ''invalid_configuration'')"

definition next_attempt :: "string \<Rightarrow> db \<Rightarrow> int option" where
  "next_attempt i d = map_option (\<lambda>n. nd_attempts n + 1) (find (\<lambda>n. nd_id n = i) (notification_deliveries d))"

definition finished_row :: "time \<Rightarrow> int \<Rightarrow> delivery_result \<Rightarrow> delivery_row \<Rightarrow> delivery_row" where
  "finished_row now attempts r n =
    (if res_success r
     then n\<lparr>nd_status := ''succeeded'', nd_attempts := attempts, nd_completed_at := Some (unix now),
            nd_next_attempt_at := None, nd_failure_code := None, nd_updated_at := unix now\<rparr>
     else case retryDelay attempts (res_retryable r) (res_retryAfter r) of
            Some delay \<Rightarrow> n\<lparr>nd_status := ''pending'', nd_attempts := attempts, nd_started_at := None,
               nd_next_attempt_at := Some (unix (now + delay)), nd_failure_code := Some (res_code r), nd_updated_at := unix now\<rparr>
          | None \<Rightarrow> n\<lparr>nd_status := ''permanent_failure'', nd_attempts := attempts, nd_completed_at := Some (unix now),
               nd_next_attempt_at := None, nd_failure_code := Some (res_code r), nd_updated_at := unix now\<rparr>)"

definition record_result :: "time \<Rightarrow> string \<Rightarrow> int \<Rightarrow> delivery_result \<Rightarrow> db \<Rightarrow> db" where
  "record_result now i attempts r d =
    d\<lparr>notification_deliveries := upd_where (\<lambda>n. nd_id n = i) (finished_row now attempts r) (notification_deliveries d)\<rparr>"

definition finish :: "time \<Rightarrow> string \<Rightarrow> delivery_result \<Rightarrow> db \<Rightarrow> db" where
  "finish now i r d = (case next_attempt i d of None \<Rightarrow> d | Some attempts \<Rightarrow> record_result now i attempts r d)"

text \<open>\<open>deliver\<close> when no other statement intervenes.\<close>

definition deliver :: "net_env \<Rightarrow> bool \<Rightarrow> bool \<Rightarrow> time \<Rightarrow> string \<Rightarrow> db \<Rightarrow> db" where
  "deliver env allowPrivate keyed now i d =
    (case claim now i d of (claimed, d1) \<Rightarrow>
       if \<not> claimed then d1
       else case load_delivery i d1 of
              None \<Rightarrow> finish now i (failed ''channel_unavailable'') d1
            | Some r \<Rightarrow> finish now i (transport env allowPrivate keyed now r d1) d1)"

subsection \<open>The queue and the runners\<close>

datatype runner =
    Idle
  | Picked (held: string)
  | Claimed (held: string)
  | Loaded (held: string) deliveryRow
  | Finishing (held: string) delivery_result
  | Counted (held: string) int delivery_result
  | Releasing (held: string)

record Worker =
  wk_queue :: "string list"
  wk_queued :: "string set"
  wk_dropped :: int
  wk_runners :: "runner list"

definition recordOverflow :: "time \<Rightarrow> db \<Rightarrow> db" where
  "recordOverflow now d =
    (let i = ''notification-overflow-'' @ show_int (trunc_div (unix now) 60)
     in d\<lparr>events := insert_ignore (\<lambda>e. ev_id e = i)
          \<lparr>ev_id = i, ev_ts = unix_milli now, ev_resource_id = None, ev_type = ''notification_queue_overflow'',
           ev_severity = ''warning'', ev_summary = ''Notification queue capacity exceeded'',
           ev_correlation_key = ''notifications:overflow'', ev_source = ''notifications'',
           ev_created_at = unix_milli now\<rparr> (events d)\<rparr>)"

definition enqueue_one :: "int \<Rightarrow> time \<Rightarrow> string \<Rightarrow> Worker \<times> db \<Rightarrow> Worker \<times> db" where
  "enqueue_one capacity now i wd =
    (case wd of (w, d) \<Rightarrow>
       if i \<in> wk_queued w then (w, d)
       else if int (length (wk_queue w)) < capacity
       then (w\<lparr>wk_queued := insert i (wk_queued w), wk_queue := wk_queue w @ [i]\<rparr>, d)
       else (w\<lparr>wk_dropped := wrap64 (wk_dropped w + 1)\<rparr>, recordOverflow now d))"

definition enqueueDue :: "int \<Rightarrow> time \<Rightarrow> string list \<Rightarrow> Worker \<times> db \<Rightarrow> Worker \<times> db" where
  "enqueueDue capacity now ids wd = fold (enqueue_one capacity now) ids wd"

definition due_deliveries :: "WorkerConfig \<Rightarrow> time \<Rightarrow> db \<Rightarrow> string list" where
  "due_deliveries c now d =
    (let t = notification_deliveries d
     in map nd_id (take (nat (cfg_QueueCapacity c + 1)) (sort_key (\<lambda>n. the (nd_next_attempt_at n))
          (filter (\<lambda>n. due_now now n \<and> \<not> list_ex (\<lambda>a. same_thread a n \<and> nd_status a = ''in_progress'') t) t))))"

text \<open>One round of \<open>dispatch\<close>, and its maintenance, whose errors are dropped.\<close>

definition dispatch_tick :: "WorkerConfig \<Rightarrow> time \<Rightarrow> Worker \<times> db \<Rightarrow> Worker \<times> db" where
  "dispatch_tick c now wd = enqueueDue (cfg_QueueCapacity c) now (due_deliveries c now (snd wd)) wd"

definition dispatch_maintenance :: "(nat \<Rightarrow> string) \<Rightarrow> WorkerConfig \<Rightarrow> time \<Rightarrow> time \<Rightarrow> db \<Rightarrow> db" where
  "dispatch_maintenance rnd c wall now d =
    Cleanup_notifications now (case ScheduleReminders rnd wall now (cfg_ReminderInterval c) d of Inl _ \<Rightarrow> d | Inr d' \<Rightarrow> d')"

text \<open>\<open>Start\<close> in a new process: interrupted deliveries become due again before the reconciliation.\<close>

definition Start :: "(nat \<Rightarrow> string) \<Rightarrow> WorkerConfig \<Rightarrow> time \<Rightarrow> time \<Rightarrow> db \<Rightarrow> db \<times> Worker result" where
  "Start rnd c wall now d =
    (let d1 = d\<lparr>notification_deliveries := upd_where (\<lambda>n. nd_status n = ''in_progress'')
           (\<lambda>n. n\<lparr>nd_status := ''pending'', nd_started_at := None, nd_next_attempt_at := Some (unix now), nd_updated_at := unix now\<rparr>)
           (notification_deliveries d)\<rparr>
     in case Reconcile rnd wall (cfg_ReminderInterval c) now d1 of
          Inl e \<Rightarrow> (d1, Inl e)
        | Inr d2 \<Rightarrow> (d2, Inr \<lparr>wk_queue = [], wk_queued = {}, wk_dropped = 0,
                             wk_runners = replicate (nat (cfg_MaxConcurrency c)) Idle\<rparr>))"

text \<open>The next statement of a runner.\<close>

definition runner_step :: "net_env \<Rightarrow> bool \<Rightarrow> bool \<Rightarrow> time \<Rightarrow> nat \<Rightarrow> Worker \<times> db \<Rightarrow> Worker \<times> db" where
  "runner_step env allowPrivate keyed now k wd =
    (case wd of (w, d) \<Rightarrow>
       (let become = (\<lambda>r. w\<lparr>wk_runners := (wk_runners w)[k := r]\<rparr>)
        in case wk_runners w ! k of
             Idle \<Rightarrow> (case wk_queue w of [] \<Rightarrow> (w, d) | i # q \<Rightarrow> ((become (Picked i))\<lparr>wk_queue := q\<rparr>, d))
           | Picked i \<Rightarrow> (case claim now i d of (claimed, d1) \<Rightarrow> (become (if claimed then Claimed i else Releasing i), d1))
           | Claimed i \<Rightarrow> (become (case load_delivery i d of
                                    None \<Rightarrow> Finishing i (failed ''channel_unavailable'') | Some r \<Rightarrow> Loaded i r), d)
           | Loaded i r \<Rightarrow> (become (Finishing i (transport env allowPrivate keyed now r d)), d)
           | Finishing i r \<Rightarrow> (become (case next_attempt i d of None \<Rightarrow> Releasing i | Some n \<Rightarrow> Counted i n r), d)
           | Counted i n r \<Rightarrow> (become (Releasing i), record_result now i n r d)
           | Releasing i \<Rightarrow> ((become Idle)\<lparr>wk_queued := wk_queued w - {i}\<rparr>, d)))"

end
