(* ===== verification/Delivery_System.thy ===== *)
theory Delivery_System
  imports Delivery_Worker
begin

section \<open>Deliveries under concurrency\<close>

text \<open>
  The delivery table is written by the evaluator (through the incident sink), by the channel
  operations of the API, by the maintenance of the dispatcher and by the runners. The contract
  \<open>evolves\<close> says what all writers but the runners do to it; under that contract every
  interleaving of the runners' statements keeps one invariant.
\<close>

subsection \<open>What the other writers may do\<close>

definition row_evolves :: "delivery_row \<Rightarrow> delivery_row \<Rightarrow> bool" where
  "row_evolves n n' \<longleftrightarrow>
     nd_id n' = nd_id n \<and> nd_channel_id n' = nd_channel_id n \<and>
     (nd_incident_id n' = nd_incident_id n \<or> nd_incident_id n' = None) \<and>
     (nd_status n' = nd_status n \<and> nd_attempts n' = nd_attempts n \<or>
      nd_status n \<noteq> ''in_progress'' \<and>
      (nd_status n' = ''cancelled'' \<and> nd_attempts n' = nd_attempts n \<or>
       nd_status n' \<in> {''pending'', ''cancelled''} \<and> nd_attempts n' = 0))"

definition new_row :: "delivery_row \<Rightarrow> bool" where
  "new_row n \<longleftrightarrow> nd_status n \<in> {''pending'', ''cancelled''} \<and> nd_attempts n = 0"

definition evolves :: "delivery_row list \<Rightarrow> delivery_row list \<Rightarrow> bool" where
  "evolves t t' \<longleftrightarrow>
     (distinct (map nd_id t) \<longrightarrow> distinct (map nd_id t')) \<and>
     (\<forall>n' \<in> set t'. (\<exists>n \<in> set t. row_evolves n n') \<or> new_row n') \<and>
     (\<forall>n \<in> set t. nd_status n = ''in_progress'' \<longrightarrow> (\<exists>n' \<in> set t'. row_evolves n n'))"

lemma row_evolves_refl [simp]: "row_evolves n n"
  by (simp add: row_evolves_def)

lemma row_evolves_trans: "row_evolves n n' \<Longrightarrow> row_evolves n' n'' \<Longrightarrow> row_evolves n n''"
  unfolding row_evolves_def by (elim conjE disjE) simp_all

lemma row_evolves_new: "new_row n \<Longrightarrow> row_evolves n n' \<Longrightarrow> new_row n'"
  unfolding row_evolves_def new_row_def by (elim conjE disjE) simp_all

lemma row_evolves_in_progress:
  "row_evolves n n' \<Longrightarrow> (nd_status n = ''in_progress'') = (nd_status n' = ''in_progress'')"
  unfolding row_evolves_def by (elim conjE disjE) auto

lemma evolves_refl [simp]: "evolves t t"
  unfolding evolves_def using row_evolves_refl by blast

lemma evolves_trans:
  assumes "evolves t t'" "evolves t' t''"
  shows "evolves t t''"
  unfolding evolves_def
proof (intro conjI ballI impI)
  show "distinct (map nd_id t'')" if "distinct (map nd_id t)" using assms that by (simp add: evolves_def)
next
  fix n'' assume "n'' \<in> set t''"
  then consider n' where "n' \<in> set t'" "row_evolves n' n''" | "new_row n''" using assms(2) unfolding evolves_def by blast
  then show "(\<exists>n \<in> set t. row_evolves n n'') \<or> new_row n''"
  proof cases
    case (1 n')
    then have "(\<exists>n \<in> set t. row_evolves n n') \<or> new_row n'" using assms(1) unfolding evolves_def by blast
    then show ?thesis using 1(2) row_evolves_trans row_evolves_new by blast
  qed simp
next
  fix n assume n: "n \<in> set t" "nd_status n = ''in_progress''"
  then obtain n' where n': "n' \<in> set t'" "row_evolves n n'" using assms(1) unfolding evolves_def by blast
  have "nd_status n' = ''in_progress''" using row_evolves_in_progress [OF n'(2)] n(2) by simp
  then obtain n'' where "n'' \<in> set t''" "row_evolves n' n''" using assms(2) n'(1) unfolding evolves_def by blast
  then show "\<exists>n' \<in> set t''. row_evolves n n'" using row_evolves_trans [OF n'(2)] by blast
qed

lemma evolves_upd:
  assumes "\<And>n. n \<in> set t \<Longrightarrow> p n \<Longrightarrow> row_evolves n (f n)"
  shows "evolves t (upd_where p f t)"
proof -
  have ids: "map nd_id (upd_where p f t) = map nd_id t"
    using assms by (auto simp: upd_where_def row_evolves_def)
  have r: "row_evolves n (if p n then f n else n)" if "n \<in> set t" for n using assms that by simp
  have s: "set (upd_where p f t) = (\<lambda>n. if p n then f n else n) ` set t" by (simp add: upd_where_def)
  show ?thesis unfolding evolves_def ids s using r by blast
qed

lemma evolves_del:
  assumes "\<And>n. n \<in> set t \<Longrightarrow> p n \<Longrightarrow> nd_status n \<noteq> ''in_progress''"
  shows "evolves t (del_where p t)"
  unfolding evolves_def
proof (intro conjI ballI impI)
  fix n assume "n \<in> set t" "nd_status n = ''in_progress''"
  then have "n \<in> set (del_where p t)" using assms by auto
  then show "\<exists>n' \<in> set (del_where p t). row_evolves n n'" using row_evolves_refl by blast
next
  fix n assume "n \<in> set (del_where p t)"
  then have "n \<in> set t" by simp
  then show "(\<exists>m \<in> set t. row_evolves m n) \<or> new_row n" using row_evolves_refl by blast
qed (rule distinct_map_del)

lemma evolves_insert:
  assumes "new_row n" "\<forall>m \<in> set t. nd_id m \<noteq> nd_id n"
  shows "evolves t (t @ [n])"
  unfolding evolves_def
proof (intro conjI ballI impI)
  show "distinct (map nd_id (t @ [n]))" if "distinct (map nd_id t)" using that assms(2) by auto
next
  fix m assume "m \<in> set (t @ [n])"
  then have "m \<in> set t \<or> m = n" by auto
  then show "(\<exists>k \<in> set t. row_evolves k m) \<or> new_row m" using assms(1) row_evolves_refl by blast
next
  fix m assume "m \<in> set t"
  then have "m \<in> set (t @ [n])" by simp
  then show "\<exists>k \<in> set (t @ [n]). row_evolves m k" using row_evolves_refl by blast
qed

abbreviation db_evolves :: "db \<Rightarrow> db \<Rightarrow> bool" where
  "db_evolves d d' \<equiv> evolves (notification_deliveries d) (notification_deliveries d')"

subsection \<open>The writers keep the contract\<close>

lemma insert_delivery_evolves:
  assumes "insert_delivery n d = Inr d'" "new_row n"
  shows "db_evolves d d'"
proof -
  have "\<forall>m \<in> set (notification_deliveries d). nd_id m \<noteq> nd_id n"
    "d' = d\<lparr>notification_deliveries := notification_deliveries d @ [n]\<rparr>"
    using assms(1) by (auto simp: insert_delivery_def list_ex_iff split: if_splits)
  then show ?thesis using evolves_insert [OF assms(2)] by simp
qed

lemma write_delivery_evolves:
  assumes "write_delivery wall i c e due did key p d = Inr d'"
  shows "db_evolves d d'"
proof (cases "lifecycle_event e \<and> did \<noteq> [] \<and> list_ex (\<lambda>n. nd_id n = did) (notification_deliveries d)")
  case True
  then have d': "d' = d\<lparr>notification_deliveries := upd_where (\<lambda>n. nd_id n = did)
             (\<lambda>n. n\<lparr>nd_payload := p, nd_next_attempt_at := Some (unix due), nd_updated_at := unix wall\<rparr>)
             (notification_deliveries d)\<rparr>"
    using assms unfolding write_delivery_def by simp
  have "evolves (notification_deliveries d) (upd_where (\<lambda>n. nd_id n = did)
             (\<lambda>n. n\<lparr>nd_payload := p, nd_next_attempt_at := Some (unix due), nd_updated_at := unix wall\<rparr>)
             (notification_deliveries d))"
    by (rule evolves_upd) (simp add: row_evolves_def)
  then show ?thesis unfolding d' by simp
next
  case False
  have "insert_delivery
            \<lparr>nd_id = did, nd_channel_id = c, nd_incident_id = Some i,
             nd_event_type = e, nd_payload = p, nd_idempotency_key = key, nd_status = ''pending'',
             nd_attempts = 0, nd_next_attempt_at = Some (unix due), nd_started_at = None, nd_completed_at = None,
             nd_failure_code = None, nd_created_at = unix wall, nd_updated_at = unix wall\<rparr> d = Inr d'"
    using assms unfolding write_delivery_def if_not_P [OF False] .
  then show ?thesis by (rule insert_delivery_evolves) (simp add: new_row_def)
qed

lemma upsertDeliveryTx_evolves:
  assumes "upsertDeliveryTx rnd wall i c e due d = Inr d'"
  shows "db_evolves d d'"
proof -
  obtain did key ev d1 where ch: "choose_delivery rnd i c e d = (did, key, ev, d1)" by (metis prod_cases4)
  obtain k where k: "d1 = d\<lparr>draws := k\<rparr>" using ch by (rule choose_delivery_state)
  obtain p where "write_delivery wall i c e due did key p d1 = Inr d'"
    using assms by (auto simp: upsertDeliveryTx_def ch bind_result_Inr)
  from write_delivery_evolves [OF this] show ?thesis by (simp add: k)
qed

lemma enqueueIncidentTx_evolves:
  assumes "enqueueIncidentTx rnd wall i e sev due d = Inr d'"
  shows "db_evolves d d'"
  by (rule fold_result_inv [where P = "db_evolves d", OF assms [unfolded enqueueIncidentTx_def]])
     (auto simp: enqueue_for_def intro: evolves_trans dest: upsertDeliveryTx_evolves split: if_splits)

lemma cancel_evolves:
  assumes "\<And>n. p n \<Longrightarrow> nd_status n = ''pending''"
  shows "evolves t (upd_where p (cancel_delivery now) t)"
  by (rule evolves_upd) (auto simp: row_evolves_def cancel_delivery_def dest: assms)

lemma resolve_for_evolves:
  assumes "resolve_for rnd wall i now c d = Inr d'"
  shows "db_evolves d d'"
proof (cases "list_ex (attempted i (ch_id c)) (notification_deliveries d)")
  case True
  have c: "db_evolves d (d\<lparr>notification_deliveries :=
               upd_where (pending_lifecycle i (ch_id c)) (cancel_delivery now) (notification_deliveries d)\<rparr>)"
    by simp (rule cancel_evolves, simp add: pending_lifecycle_def)
  have "upsertDeliveryTx rnd wall i (ch_id c) ''resolved'' now (d\<lparr>notification_deliveries :=
               upd_where (pending_lifecycle i (ch_id c)) (cancel_delivery now) (notification_deliveries d)\<rparr>) = Inr d'"
    using assms True by (simp add: resolve_for_def)
  from evolves_trans [OF c upsertDeliveryTx_evolves [OF this]] show ?thesis .
next
  case False
  then have "d' = d\<lparr>notification_deliveries :=
            upd_where (\<lambda>n. pending_lifecycle i (ch_id c) n \<and> nd_attempts n = 0) (cancel_delivery now)
              (notification_deliveries d)\<rparr>"
    using assms by (simp add: resolve_for_def)
  then show ?thesis by simp (rule cancel_evolves, simp add: pending_lifecycle_def)
qed

lemma enqueueResolutionTx_evolves:
  assumes "enqueueResolutionTx rnd wall i now d = Inr d'"
  shows "db_evolves d d'"
  by (rule fold_result_inv [where P = "db_evolves d", OF assms [unfolded enqueueResolutionTx_def]])
     (auto intro: evolves_trans dest: resolve_for_evolves)

lemma insert_member_deliveries:
  "insert_member i a now d = Inr d' \<Longrightarrow> notification_deliveries d' = notification_deliveries d"
  by (simp add: insert_member_Inr)

lemma member_then_evolves:
  assumes "bind_result (insert_member i a now e) (\<lambda>d2. if notify then enqueueIncidentTx rnd wall j ev sev due d2 else Inr d2) = Inr d'"
    and "notification_deliveries e = notification_deliveries d"
  shows "db_evolves d d'"
proof -
  obtain d2 where d2: "insert_member i a now e = Inr d2"
    and k: "(if notify then enqueueIncidentTx rnd wall j ev sev due d2 else Inr d2) = Inr d'"
    using assms(1) by (auto simp: bind_result_Inr)
  have "db_evolves d2 d'" using k by (cases notify) (simp_all add: enqueueIncidentTx_evolves)
  then show ?thesis by (simp add: insert_member_deliveries [OF d2] assms(2))
qed

lemma alertFiredTx_evolves:
  assumes "alertFiredTx rnd wall reminder a now notify d = Inr d'"
  shows "db_evolves d d'"
proof (cases "find (open_incident (fst (groupFor a))) (incidents d)")
  case None
  obtain i where i: "newID rnd ''inc_'' d = (i, d\<lparr>draws := Suc (draws d)\<rparr>)" by (simp add: newID_def draw_def)
  have "bind_result (insert_member i (alert_ID a) now
        (d\<lparr>draws := Suc (draws d), incidents := incidents d @ [new_incident i a now reminder]\<rparr>))
      (\<lambda>d2. if notify then enqueueIncidentTx rnd wall i ''opened'' (severity_str (alert_Severity a)) (now + seconds 15) d2
             else Inr d2) = Inr d'"
    using assms None by (simp add: alertFiredTx_def i split: if_splits)
  then show ?thesis by (rule member_then_evolves) simp
next
  case (Some r)
  show ?thesis
    by (rule member_then_evolves [OF assms [unfolded alertFiredTx_def Some option.case Let_def]]) simp
qed

lemma alertResolvedTx_evolves:
  assumes "alertResolvedTx rnd wall i now d = Inr d'"
  shows "db_evolves d d'"
proof (cases "find (\<lambda>m. ia_alert_id m = i) (incident_alerts d)")
  case None
  then show ?thesis using assms by (simp add: alertResolvedTx_def)
next
  case (Some m)
  have ex: "\<exists>d2. notification_deliveries d2 = notification_deliveries d \<and>
      (d' = d2 \<or> enqueueResolutionTx rnd wall (ia_incident_id m) now d2 = Inr d')"
    if "(if c then Inr e else enqueueResolutionTx rnd wall (ia_incident_id m) now f) = Inr d'"
      "notification_deliveries e = notification_deliveries d" "notification_deliveries f = notification_deliveries d" for c e f
    using that by (cases c) auto
  have "\<exists>d2. notification_deliveries d2 = notification_deliveries d \<and>
      (d' = d2 \<or> enqueueResolutionTx rnd wall (ia_incident_id m) now d2 = Inr d')"
    by (rule ex [OF assms [unfolded alertResolvedTx_def Some Let_def option.case]]) simp_all
  then show ?thesis using enqueueResolutionTx_evolves evolves_refl by metis
qed

subsection \<open>The evaluator as a writer\<close>

lemma insertEvent_deliveries:
  "insertEvent i rule target ty now d = Inr d' \<Longrightarrow> notification_deliveries d' = notification_deliveries d"
  by (simp add: insertEvent_Inr)

lemma save_state_deliveries [simp]:
  "notification_deliveries (save_state key rule tt target st now v d) = notification_deliveries d"
  by (simp add: save_state_def Let_def)

locale queueing_sink = incident_sink +
  assumes fired_evolves: "fire_sink sink a now d = Inr d' \<Longrightarrow> db_evolves d d'"
    and resolved_evolves: "resolve_sink sink i now d = Inr d' \<Longrightarrow> db_evolves d d'"
begin

lemma fire_event_evolves:
  assumes "bind_result (fire_sink sink a now e) (insertEvent i rule target ty now) = Inr d'"
    and "notification_deliveries e = notification_deliveries d"
  shows "db_evolves d d'"
proof -
  obtain e' where e: "fire_sink sink a now e = Inr e'" "insertEvent i rule target ty now e' = Inr d'"
    using assms(1) by (auto simp: bind_result_Inr)
  show ?thesis using fired_evolves [OF e(1)] by (simp add: insertEvent_deliveries [OF e(2)] assms(2))
qed

lemma resolve_event_evolves:
  assumes "bind_result (resolve_sink sink a now e) (insertEvent i rule target ty now) = Inr d'"
    and "notification_deliveries e = notification_deliveries d"
  shows "db_evolves d d'"
proof -
  obtain e' where e: "resolve_sink sink a now e = Inr e'" "insertEvent i rule target ty now e' = Inr d'"
    using assms(1) by (auto simp: bind_result_Inr)
  show ?thesis using resolved_evolves [OF e(1)] by (simp add: insertEvent_deliveries [OF e(2)] assms(2))
qed

lemma evaluate_evolves:
  assumes "evaluate rnd sink rule tt target v f r now d = Inr d'"
  shows "db_evolves d d'"
proof -
  let ?key = "dedup (rule_Family rule) target"
  let ?st = "load_state now ?key d"
  let ?tr = "Advance now ?st f r (suppressedTx rule target now d) rule"
  let ?d1 = "save_state ?key rule tt target (State_of ?tr) now v d"
  note ev = assms [unfolded evaluate_def Let_def draw_def prod.case]
  show ?thesis
  proof (cases "Triggered ?tr")
    case True
    show ?thesis
    proof (cases "list_ex (\<lambda>a. al_id a = rnd (draws ?d1) \<or> al_key a = ?key \<and> al_started_at a = unix now)
        (alerts (?d1\<lparr>draws := Suc (draws ?d1)\<rparr>))")
      case dup: True
      show ?thesis using ev unfolding if_P [OF True] if_P [OF dup] by simp
    next
      case new: False
      show ?thesis by (rule fire_event_evolves [OF ev [unfolded if_P [OF True] if_not_P [OF new]]]) simp
    qed
  next
    case nt: False
    note ev = ev [unfolded if_not_P [OF nt]]
    show ?thesis
    proof (cases "Repeated ?tr")
      case True
      show ?thesis using insertEvent_deliveries [OF ev [unfolded if_P [OF True]]] by simp
    next
      case nr: False
      note ev = ev [unfolded if_not_P [OF nr]]
      show ?thesis
      proof (cases "Resolved ?tr")
        case True
        note ev = ev [unfolded if_P [OF True]]
        show ?thesis
        proof (cases "latest_by al_started_at (filter (open_alert ?key) (alerts ?d1))")
          case None
          show ?thesis using ev [unfolded None option.case] by auto
        next
          case (Some a)
          show ?thesis by (rule resolve_event_evolves [OF ev [unfolded Some option.case]]) simp
        qed
      next
        case False
        show ?thesis using ev [unfolded if_not_P [OF False]] by (auto split: if_splits)
      qed
    qed
  qed
qed

lemma Evaluate_evolves: "db_evolves d (fst (Evaluate rnd sink ord snap now d))"
proof (rule Evaluate_preserves [where P = "db_evolves d" and ok = "\<lambda>_. True"])
  show "db_evolves d e'" if "db_evolves d e" "evaluate rnd sink rule tt target v f r now e = Inr e'"
    for rule tt target v f r e e' by (rule evolves_trans [OF that(1) evaluate_evolves [OF that(2)]])
  show "db_evolves d e'" if "db_evolves d e" "Cleanup now e = Inr e'" for e e'
    using that by (auto simp: Cleanup_def)
  show "db_evolves d e'" if "db_evolves d e" "upsert_grace res t c e = Inr e'" for e e' res t c
    using that by (auto simp: upsert_grace_def Let_def split: if_splits)
qed simp_all

end

interpretation qsink: queueing_sink "Some (notification_sink rnd wall reminder)" for rnd wall reminder
  by unfold_locales
     (simp_all add: fire_sink_def resolve_sink_def notification_sink_def alertFiredTx_evolves alertResolvedTx_evolves)

subsection \<open>Maintenance and the channel operations as writers\<close>

lemma Reconcile_evolves:
  assumes "Reconcile rnd wall reminder now d = Inr d'"
  shows "db_evolves d d'"
proof (rule fold_result_inv [where P = "db_evolves d", OF assms [unfolded Reconcile_def]])
  fix a e e' assume e: "db_evolves d e" "reconcile_alert rnd wall reminder now a e = Inr e'"
  obtain f where f: "alertFiredTx rnd wall reminder (scan_alert a []) now False e = Inr f"
    "notification_deliveries e' = notification_deliveries f"
    using e(2) by (auto simp: reconcile_alert_def bind_result_Inr)
  show "db_evolves d e'" using evolves_trans [OF e(1) alertFiredTx_evolves [OF f(1)]] by (simp add: f(2))
qed simp

lemma ScheduleReminders_evolves:
  assumes "ScheduleReminders rnd wall now interval d = Inr d'"
  shows "db_evolves d d'"
proof (rule fold_result_inv [where P = "db_evolves d", OF assms [unfolded ScheduleReminders_def Let_def]])
  fix x e e' assume e: "db_evolves d e"
    "remind rnd wall now (if interval \<le> 0 then hours 2 else interval) x e = Inr e'"
  have "db_evolves e e'" using enqueueIncidentTx_evolves [OF e(2) [unfolded remind_def]] by simp
  then show "db_evolves d e'" by (rule evolves_trans [OF e(1)])
qed simp

lemma Cleanup_notifications_evolves: "db_evolves d (Cleanup_notifications now d)"
proof -
  have "evolves (notification_deliveries d) (del_where (old_delivery now) (notification_deliveries d))"
    by (rule evolves_del) (auto simp: old_delivery_def)
  moreover have "evolves t (upd_where p (\<lambda>n. n\<lparr>nd_incident_id := None\<rparr>) t)" for t p
    by (rule evolves_upd) (simp add: row_evolves_def)
  ultimately show ?thesis unfolding Cleanup_notifications_def Let_def by simp (rule evolves_trans)
qed

lemma dispatch_maintenance_evolves: "db_evolves d (dispatch_maintenance rnd c wall now d)"
  unfolding dispatch_maintenance_def
  using evolves_trans [OF ScheduleReminders_evolves Cleanup_notifications_evolves] Cleanup_notifications_evolves
  by (cases "ScheduleReminders rnd wall now (cfg_ReminderInterval c) d") simp_all

lemma cancel_pending_evolves: "db_evolves d (cancel_pending now i d)"
  unfolding cancel_pending_def by simp (rule cancel_evolves, simp)

lemma CreateChannel_deliveries:
  "notification_deliveries (fst (CreateChannel rnd pa keyed now c s d)) = notification_deliveries d"
  by (auto simp: CreateChannel_def Let_def newID_def draw_def insert_channel_def put_secret_def split: sum.splits if_splits prod.splits)

lemma PatchChannel_evolves: "db_evolves d (fst (PatchChannel pa keyed now i c p d))"
proof -
  have "db_evolves d (cancel_pending now i e)" if "notification_deliveries e = notification_deliveries d" for e
    using cancel_pending_evolves [of e now i] that by simp
  then show ?thesis by (auto simp: PatchChannel_def Let_def put_secret_def split: sum.split)
qed

lemma DeleteChannel_evolves: "DeleteChannel now i d = Inr d' \<Longrightarrow> db_evolves d d'"
proof -
  have "db_evolves d (cancel_pending now i e)" if "notification_deliveries e = notification_deliveries d" for e
    using cancel_pending_evolves [of e now i] that by simp
  then show "DeleteChannel now i d = Inr d' \<Longrightarrow> db_evolves d d'" by (auto simp: DeleteChannel_def split: if_splits)
qed

lemma Retry_evolves: "Retry now i d = Inr d' \<Longrightarrow> db_evolves d d'"
proof -
  have "evolves t (upd_where (\<lambda>n. nd_id n = i \<and> nd_status n = ''permanent_failure'')
       (\<lambda>n. n\<lparr>nd_status := ''pending'', nd_attempts := 0, nd_started_at := None, nd_next_attempt_at := Some (unix now),
              nd_failure_code := None, nd_completed_at := None, nd_updated_at := unix now\<rparr>) t)" for t
    by (rule evolves_upd) (simp add: row_evolves_def)
  then show "Retry now i d = Inr d' \<Longrightarrow> db_evolves d d'" by (auto simp: Retry_def split: if_splits)
qed

lemma Test_evolves:
  assumes "Test rnd now ch d = Inr (i, d')"
  shows "db_evolves d d'"
proof -
  obtain n e where "insert_delivery n e = Inr d'" "new_row n" "notification_deliveries e = notification_deliveries d"
    using assms by (auto simp: Test_def newID_def draw_def bind_result_Inr new_row_def Let_def)
  then show ?thesis using insert_delivery_evolves by metis
qed

inductive queue_writer :: "(nat \<Rightarrow> string) \<Rightarrow> db \<Rightarrow> db \<Rightarrow> bool" for rnd where
  qw_Evaluate: "queue_writer rnd d (fst (Evaluate rnd (Some (notification_sink rnd wall reminder)) ord snap now d))"
| qw_maintenance: "queue_writer rnd d (dispatch_maintenance rnd c wall now d)"
| qw_CreateChannel: "queue_writer rnd d (fst (CreateChannel rnd pa keyed now c s d))"
| qw_PatchChannel: "queue_writer rnd d (fst (PatchChannel pa keyed now i c p d))"
| qw_DeleteChannel: "DeleteChannel now i d = Inr d' \<Longrightarrow> queue_writer rnd d d'"
| qw_Retry: "Retry now i d = Inr d' \<Longrightarrow> queue_writer rnd d d'"
| qw_Test: "Test rnd now ch d = Inr (i, d') \<Longrightarrow> queue_writer rnd d d'"
| qw_other: "notification_deliveries d' = notification_deliveries d \<Longrightarrow> queue_writer rnd d d'"

lemma queue_writer_evolves: "queue_writer rnd d d' \<Longrightarrow> db_evolves d d'"
proof (induction rule: queue_writer.induct)
  case (qw_Evaluate d wall reminder ord snap now)
  show ?case by (rule qsink.Evaluate_evolves)
next
  case (qw_CreateChannel d pa keyed now c s)
  show ?case by (simp add: CreateChannel_deliveries)
qed (simp_all add: dispatch_maintenance_evolves PatchChannel_evolves DeleteChannel_evolves Retry_evolves Test_evolves)

end
