(* ===== verification/Delivery_Invariants.thy ===== *)
theory Delivery_Invariants
  imports Delivery_System
begin

section \<open>The invariant of the delivery worker\<close>

text \<open>
  In every interleaving of dispatcher, runners and the other writers: a delivery in progress is
  owned by exactly one runner, no two deliveries of one incident to one channel are in progress
  together, attempts are bounded, and the queue holds no identifier twice.
\<close>

abbreviation in_progress :: "delivery_row \<Rightarrow> bool" where
  "in_progress n \<equiv> nd_status n = ''in_progress''"

definition attempts_ok :: "delivery_row \<Rightarrow> bool" where
  "attempts_ok n \<longleftrightarrow> 0 \<le> nd_attempts n \<and> nd_attempts n \<le> 7 \<and>
     (nd_status n \<in> {''pending'', ''in_progress''} \<longrightarrow> nd_attempts n \<le> 6)"

definition delivery_inv :: "delivery_row list \<Rightarrow> bool" where
  "delivery_inv t \<longleftrightarrow> distinct (map nd_id t) \<and> (\<forall>n \<in> set t. attempts_ok n) \<and>
     (\<forall>a \<in> set t. \<forall>b \<in> set t. in_progress a \<longrightarrow> in_progress b \<longrightarrow> same_thread a b \<longrightarrow> a = b)"

definition owning :: "runner \<Rightarrow> bool" where
  "owning r = (case r of Claimed _ \<Rightarrow> True | Loaded _ _ \<Rightarrow> True | Finishing _ _ \<Rightarrow> True | Counted _ _ _ \<Rightarrow> True | _ \<Rightarrow> False)"

definition counted_ok :: "delivery_row \<Rightarrow> runner \<Rightarrow> bool" where
  "counted_ok n r = (case r of Counted _ k _ \<Rightarrow> k = nd_attempts n + 1 | _ \<Rightarrow> True)"

definition holders :: "runner list \<Rightarrow> string list" where
  "holders rs = map held (filter (\<lambda>r. r \<noteq> Idle) rs)"

definition queue_inv :: "int \<Rightarrow> Worker \<Rightarrow> bool" where
  "queue_inv capacity w \<longleftrightarrow>
     distinct (wk_queue w @ holders (wk_runners w)) \<and> wk_queued w = set (wk_queue w @ holders (wk_runners w)) \<and>
     int (length (wk_queue w)) \<le> capacity"

definition owner_inv :: "runner list \<Rightarrow> delivery_row list \<Rightarrow> bool" where
  "owner_inv rs t \<longleftrightarrow>
     (\<forall>r \<in> set rs. owning r \<longrightarrow> (\<exists>n \<in> set t. nd_id n = held r \<and> in_progress n \<and> counted_ok n r)) \<and>
     (\<forall>n \<in> set t. in_progress n \<longrightarrow> (\<exists>r \<in> set rs. owning r \<and> held r = nd_id n))"

lemma owner_invD1:
  "owner_inv rs t \<Longrightarrow> r \<in> set rs \<Longrightarrow> owning r \<Longrightarrow> \<exists>n \<in> set t. nd_id n = held r \<and> in_progress n \<and> counted_ok n r"
  by (simp add: owner_inv_def)

lemma owner_invD2:
  "owner_inv rs t \<Longrightarrow> n \<in> set t \<Longrightarrow> in_progress n \<Longrightarrow> \<exists>r \<in> set rs. owning r \<and> held r = nd_id n"
  by (simp add: owner_inv_def)

definition worker_inv :: "int \<Rightarrow> Worker \<Rightarrow> db \<Rightarrow> bool" where
  "worker_inv capacity w d \<longleftrightarrow>
     delivery_inv (notification_deliveries d) \<and> queue_inv capacity w \<and> owner_inv (wk_runners w) (notification_deliveries d)"

subsection \<open>The other writers\<close>

lemma row_evolves_attempts: "row_evolves n n' \<Longrightarrow> attempts_ok n \<Longrightarrow> attempts_ok n'"
  unfolding row_evolves_def attempts_ok_def by (elim conjE disjE) auto

lemma row_evolves_kept: "row_evolves n n' \<Longrightarrow> in_progress n \<Longrightarrow> in_progress n' \<and> nd_attempts n' = nd_attempts n"
  unfolding row_evolves_def by (elim conjE disjE) auto

lemma same_thread_back:
  "row_evolves a a' \<Longrightarrow> row_evolves b b' \<Longrightarrow> same_thread a' b' \<Longrightarrow> same_thread a b"
  unfolding row_evolves_def same_thread_def by (elim conjE disjE) auto

lemma in_progress_origin:
  assumes "evolves t t'" "n' \<in> set t'" "in_progress n'"
  obtains n where "n \<in> set t" "row_evolves n n'" "in_progress n"
proof -
  have "\<not> new_row n'" using assms(3) by (auto simp: new_row_def)
  then obtain n where n: "n \<in> set t" "row_evolves n n'" using assms(1,2) unfolding evolves_def by blast
  then show ?thesis using that row_evolves_in_progress [OF n(2)] assms(3) by blast
qed

lemma evolves_delivery_inv:
  assumes ev: "evolves t t'" and inv: "delivery_inv t"
  shows "delivery_inv t'"
  unfolding delivery_inv_def
proof (intro conjI ballI impI)
  show d: "distinct (map nd_id t')" using ev inv by (simp add: evolves_def delivery_inv_def)
  show "attempts_ok n'" if "n' \<in> set t'" for n'
  proof -
    consider n where "n \<in> set t" "row_evolves n n'" | "new_row n'" using ev \<open>n' \<in> set t'\<close> unfolding evolves_def by blast
    then show ?thesis
      using row_evolves_attempts inv by cases (auto simp: delivery_inv_def new_row_def attempts_ok_def)
  qed
  fix a' b' assume a': "a' \<in> set t'" "in_progress a'" and b': "b' \<in> set t'" "in_progress b'" and th: "same_thread a' b'"
  obtain a where a: "a \<in> set t" "row_evolves a a'" "in_progress a" by (rule in_progress_origin [OF ev a'])
  obtain b where b: "b \<in> set t" "row_evolves b b'" "in_progress b" by (rule in_progress_origin [OF ev b'])
  have "a = b" using inv a b same_thread_back [OF a(2) b(2) th] unfolding delivery_inv_def by blast
  then have "nd_id a' = nd_id b'" using a(2) b(2) by (simp add: row_evolves_def)
  then show "a' = b'" by (rule distinct_map_unique [OF d a'(1) b'(1)])
qed

lemma evolves_owner_inv:
  assumes ev: "evolves t t'" and inv: "owner_inv rs t"
  shows "owner_inv rs t'"
  unfolding owner_inv_def
proof (intro conjI ballI impI)
  fix r assume "r \<in> set rs" "owning r"
  then obtain n where n: "n \<in> set t" "nd_id n = held r" "in_progress n" "counted_ok n r"
    using inv unfolding owner_inv_def by blast
  then obtain n' where n': "n' \<in> set t'" "row_evolves n n'" using ev unfolding evolves_def by blast
  have k: "in_progress n'" "nd_attempts n' = nd_attempts n" using row_evolves_kept [OF n'(2) n(3)] by auto
  have "nd_id n' = held r" using n'(2) n(2) by (simp add: row_evolves_def)
  moreover have "counted_ok n' r" using n(4) k(2) by (simp add: counted_ok_def split: runner.splits)
  ultimately show "\<exists>n \<in> set t'. nd_id n = held r \<and> in_progress n \<and> counted_ok n r" using n'(1) k(1) by blast
next
  fix n' assume n': "n' \<in> set t'" "in_progress n'"
  obtain n where n: "n \<in> set t" "row_evolves n n'" "in_progress n" by (rule in_progress_origin [OF ev n'])
  then have "nd_id n' = nd_id n" by (simp add: row_evolves_def)
  moreover have "\<exists>r \<in> set rs. owning r \<and> held r = nd_id n" using inv n unfolding owner_inv_def by blast
  ultimately show "\<exists>r \<in> set rs. owning r \<and> held r = nd_id n'" by simp
qed

text \<open>A writer of the delivery table, as the worker sees it.\<close>

locale delivery_writer =
  fixes writes :: "db \<Rightarrow> db \<Rightarrow> bool"
  assumes writes_evolve: "writes d d' \<Longrightarrow> db_evolves d d'"
begin

lemma keeps_worker_inv: "worker_inv cap w d \<Longrightarrow> writes d d' \<Longrightarrow> worker_inv cap w d'"
  using writes_evolve evolves_delivery_inv evolves_owner_inv unfolding worker_inv_def by blast

end

interpretation writers: delivery_writer "queue_writer rnd" for rnd
  by unfold_locales (rule queue_writer_evolves)

subsection \<open>The runners\<close>

lemma delivery_inv_frame:
  assumes "delivery_inv t" and "\<And>n. p n \<Longrightarrow> nd_id (f n) = nd_id n"
    and "\<And>n. n \<in> set t \<Longrightarrow> p n \<Longrightarrow> attempts_ok n \<Longrightarrow> attempts_ok (f n)"
    and "\<And>a b. a \<in> set t \<Longrightarrow> b \<in> set t \<Longrightarrow> in_progress (if p a then f a else a) \<Longrightarrow> in_progress (if p b then f b else b) \<Longrightarrow>
           same_thread (if p a then f a else a) (if p b then f b else b) \<Longrightarrow> a = b"
  shows "delivery_inv (upd_where p f t)"
  unfolding delivery_inv_def
proof (intro conjI ballI impI)
  have "map nd_id (upd_where p f t) = map nd_id t" using assms(2) by (auto simp: upd_where_def)
  then show "distinct (map nd_id (upd_where p f t))" using assms(1) by (simp add: delivery_inv_def)
next
  fix n assume "n \<in> set (upd_where p f t)"
  then obtain m where m: "m \<in> set t" "n = (if p m then f m else m)" by (auto simp: upd_where_def)
  then show "attempts_ok n" using assms(1,3) by (simp add: delivery_inv_def)
next
  fix a b assume ab: "a \<in> set (upd_where p f t)" "b \<in> set (upd_where p f t)" and h: "in_progress a" "in_progress b" "same_thread a b"
  obtain m where m: "m \<in> set t" "a = (if p m then f m else m)" using ab(1) by (auto simp: upd_where_def)
  obtain k where k: "k \<in> set t" "b = (if p k then f k else k)" using ab(2) by (auto simp: upd_where_def)
  have "m = k" using assms(4) [OF m(1) k(1)] h unfolding m(2) k(2) by blast
  then show "a = b" by (simp add: m(2) k(2))
qed

lemma claimable_id: "claimable now i t n \<Longrightarrow> nd_id n = i"
  by (simp add: claimable_def)

lemma claimable_unique:
  assumes "distinct (map nd_id t)" "n \<in> set t" "claimable now i t n" "m \<in> set t" "nd_id m = i"
  shows "m = n"
  using distinct_map_unique [OF assms(1,4,2)] assms(3,5) by (simp add: claimable_def)

lemma claim_delivery_inv:
  assumes inv: "delivery_inv (notification_deliveries d)"
  shows "delivery_inv (notification_deliveries (snd (claim now i d)))"
proof -
  let ?t = "notification_deliveries d"
  have dist: "distinct (map nd_id ?t)" using inv by (simp add: delivery_inv_def)
  have no: "\<not> (same_thread a n \<and> nd_id a \<noteq> nd_id n \<and> in_progress a)" if "claimable now i ?t n" "a \<in> set ?t" for a n
    using that by (auto simp: claimable_def list_ex_iff)
  have ipn: "\<not> in_progress n" if "claimable now i ?t n" for n using that by (auto simp: claimable_def due_now_def)
  have sym: "same_thread a b \<longleftrightarrow> same_thread b a" for a b unfolding same_thread_def by metis
  have "delivery_inv (upd_where (claimable now i ?t)
      (\<lambda>n. n\<lparr>nd_status := ''in_progress'', nd_started_at := Some (unix now), nd_updated_at := unix now\<rparr>) ?t)"
  proof (rule delivery_inv_frame [OF inv])
    fix a b assume ab: "a \<in> set ?t" "b \<in> set ?t"
    let ?f = "\<lambda>n. n\<lparr>nd_status := ''in_progress'', nd_started_at := Some (unix now), nd_updated_at := unix now\<rparr>"
    assume ip: "in_progress (if claimable now i ?t a then ?f a else a)" "in_progress (if claimable now i ?t b then ?f b else b)"
      and "same_thread (if claimable now i ?t a then ?f a else a) (if claimable now i ?t b then ?f b else b)"
    then have th: "same_thread a b" by (simp add: same_thread_def split: if_splits)
    show "a = b"
    proof (cases "claimable now i ?t a \<or> claimable now i ?t b")
      case False
      then show ?thesis using inv ab ip th by (simp add: delivery_inv_def)
    next
      case True
      have "nd_id a = nd_id b"
      proof (rule ccontr)
        assume ne: "nd_id a \<noteq> nd_id b"
        from True show False
        proof
          assume ca: "claimable now i ?t a"
          then have "\<not> claimable now i ?t b" using ne by (simp add: claimable_def)
          then show False using no [OF ca ab(2)] ip(2) th ne sym by auto
        next
          assume cb: "claimable now i ?t b"
          then have "\<not> claimable now i ?t a" using ne by (simp add: claimable_def)
          then show False using no [OF cb ab(1)] ip(1) th ne by auto
        qed
      qed
      then show ?thesis by (rule distinct_map_unique [OF dist ab])
    qed
  qed (auto simp: attempts_ok_def claimable_def due_now_def)
  then show ?thesis by (simp add: claim_def Let_def)
qed

lemma claim_failed: "\<not> fst (claim now i d) \<Longrightarrow> snd (claim now i d) = d"
  by (simp add: claim_def Let_def list_ex_iff upd_where_none)

text \<open>A claim gives the claiming runner the row and takes no other row from anybody.\<close>

lemma claim_owner_inv:
  assumes own: "owner_inv (xs @ Picked i # ys) (notification_deliveries d)"
    and dist: "distinct (map nd_id (notification_deliveries d))" and c: "fst (claim now i d)"
  shows "owner_inv (xs @ Claimed i # ys) (notification_deliveries (snd (claim now i d)))"
proof -
  let ?t = "notification_deliveries d"
  let ?f = "\<lambda>n. n\<lparr>nd_status := ''in_progress'', nd_started_at := Some (unix now), nd_updated_at := unix now\<rparr>"
  have t': "notification_deliveries (snd (claim now i d)) = upd_where (claimable now i ?t) ?f ?t"
    by (simp add: claim_def Let_def)
  obtain n where n: "n \<in> set ?t" "claimable now i ?t n" using c by (auto simp: claim_def Let_def list_ex_iff)
  have img: "set (upd_where (claimable now i ?t) ?f ?t) = (\<lambda>m. if claimable now i ?t m then ?f m else m) ` set ?t"
    by (simp add: upd_where_def)
  show ?thesis unfolding owner_inv_def t' img
  proof (intro conjI ballI impI)
    fix r assume r: "r \<in> set (xs @ Claimed i # ys)" "owning r"
    show "\<exists>m \<in> (\<lambda>m. if claimable now i ?t m then ?f m else m) ` set ?t. nd_id m = held r \<and> in_progress m \<and> counted_ok m r"
    proof (cases "r \<in> set xs \<or> r \<in> set ys")
      case True
      then have "r \<in> set (xs @ Picked i # ys)" by auto
      then obtain m where m: "m \<in> set ?t" "nd_id m = held r" "in_progress m" "counted_ok m r"
        using owner_invD1 [OF own _ r(2)] by blast
      have "\<not> claimable now i ?t m" using m(3) by (auto simp: claimable_def due_now_def)
      then show ?thesis using m by (intro bexI [of _ m] image_eqI [of _ _ m]) simp_all
    next
      case False
      then have "r = Claimed i" using r(1) by simp
      then show ?thesis using n by (intro bexI [of _ "?f n"] image_eqI [of _ _ n]) (simp_all add: claimable_id [OF n(2)] counted_ok_def)
    qed
  next
    fix m' assume m': "m' \<in> (\<lambda>m. if claimable now i ?t m then ?f m else m) ` set ?t" "in_progress m'"
    then obtain m where m: "m \<in> set ?t" "m' = (if claimable now i ?t m then ?f m else m)" by blast
    show "\<exists>r \<in> set (xs @ Claimed i # ys). owning r \<and> held r = nd_id m'"
    proof (cases "claimable now i ?t m")
      case True
      then show ?thesis using m(2) by (intro bexI [of _ "Claimed i"]) (simp_all add: owning_def claimable_def)
    next
      case False
      then have "m' = m" using m(2) by simp
      then obtain r where r: "r \<in> set (xs @ Picked i # ys)" "owning r" "held r = nd_id m'"
        using owner_invD2 [OF own m(1)] m'(2) by blast
      have "r \<noteq> Picked i" using r(2) by (auto simp: owning_def)
      then have "r \<in> set (xs @ Claimed i # ys)" using r(1) by simp
      then show ?thesis using r by blast
    qed
  qed
qed

lemma finished_row_fields [simp]:
  "nd_id (finished_row now k r n) = nd_id n" "nd_attempts (finished_row now k r n) = k"
  "\<not> in_progress (finished_row now k r n)" "nd_channel_id (finished_row now k r n) = nd_channel_id n"
  "nd_incident_id (finished_row now k r n) = nd_incident_id n" "nd_event_type (finished_row now k r n) = nd_event_type n"
  by (simp_all add: finished_row_def split: option.split)

lemma finished_row_attempts:
  assumes "attempts_ok n" "in_progress n"
  shows "attempts_ok (finished_row now (nd_attempts n + 1) r n)"
  using assms by (auto simp: attempts_ok_def finished_row_def retryDelay_def retryDelays_def split: option.split if_splits)

lemma record_delivery_inv:
  assumes inv: "delivery_inv (notification_deliveries d)" and n: "n \<in> set (notification_deliveries d)" "nd_id n = i" "in_progress n"
    and k: "k = nd_attempts n + 1"
  shows "delivery_inv (notification_deliveries (record_result now i k r d))"
proof -
  have "delivery_inv (upd_where (\<lambda>n. nd_id n = i) (finished_row now k r) (notification_deliveries d))"
  proof (rule delivery_inv_frame [OF inv])
    fix m assume m: "m \<in> set (notification_deliveries d)" "nd_id m = i" "attempts_ok m"
    then have "m = n" using distinct_map_unique [of nd_id "notification_deliveries d" m n] inv n by (simp add: delivery_inv_def)
    then show "attempts_ok (finished_row now k r m)" using finished_row_attempts m(3) n(3) k by simp
  next
    fix a b assume "a \<in> set (notification_deliveries d)" "b \<in> set (notification_deliveries d)"
      "in_progress (if nd_id a = i then finished_row now k r a else a)"
      "in_progress (if nd_id b = i then finished_row now k r b else b)"
      "same_thread (if nd_id a = i then finished_row now k r a else a) (if nd_id b = i then finished_row now k r b else b)"
    then show "a = b" using inv by (auto simp: delivery_inv_def split: if_splits)
  qed simp
  then show ?thesis by (simp add: record_result_def)
qed

lemma holders_mem: "q \<in> set rs \<Longrightarrow> q \<noteq> Idle \<Longrightarrow> held q \<in> set (holders rs)"
  unfolding holders_def by simp

lemma owning_not_Idle: "owning q \<Longrightarrow> q \<noteq> Idle"
  by (auto simp: owning_def)

lemma record_owner_inv:
  assumes own: "owner_inv (xs @ Counted i k r # ys) (notification_deliveries d)"
    and others: "i \<notin> set (holders xs)" "i \<notin> set (holders ys)"
  shows "owner_inv (xs @ Releasing i # ys) (notification_deliveries (record_result now i k r d))"
proof -
  let ?t = "notification_deliveries d"
  have t': "set (notification_deliveries (record_result now i k r d)) =
      (\<lambda>n. if nd_id n = i then finished_row now k r n else n) ` set ?t"
    by (simp add: record_result_def upd_where_def)
  have oi: "held q \<noteq> i" if "q \<in> set xs \<or> q \<in> set ys" "owning q" for q
    using holders_mem [of q xs] holders_mem [of q ys] owning_not_Idle [OF that(2)] that(1) others by metis
  show ?thesis unfolding owner_inv_def t'
  proof (intro conjI ballI impI)
    fix q assume q: "q \<in> set (xs @ Releasing i # ys)" "owning q"
    have qs: "q \<in> set xs \<or> q \<in> set ys" using q by (cases "q = Releasing i") (simp_all add: owning_def)
    then have "q \<in> set (xs @ Counted i k r # ys)" by auto
    then obtain m where m: "m \<in> set ?t" "nd_id m = held q" "in_progress m" "counted_ok m q"
      using owner_invD1 [OF own _ q(2)] by blast
    have "nd_id m \<noteq> i" using oi [OF qs q(2)] m(2) by simp
    then show "\<exists>n \<in> (\<lambda>n. if nd_id n = i then finished_row now k r n else n) ` set ?t. nd_id n = held q \<and> in_progress n \<and> counted_ok n q"
      using m by (intro bexI [of _ m] image_eqI [of _ _ m]) simp_all
  next
    fix m' assume "m' \<in> (\<lambda>n. if nd_id n = i then finished_row now k r n else n) ` set ?t" "in_progress m'"
    then obtain n where n: "n \<in> set ?t" "m' = (if nd_id n = i then finished_row now k r n else n)" "in_progress m'" by blast
    then have m: "m' = n" "nd_id m' \<noteq> i" by (cases "nd_id n = i"; simp)+
    then obtain q where q: "q \<in> set (xs @ Counted i k r # ys)" "owning q" "held q = nd_id m'"
      using owner_invD2 [OF own n(1)] n(3) by blast
    have "q \<noteq> Counted i k r" using q(3) m(2) by auto
    then have "q \<in> set (xs @ Releasing i # ys)" using q(1) by simp
    then show "\<exists>q \<in> set (xs @ Releasing i # ys). owning q \<and> held q = nd_id m'" using q by blast
  qed
qed

text \<open>Replacing a runner by one with the same claim.\<close>

lemma owner_inv_same:
  assumes "owner_inv (xs @ r # ys) t" "owning r' = owning r" "owning r \<Longrightarrow> held r' = held r"
    and "\<And>n. n \<in> set t \<Longrightarrow> owning r \<Longrightarrow> nd_id n = held r \<Longrightarrow> in_progress n \<Longrightarrow> counted_ok n r'"
  shows "owner_inv (xs @ r' # ys) t"
  unfolding owner_inv_def
proof (intro conjI ballI impI)
  fix q assume q: "q \<in> set (xs @ r' # ys)" "owning q"
  show "\<exists>n \<in> set t. nd_id n = held q \<and> in_progress n \<and> counted_ok n q"
  proof (cases "q \<in> set xs \<or> q \<in> set ys")
    case True
    then show ?thesis using assms(1) q(2) by (auto simp: owner_inv_def)
  next
    case False
    then have q': "q = r'" "owning r" using q assms(2) by auto
    then obtain n where "n \<in> set t" "nd_id n = held r" "in_progress n" using assms(1) by (auto simp: owner_inv_def)
    then show ?thesis using assms(3,4) q' by auto
  qed
next
  fix n assume "n \<in> set t" "in_progress n"
  then obtain q where q: "q \<in> set (xs @ r # ys)" "owning q" "held q = nd_id n" using assms(1) unfolding owner_inv_def by blast
  show "\<exists>q \<in> set (xs @ r' # ys). owning q \<and> held q = nd_id n"
  proof (cases "q = r")
    case True
    then show ?thesis using q assms(2,3) by (intro bexI [of _ r']) auto
  next
    case False
    then show ?thesis using q by (intro bexI [of _ q]) auto
  qed
qed

lemma holders_simps [simp]:
  "holders [] = []" "holders (r # rs) = (if r = Idle then holders rs else held r # holders rs)"
  "holders (xs @ ys) = holders xs @ holders ys"
  by (simp_all add: holders_def)

lemma runner_step_inv:
  assumes inv: "worker_inv cap w d" and k: "k < length (wk_runners w)"
    and st: "runner_step env ap keyed now k (w, d) = (w', d')"
  shows "worker_inv cap w' d'"
proof -
  obtain xs r ys where rs: "wk_runners w = xs @ r # ys" and xs: "length xs = k"
    using id_take_nth_drop [OF k] k by (metis length_take min.absorb4)
  have upd: "(wk_runners w)[k := x] = xs @ x # ys" "wk_runners w ! k = r" for x
    using xs by (auto simp: rs nth_append)
  have di: "delivery_inv (notification_deliveries d)" and qi: "queue_inv cap w"
    and oi: "owner_inv (xs @ r # ys) (notification_deliveries d)" using inv by (simp_all add: worker_inv_def rs)
  have dist: "distinct (map nd_id (notification_deliveries d))" using di by (simp add: delivery_inv_def)
  note step = st [unfolded runner_step_def Let_def prod.case upd]
  have qi': "queue_inv cap (w\<lparr>wk_runners := xs @ r' # ys\<rparr>)" if "r \<noteq> Idle" "r' \<noteq> Idle" "held r' = held r" for r'
    using qi that by (simp add: queue_inv_def rs)
  show ?thesis
  proof (cases r)
    case Idle
    show ?thesis
    proof (cases "wk_queue w")
      case Nil
      then show ?thesis using step inv by (simp add: Idle)
    next
      case (Cons i q)
      have e: "w' = w\<lparr>wk_runners := xs @ Picked i # ys, wk_queue := q\<rparr>" "d' = d" using step by (auto simp: Idle Cons)
      have "owner_inv (xs @ Picked i # ys) (notification_deliveries d)"
        by (rule owner_inv_same [OF oi]) (simp_all add: Idle owning_def)
      moreover have "queue_inv cap w'" using qi by (auto simp: e queue_inv_def rs Idle Cons)
      ultimately show ?thesis using di by (simp add: worker_inv_def e)
    qed
  next
    case (Picked i)
    show ?thesis
    proof (cases "fst (claim now i d)")
      case True
      then have e: "w' = w\<lparr>wk_runners := xs @ Claimed i # ys\<rparr>" "d' = snd (claim now i d)"
        using step by (auto simp: Picked split: prod.splits)
      show ?thesis using claim_delivery_inv [OF di] claim_owner_inv [OF oi [unfolded Picked] dist True] qi' [of "Claimed i"]
        by (simp add: worker_inv_def e Picked)
    next
      case False
      then have e: "w' = w\<lparr>wk_runners := xs @ Releasing i # ys\<rparr>" "d' = d"
        using step claim_failed [OF False] by (auto simp: Picked split: prod.splits)
      have "owner_inv (xs @ Releasing i # ys) (notification_deliveries d)"
        by (rule owner_inv_same [OF oi]) (simp_all add: Picked owning_def)
      then show ?thesis using di qi' [of "Releasing i"] by (simp add: worker_inv_def e Picked)
    qed
  next
    case (Claimed i)
    define r' where "r' = (case load_delivery i d of None \<Rightarrow> Finishing i (failed ''channel_unavailable'') | Some x \<Rightarrow> Loaded i x)"
    have p: "r' \<noteq> Idle" "held r' = i" "owning r'" "\<And>n. counted_ok n r'"
      by (simp_all add: r'_def owning_def counted_ok_def split: option.split)
    have e: "w' = w\<lparr>wk_runners := xs @ r' # ys\<rparr>" "d' = d" using step by (auto simp: Claimed r'_def)
    have "owner_inv (xs @ r' # ys) (notification_deliveries d)"
      by (rule owner_inv_same [OF oi]) (simp_all add: Claimed p, simp add: owning_def)
    then show ?thesis using di qi' [of r'] p by (simp add: worker_inv_def e Claimed)
  next
    case (Loaded i x)
    let ?r = "Finishing i (transport env ap keyed now x d)"
    have e: "w' = w\<lparr>wk_runners := xs @ ?r # ys\<rparr>" "d' = d" using step by (auto simp: Loaded)
    have "owner_inv (xs @ ?r # ys) (notification_deliveries d)"
      by (rule owner_inv_same [OF oi]) (simp_all add: Loaded owning_def counted_ok_def)
    then show ?thesis using di qi' [of ?r] by (simp add: worker_inv_def e Loaded)
  next
    case (Finishing i x)
    obtain n where n: "n \<in> set (notification_deliveries d)" "nd_id n = i" "in_progress n"
      using owner_invD1 [OF oi, of r] by (auto simp: Finishing owning_def)
    have u: "m = n" if "m \<in> set (notification_deliveries d)" "nd_id m = i" for m
      using distinct_map_unique [OF dist that(1) n(1)] that(2) n(2) by simp
    have "find (\<lambda>m. nd_id m = i) (notification_deliveries d) = Some n"
      using find_key [OF dist n(1)] n(2) by simp
    then have e: "w' = w\<lparr>wk_runners := xs @ Counted i (nd_attempts n + 1) x # ys\<rparr>" "d' = d"
      using step by (auto simp: Finishing next_attempt_def)
    have "owner_inv (xs @ Counted i (nd_attempts n + 1) x # ys) (notification_deliveries d)"
      by (rule owner_inv_same [OF oi]) (use u in \<open>auto simp: Finishing owning_def counted_ok_def\<close>)
    then show ?thesis using di qi' [of "Counted i (nd_attempts n + 1) x"] by (simp add: worker_inv_def e Finishing)
  next
    case (Counted i j x)
    obtain n where n: "n \<in> set (notification_deliveries d)" "nd_id n = i" "in_progress n" "j = nd_attempts n + 1"
      using owner_invD1 [OF oi, of r] by (auto simp: Counted owning_def counted_ok_def)
    have e: "w' = w\<lparr>wk_runners := xs @ Releasing i # ys\<rparr>" "d' = record_result now i j x d"
      using step by (auto simp: Counted)
    have h: "i \<notin> set (holders xs)" "i \<notin> set (holders ys)" using qi by (auto simp: queue_inv_def rs Counted)
    show ?thesis using record_delivery_inv [OF di n] record_owner_inv [OF oi [unfolded Counted] h] qi' [of "Releasing i"]
      by (simp add: worker_inv_def e Counted)
  next
    case (Releasing i)
    have e: "w' = w\<lparr>wk_runners := xs @ Idle # ys, wk_queued := wk_queued w - {i}\<rparr>" "d' = d"
      using step by (auto simp: Releasing)
    have "owner_inv (xs @ Idle # ys) (notification_deliveries d)"
      by (rule owner_inv_same [OF oi]) (simp_all add: Releasing owning_def)
    moreover have "queue_inv cap w'" using qi by (auto simp: e queue_inv_def rs Releasing)
    ultimately show ?thesis using di by (simp add: worker_inv_def e)
  qed
qed

end
