(* ===== verification/Delivery_Properties.thy ===== *)
theory Delivery_Properties
  imports Delivery_Invariants
begin

section \<open>Properties of the delivery worker\<close>

text \<open>
  The states the worker reaches together with all other writers of its table, and what holds in
  them; the retry schedule; how the transports classify their results.
\<close>

subsection \<open>Reachable states\<close>

lemma enqueue_one_inv:
  assumes "worker_inv cap w d" "enqueue_one cap now i (w, d) = (w', d')"
  shows "worker_inv cap w' d'"
  using assms by (auto simp: worker_inv_def enqueue_one_def queue_inv_def recordOverflow_def Let_def split: if_splits)

lemma enqueueDue_inv:
  assumes "worker_inv cap w d" "enqueueDue cap now ids (w, d) = (w', d')"
  shows "worker_inv cap w' d'"
  using assms
proof (induction ids arbitrary: w d)
  case (Cons i ids)
  obtain w1 d1 where s: "enqueue_one cap now i (w, d) = (w1, d1)" by (cases "enqueue_one cap now i (w, d)")
  have r: "enqueueDue cap now ids (w1, d1) = (w', d')" using Cons.prems(2) by (simp add: enqueueDue_def s)
  show ?case by (rule Cons.IH [OF enqueue_one_inv [OF Cons.prems(1) s] r])
qed (simp add: enqueueDue_def)

inductive delivery_reachable :: "(nat \<Rightarrow> string) \<Rightarrow> WorkerConfig \<Rightarrow> Worker \<times> db \<Rightarrow> bool" for rnd c where
  dr_init: "delivery_reachable rnd c (\<lparr>wk_queue = [], wk_queued = {}, wk_dropped = 0, wk_runners = []\<rparr>, empty_db)"
| dr_start: "delivery_reachable rnd c (w, d) \<Longrightarrow> Start rnd (NewWorker c) wall now d = (d', Inr w') \<Longrightarrow>
    delivery_reachable rnd c (w', d')"
| dr_tick: "delivery_reachable rnd c s \<Longrightarrow> delivery_reachable rnd c (dispatch_tick (NewWorker c) now s)"
| dr_runner: "delivery_reachable rnd c s \<Longrightarrow> k < length (wk_runners (fst s)) \<Longrightarrow>
    delivery_reachable rnd c (runner_step env (cfg_AllowPrivate c) keyed now k s)"
| dr_writer: "delivery_reachable rnd c (w, d) \<Longrightarrow> queue_writer rnd d d' \<Longrightarrow> delivery_reachable rnd c (w, d')"

lemma NewWorker_positive:
  "0 < cfg_QueueCapacity (NewWorker c)" "0 < cfg_MaxConcurrency (NewWorker c)"
  "0 < cfg_DeliveryTimeout (NewWorker c)" "0 < cfg_ReminderInterval (NewWorker c)"
  by (simp_all add: NewWorker_def Let_def seconds_def hours_def minutes_def nanos_def)

lemma holders_idle [simp]: "holders (replicate n Idle) = []"
  by (simp add: holders_def)

lemma reset_delivery_inv:
  assumes "delivery_inv t"
  shows "delivery_inv (upd_where in_progress
           (\<lambda>n. n\<lparr>nd_status := ''pending'', nd_started_at := None, nd_next_attempt_at := x, nd_updated_at := y\<rparr>) t)"
  by (rule delivery_inv_frame [OF assms]) (auto simp: attempts_ok_def split: if_splits)

lemma Start_inv:
  assumes "delivery_inv (notification_deliveries d)" "Start rnd c wall now d = (d', Inr w')" "0 < cfg_QueueCapacity c"
  shows "worker_inv (cfg_QueueCapacity c) w' d'"
proof -
  let ?f = "\<lambda>n. n\<lparr>nd_status := ''pending'', nd_started_at := None, nd_next_attempt_at := Some (unix now), nd_updated_at := unix now\<rparr>"
  let ?d1 = "d\<lparr>notification_deliveries := upd_where in_progress ?f (notification_deliveries d)\<rparr>"
  have rec: "Reconcile rnd wall (cfg_ReminderInterval c) now ?d1 = Inr d'"
    and w': "w' = \<lparr>wk_queue = [], wk_queued = {}, wk_dropped = 0, wk_runners = replicate (nat (cfg_MaxConcurrency c)) Idle\<rparr>"
    using assms(2) by (auto simp: Start_def Let_def split: sum.splits)
  have ev: "db_evolves ?d1 d'" by (rule Reconcile_evolves [OF rec])
  have di: "delivery_inv (notification_deliveries d')"
    by (rule evolves_delivery_inv [OF ev]) (simp add: reset_delivery_inv [OF assms(1)])
  have none: "\<not> in_progress n" if "n \<in> set (upd_where in_progress ?f (notification_deliveries d))" for n
    using that by (auto simp: upd_where_def)
  have o1: "owner_inv [] (notification_deliveries ?d1)" using none by (simp add: owner_inv_def)
  have "owner_inv [] (notification_deliveries d')" by (rule evolves_owner_inv [OF ev o1])
  then have "owner_inv (wk_runners w') (notification_deliveries d')"
    by (auto simp: owner_inv_def w' owning_def)
  moreover have "queue_inv (cfg_QueueCapacity c) w'" using assms(3) by (simp add: queue_inv_def w')
  ultimately show ?thesis using di by (simp add: worker_inv_def)
qed

lemma delivery_reachable_inv:
  "delivery_reachable rnd c s \<Longrightarrow> worker_inv (cfg_QueueCapacity (NewWorker c)) (fst s) (snd s)"
proof (induction rule: delivery_reachable.induct)
  case dr_init
  then show ?case using NewWorker_positive(1) [of c]
    by (simp add: worker_inv_def delivery_inv_def queue_inv_def owner_inv_def empty_db_def)
next
  case (dr_start w d wall now d' w')
  have "delivery_inv (notification_deliveries d)" using dr_start.IH by (simp add: worker_inv_def)
  from Start_inv [OF this dr_start.hyps(2) NewWorker_positive(1)] show ?case by simp
next
  case (dr_tick s now)
  obtain w d where s: "s = (w, d)" by (cases s)
  then show ?case using dr_tick enqueueDue_inv [of "cfg_QueueCapacity (NewWorker c)" w d now]
    by (cases "dispatch_tick (NewWorker c) now s") (auto simp: dispatch_tick_def)
next
  case (dr_runner s k env keyed now)
  obtain w d where s: "s = (w, d)" by (cases s)
  then show ?case using dr_runner runner_step_inv [of _ w d k]
    by (cases "runner_step env (cfg_AllowPrivate c) keyed now k s") auto
next
  case (dr_writer w d d')
  then show ?case using writers.keeps_worker_inv by simp
qed

lemma holders_inj:
  "distinct (holders rs) \<Longrightarrow> j < length rs \<Longrightarrow> k < length rs \<Longrightarrow> rs ! j \<noteq> Idle \<Longrightarrow> rs ! k \<noteq> Idle \<Longrightarrow>
     held (rs ! j) = held (rs ! k) \<Longrightarrow> j = k"
proof (induction rs arbitrary: j k)
  case (Cons r rs)
  have m: "held (rs ! i) \<in> set (holders rs)" if "i < length rs" "rs ! i \<noteq> Idle" for i
    using holders_mem that by simp
  show ?case
  proof (cases j)
    case 0
    then show ?thesis using Cons.prems m by (cases k) auto
  next
    case (Suc j')
    then show ?thesis using Cons.prems Cons.IH [of j'] m [of j'] by (cases k) (auto split: if_splits)
  qed
qed simp

text \<open>
  C7. In every state the worker reaches, however the statements of the runners interleave with
  each other, with restarts and with every other writer of the table: two deliveries in
  progress for the same incident and channel are the same delivery, and each delivery in
  progress is held by exactly one runner, so that none is sent twice at once and none is left
  in progress without a runner that will finish it.
\<close>

theorem deliveries_exclusive:
  assumes "delivery_reachable rnd c (w, d)"
  shows "(\<forall>a \<in> set (notification_deliveries d). \<forall>b \<in> set (notification_deliveries d).
            nd_status a = ''in_progress'' \<and> nd_status b = ''in_progress'' \<and> nd_channel_id a = nd_channel_id b \<and>
            nd_incident_id a \<noteq> None \<and> nd_incident_id a = nd_incident_id b \<longrightarrow> a = b) \<and>
         (\<forall>a \<in> set (notification_deliveries d). nd_status a = ''in_progress'' \<longrightarrow>
            (\<exists>!k. k < length (wk_runners w) \<and> wk_runners w ! k \<noteq> Idle \<and> held (wk_runners w ! k) = nd_id a))"
proof -
  have inv: "delivery_inv (notification_deliveries d)" "distinct (holders (wk_runners w))"
    "owner_inv (wk_runners w) (notification_deliveries d)"
    using delivery_reachable_inv [OF assms] by (simp_all add: worker_inv_def queue_inv_def)
  have "\<exists>!k. k < length (wk_runners w) \<and> wk_runners w ! k \<noteq> Idle \<and> held (wk_runners w ! k) = nd_id a"
    if a: "a \<in> set (notification_deliveries d)" "in_progress a" for a
  proof -
    obtain r where r: "r \<in> set (wk_runners w)" "owning r" "held r = nd_id a" using owner_invD2 [OF inv(3) a] by blast
    then obtain k where k: "k < length (wk_runners w)" "wk_runners w ! k = r" by (auto simp: in_set_conv_nth)
    show ?thesis
    proof (rule ex1I [of _ k])
      show "k < length (wk_runners w) \<and> wk_runners w ! k \<noteq> Idle \<and> held (wk_runners w ! k) = nd_id a"
        using k r owning_not_Idle by simp
      fix j assume "j < length (wk_runners w) \<and> wk_runners w ! j \<noteq> Idle \<and> held (wk_runners w ! j) = nd_id a"
      then show "j = k" using holders_inj [OF inv(2), of j k] k r owning_not_Idle by simp
    qed
  qed
  moreover have "a = b" if "a \<in> set (notification_deliveries d)" "b \<in> set (notification_deliveries d)"
    "in_progress a" "in_progress b" "nd_channel_id a = nd_channel_id b" "nd_incident_id a \<noteq> None"
    "nd_incident_id a = nd_incident_id b" for a b
    using inv(1) that unfolding delivery_inv_def same_thread_def by blast
  ultimately show ?thesis by blast
qed

text \<open>
  In every state the worker reaches, no delivery has been attempted more than seven times
  (six retries), a delivery that is still pending or in progress has at most six attempts
  behind it, and the queue of the dispatcher never exceeds its capacity and never holds an
  identifier twice or together with a runner that is busy with it.
\<close>

theorem worker_bounds:
  assumes "delivery_reachable rnd c (w, d)"
  shows "(\<forall>n \<in> set (notification_deliveries d). 0 \<le> nd_attempts n \<and> nd_attempts n \<le> 7 \<and>
            (nd_status n \<in> {''pending'', ''in_progress''} \<longrightarrow> nd_attempts n \<le> 6)) \<and>
         int (length (wk_queue w)) \<le> cfg_QueueCapacity (NewWorker c) \<and> distinct (wk_queue w) \<and>
         (\<forall>r \<in> set (wk_runners w). r \<noteq> Idle \<longrightarrow> held r \<notin> set (wk_queue w))"
proof -
  have "delivery_inv (notification_deliveries d)" "queue_inv (cfg_QueueCapacity (NewWorker c)) w"
    using delivery_reachable_inv [OF assms] by (simp_all add: worker_inv_def)
  then show ?thesis using holders_mem
    by (auto simp: delivery_inv_def attempts_ok_def queue_inv_def)
qed

subsection \<open>The retry schedule\<close>

lemma parseRetryAfter_le: "parseRetryAfter env now v \<le> hours 1"
  by (simp add: parseRetryAfter_def split: option.split)
     (simp add: hours_def minutes_def seconds_def nanos_def)

lemma delay_nth:
  assumes "1 \<le> k" "k \<le> 6"
  shows "retryDelays ! nat (k - 1) \<in> {minutes 1, minutes 5, minutes 15, hours 1, hours 4, hours 12}"
proof -
  have "nat (k - 1) < 6" using assms by simp
  then have "nat (k - 1) \<in> {0, 1, 2, 3, 4, 5}" by auto
  then show ?thesis by (auto simp: retryDelays_def)
qed

lemmas durations = hours_def minutes_def seconds_def nanos_def

text \<open>
  Whatever a server answers in its Retry-After header, at whatever time: the delay before
  the next attempt is the delay of the schedule, or longer when the server asks for it, but
  never longer than the larger of one hour and the schedule, so always between one minute and
  twelve hours; and there is a next attempt exactly after the first six retryable failures.
\<close>

theorem retry_delay_bounds:
  "case retryDelay k retryable (parseRetryAfter env now v) of
     None \<Rightarrow> \<not> retryable \<or> k < 1 \<or> 6 < k
   | Some x \<Rightarrow> retryable \<and> 1 \<le> k \<and> k \<le> 6 \<and> retryDelays ! nat (k - 1) \<le> x \<and>
               x \<le> max (retryDelays ! nat (k - 1)) (hours 1) \<and> minutes 1 \<le> x \<and> x \<le> hours 12"
proof (cases "\<not> retryable \<or> k < 1 \<or> 6 < k")
  case True
  then show ?thesis by (simp add: retryDelay_def retryDelays_def)
next
  case False
  then have k: "1 \<le> k" "k \<le> 6" by simp_all
  let ?a = "parseRetryAfter env now v" and ?s = "retryDelays ! nat (k - 1)"
  have r: "retryDelay k retryable ?a = Some (if ?a > ?s then min ?a (hours 1) else ?s)"
    using False by (simp add: retryDelay_def Let_def) (simp add: retryDelays_def)
  have a: "?a \<le> hours 1" by (rule parseRetryAfter_le)
  have s: "minutes 1 \<le> ?s" "?s \<le> hours 12" using delay_nth [OF k] by (auto simp: durations)
  have h: "hours 1 \<le> hours 12" by (simp add: durations)
  obtain x where x: "x = (if ?a > ?s then min ?a (hours 1) else ?s)" by simp
  then have "?s \<le> x" "x \<le> max ?s (hours 1)" using a by auto
  moreover from this have "minutes 1 \<le> x" "x \<le> hours 12" using s h by auto
  ultimately show ?thesis using k False unfolding r x [symmetric] by simp
qed

text \<open>
  A server that asks for a wait of 9223372037 seconds or a little more, which no duration
  can hold, is read as asking for a negative wait, and the retry then comes after the one
  minute of the schedule and not after the hour a large wait is capped at.
\<close>

theorem retry_after_overflow:
  "parseRetryAfter env now ''9223372037'' < 0 \<and>
   retryDelay 1 True (parseRetryAfter env now ''9223372037'') = Some (minutes 1) \<and>
   retryDelay 1 True (parseRetryAfter env now ''9223372036'') = Some (hours 1)"
proof -
  have a: "atoi (trim_space ''9223372037'') = Some 9223372037" "atoi (trim_space ''9223372036'') = Some 9223372036"
    by (simp_all add: atoi_def trim_space_def is_space_def parse_digits_def nat_of_digits_def is_digit_def digit_val_def
        in_int64_def min_duration_def max_duration_def)
  have w: "wrap64 (9223372037 * seconds 1) < 0" "wrap64 (9223372036 * seconds 1) > hours 1" by code_simp+
  have p: "parseRetryAfter env now ''9223372037'' = min (wrap64 (9223372037 * seconds 1)) (hours 1)"
    "parseRetryAfter env now ''9223372036'' = min (wrap64 (9223372036 * seconds 1)) (hours 1)"
    unfolding parseRetryAfter_def a by simp_all
  have n: "parseRetryAfter env now ''9223372037'' < 0" using w by (simp add: p)
  have m: "parseRetryAfter env now ''9223372036'' = hours 1" using w by (simp add: p)
  show ?thesis unfolding m using n by (simp add: retryDelay_def retryDelays_def durations)
qed

subsection \<open>Every delivery settles\<close>

definition settled :: "delivery_row \<Rightarrow> bool" where
  "settled n \<longleftrightarrow> nd_status n = ''succeeded'' \<or> nd_status n = ''permanent_failure''"

fun spaced :: "int \<Rightarrow> (net_env \<times> time) list \<Rightarrow> bool" where
  "spaced t [] = True"
| "spaced t ((env, now) # runs) = (t \<le> unix now \<and> spaced (unix (now + hours 12)) runs)"

definition delivery_of :: "string \<Rightarrow> db \<Rightarrow> delivery_row option" where
  "delivery_of i d = find (\<lambda>n. nd_id n = i) (notification_deliveries d)"

lemma retryDelay_le:
  assumes "retryDelay k b a = Some x" "a \<le> hours 1"
  shows "x \<le> hours 12"
proof -
  have k: "1 \<le> k" "k \<le> 6" using assms(1) by (auto simp: retryDelay_def retryDelays_def split: if_splits)
  have x: "x = (if a > retryDelays ! nat (k - 1) then min a (hours 1) else retryDelays ! nat (k - 1))"
    using assms(1) by (simp add: retryDelay_def Let_def split: if_splits)
  have "retryDelays ! nat (k - 1) \<le> hours 12" using delay_nth [OF k] by (auto simp: durations)
  moreover have "hours 1 \<le> hours 12" by (simp add: durations)
  ultimately show ?thesis using assms(2) x by auto
qed

lemma transport_after: "res_retryAfter (transport env ap keyed now r d) \<le> hours 1"
proof -
  have "0 \<le> hours 1" by (simp add: durations)
  moreover have "snd (snd (webhook env ap now r s)) \<le> hours 1" for s
    using parseRetryAfter_le [of env now] \<open>0 \<le> hours 1\<close>
    by (simp add: webhook_def Let_def split: sum.split)
  ultimately show ?thesis
    by (auto simp: transport_def failed_def split: sum.split prod.split) (metis snd_conv)
qed

text \<open>One delivery of a due row while nothing else is in progress.\<close>

lemma finished_row_cases:
  assumes "res_retryAfter r \<le> hours 1"
  shows "settled (finished_row now k r n) \<or>
     nd_status (finished_row now k r n) = ''pending'' \<and> k \<le> 6 \<and>
     (\<exists>t. nd_next_attempt_at (finished_row now k r n) = Some t \<and> t \<le> unix (now + hours 12))"
proof (cases "res_success r")
  case True
  then show ?thesis by (simp add: finished_row_def settled_def)
next
  case False
  show ?thesis
  proof (cases "retryDelay k (res_retryable r) (res_retryAfter r)")
    case None
    then show ?thesis using False by (simp add: finished_row_def settled_def)
  next
    case (Some x)
    have "k \<le> 6" using Some by (auto simp: retryDelay_def retryDelays_def split: if_splits)
    moreover have "unix (now + x) \<le> unix (now + hours 12)" using retryDelay_le [OF Some assms] by (intro unix_mono) simp
    ultimately show ?thesis using False Some by (simp add: finished_row_def)
  qed
qed

lemma deliver_row:
  assumes row: "delivery_of i d = Some n" and st: "nd_status n = ''pending''" "nd_next_attempt_at n = Some t" "t \<le> unix now"
    and quiet: "\<forall>m \<in> set (notification_deliveries d). \<not> in_progress m"
  shows "\<exists>n'. delivery_of i (deliver env ap keyed now i d) = Some n' \<and> nd_attempts n' = nd_attempts n + 1 \<and>
     (settled n' \<or> nd_status n' = ''pending'' \<and> nd_attempts n' \<le> 6 \<and>
        (\<exists>t. nd_next_attempt_at n' = Some t \<and> t \<le> unix (now + hours 12))) \<and>
     (\<forall>m \<in> set (notification_deliveries (deliver env ap keyed now i d)). \<not> in_progress m)"
proof -
  let ?t = "notification_deliveries d"
  let ?f = "\<lambda>n. n\<lparr>nd_status := ''in_progress'', nd_started_at := Some (unix now), nd_updated_at := unix now\<rparr>"
  let ?d1 = "snd (claim now i d)"
  have n: "n \<in> set ?t" "nd_id n = i" using find_Some_in [OF row [unfolded delivery_of_def]] by auto
  have cn: "claimable now i ?t n" using n st quiet by (auto simp: claimable_def due_now_def list_ex_iff)
  have t1: "notification_deliveries ?d1 = upd_where (claimable now i ?t) ?f ?t" by (simp add: claim_def Let_def)
  have f1: "find (\<lambda>n. nd_id n = i) (notification_deliveries ?d1) = Some (?f n)"
    unfolding t1 using find_upd_keep [of nd_id ?f i "claimable now i ?t" ?t] row cn by (simp add: delivery_of_def)
  have ip1: "nd_id m = i" if "m \<in> set (notification_deliveries ?d1)" "in_progress m" for m
    using that quiet by (auto simp: t1 upd_where_def claimable_def split: if_splits)
  define r where "r = (case load_delivery i ?d1 of None \<Rightarrow> failed ''channel_unavailable''
                      | Some x \<Rightarrow> transport env ap keyed now x ?d1)"
  have "0 \<le> hours 1" by (simp add: durations)
  then have ra: "res_retryAfter r \<le> hours 1"
    by (simp add: r_def transport_after failed_def split: option.split)
  have "fst (claim now i d)" using n cn by (auto simp: claim_def Let_def list_ex_iff)
  then have "deliver env ap keyed now i d = finish now i r ?d1"
    by (cases "claim now i d") (simp add: deliver_def r_def split: option.split)
  also have "\<dots> = record_result now i (nd_attempts n + 1) r ?d1"
    by (simp add: finish_def next_attempt_def f1)
  finally have del: "deliver env ap keyed now i d = record_result now i (nd_attempts n + 1) r ?d1" .
  let ?n' = "finished_row now (nd_attempts n + 1) r (?f n)"
  have "delivery_of i (deliver env ap keyed now i d) = Some ?n'"
    unfolding del delivery_of_def record_result_def using n(2)
    by (simp add: find_upd_keep f1)
  moreover have "\<forall>m \<in> set (notification_deliveries (deliver env ap keyed now i d)). \<not> in_progress m"
    unfolding del record_result_def using ip1 by (auto simp: upd_where_def)
  ultimately show ?thesis using finished_row_cases [OF ra, of now "nd_attempts n + 1" "?f n"] by auto
qed

lemma deliver_settled:
  assumes "delivery_of i d = Some n" "settled n" "distinct (map nd_id (notification_deliveries d))"
  shows "deliver env ap keyed now i d = d"
proof -
  have n: "n \<in> set (notification_deliveries d)" "nd_id n = i" using find_Some_in [OF assms(1) [unfolded delivery_of_def]] by auto
  have "\<not> claimable now i (notification_deliveries d) m" if "m \<in> set (notification_deliveries d)" for m
    using distinct_map_unique [OF assms(3) that n(1)] n(2) assms(2)
    by (auto simp: claimable_def due_now_def settled_def)
  then have "\<not> fst (claim now i d)" by (auto simp: claim_def Let_def list_ex_iff)
  then show ?thesis using claim_failed [of now i d] by (cases "claim now i d") (simp add: deliver_def)
qed

lemma deliver_ids: "map nd_id (notification_deliveries (deliver env ap keyed now i d)) = map nd_id (notification_deliveries d)"
proof -
  have "map nd_id (notification_deliveries (snd (claim now i d))) = map nd_id (notification_deliveries d)"
    by (simp add: claim_def Let_def upd_where_def)
  moreover have "map nd_id (notification_deliveries (finish now i r e)) = map nd_id (notification_deliveries e)" for r e
    by (simp add: finish_def record_result_def upd_where_def split: option.split)
  ultimately show ?thesis
    by (cases "claim now i d") (simp add: deliver_def split: option.split)
qed

definition deliver_runs :: "bool \<Rightarrow> bool \<Rightarrow> string \<Rightarrow> (net_env \<times> time) list \<Rightarrow> db \<Rightarrow> db" where
  "deliver_runs ap keyed i runs d = fold (\<lambda>(env, now) d. deliver env ap keyed now i d) runs d"

lemma deliver_runs_settled:
  "delivery_of i d = Some n \<Longrightarrow> settled n \<Longrightarrow> distinct (map nd_id (notification_deliveries d)) \<Longrightarrow> deliver_runs ap keyed i runs d = d"
  by (induction runs) (auto simp: deliver_runs_def deliver_settled)

lemma deliver_runs_settle:
  assumes "delivery_of i d = Some n" "nd_status n = ''pending''" "nd_next_attempt_at n = Some t" "spaced t runs"
    and "\<forall>m \<in> set (notification_deliveries d). \<not> in_progress m" "distinct (map nd_id (notification_deliveries d))"
    and "7 \<le> nd_attempts n + int (length runs)" "nd_attempts n \<le> 6"
  shows "\<exists>n'. delivery_of i (deliver_runs ap keyed i runs d) = Some n' \<and> settled n'"
  using assms
proof (induction runs arbitrary: d n t)
  case (Cons x runs)
  obtain env now where x: "x = (env, now)" by (cases x)
  let ?e = "deliver env ap keyed now i d"
  have t: "t \<le> unix now" "spaced (unix (now + hours 12)) runs" using Cons.prems(4) by (simp_all add: x)
  obtain n' where n': "delivery_of i ?e = Some n'" "nd_attempts n' = nd_attempts n + 1"
    "settled n' \<or> nd_status n' = ''pending'' \<and> nd_attempts n' \<le> 6 \<and> (\<exists>t. nd_next_attempt_at n' = Some t \<and> t \<le> unix (now + hours 12))"
    "\<forall>m \<in> set (notification_deliveries ?e). \<not> in_progress m"
    using deliver_row [OF Cons.prems(1-3) t(1) Cons.prems(5)] by blast
  have d: "distinct (map nd_id (notification_deliveries ?e))" using Cons.prems(6) by (simp add: deliver_ids)
  have run: "deliver_runs ap keyed i (x # runs) d = deliver_runs ap keyed i runs ?e" by (simp add: deliver_runs_def x)
  from n'(3) show ?case
  proof
    assume "settled n'"
    then show ?thesis using n'(1) deliver_runs_settled [OF n'(1) _ d] by (simp add: run)
  next
    assume p: "nd_status n' = ''pending'' \<and> nd_attempts n' \<le> 6 \<and> (\<exists>t. nd_next_attempt_at n' = Some t \<and> t \<le> unix (now + hours 12))"
    then obtain t' where t': "nd_next_attempt_at n' = Some t'" "t' \<le> unix (now + hours 12)" by blast
    have sp: "spaced t' runs" using t(2) t'(2) by (cases runs) auto
    show ?thesis unfolding run
      by (rule Cons.IH [OF n'(1) _ t'(1) sp n'(4) d]) (use p n'(2) Cons.prems(7) in auto)
  qed
qed simp

text \<open>
  C8. A pending delivery settles: when nothing else is in progress and the delivery is given to
  a runner seven times, twelve hours apart from the time it became due, then whatever the
  network does at each attempt and whatever state its channel is in, it ends as succeeded or as
  a permanent failure; it is never retried for ever.
\<close>

theorem delivery_settles:
  assumes "delivery_of i d = Some n" "nd_status n = ''pending''" "nd_next_attempt_at n = Some t"
    and "0 \<le> nd_attempts n" "nd_attempts n \<le> 6"
    and "\<forall>m \<in> set (notification_deliveries d). nd_status m \<noteq> ''in_progress''" "distinct (map nd_id (notification_deliveries d))"
    and "spaced t runs" "length runs = 7"
  shows "\<exists>n'. delivery_of i (deliver_runs ap keyed i runs d) = Some n' \<and>
           (nd_status n' = ''succeeded'' \<or> nd_status n' = ''permanent_failure'')"
  using deliver_runs_settle [OF assms(1,2,3,8) assms(6,7) _ assms(5)] assms(4,9) by (auto simp: settled_def)

subsection \<open>Resolutions and openings\<close>

lemma upsert_resolved:
  assumes "upsertDeliveryTx rnd wall i c ''resolved'' due d = Inr d'"
  shows "\<exists>new. notification_deliveries d' = notification_deliveries d @ [new] \<and> nd_event_type new = ''resolved'' \<and>
     nd_status new = ''pending'' \<and> nd_next_attempt_at new = Some (unix due) \<and> nd_channel_id new = c \<and>
     nd_incident_id new = Some i \<and> (\<forall>m \<in> set (notification_deliveries d). nd_id m \<noteq> nd_id new)"
proof -
  have nl: "\<not> lifecycle_event ''resolved''" by (simp add: lifecycle_event_def)
  obtain did key ev d1 where ch: "choose_delivery rnd i c ''resolved'' d = (did, key, ev, d1)" by (metis prod_cases4)
  obtain k where k: "d1 = d\<lparr>draws := k\<rparr>" using ch by (rule choose_delivery_state)
  obtain p where w: "write_delivery wall i c ''resolved'' due did key p d1 = Inr d'"
    using assms by (auto simp: upsertDeliveryTx_def ch bind_result_Inr)
  obtain new where "insert_delivery new d1 = Inr d'" "nd_event_type new = ''resolved''" "nd_status new = ''pending''"
    "nd_next_attempt_at new = Some (unix due)" "nd_channel_id new = c" "nd_incident_id new = Some i"
    using w nl by (auto simp: write_delivery_def)
  then show ?thesis
    by (intro exI [of _ new]) (auto simp: insert_delivery_def list_ex_iff k split: if_splits)
qed

text \<open>
  When an incident is resolved while the delivery of its opening is in progress, and that
  attempt then fails with a retry left, the resolution is due before the opening is tried
  again: the channel is told of the resolution first and of the opening afterwards. Nothing
  cancels the opening, which is pending again.
\<close>

theorem opening_retried_after_resolution:
  assumes "n \<in> set (notification_deliveries d)" "distinct (map nd_id (notification_deliveries d))"
    and "nd_status n = ''in_progress''" "nd_event_type n = ''opened''" "nd_incident_id n = Some i" "nd_channel_id n = ch_id c"
    and "0 \<le> nd_attempts n" "nd_attempts n \<le> 5"
    and "resolve_for rnd wall i now c d = Inr d1"
    and "\<not> res_success r" "res_retryable r" "now \<le> later"
  shows "\<exists>resolution opening due. resolution \<in> set (notification_deliveries (finish later (nd_id n) r d1)) \<and>
           opening \<in> set (notification_deliveries (finish later (nd_id n) r d1)) \<and>
           nd_event_type resolution = ''resolved'' \<and> nd_status resolution = ''pending'' \<and>
           nd_incident_id resolution = Some i \<and> nd_channel_id resolution = ch_id c \<and>
           nd_next_attempt_at resolution = Some (unix now) \<and>
           nd_id opening = nd_id n \<and> nd_event_type opening = ''opened'' \<and> nd_status opening = ''pending'' \<and>
           nd_next_attempt_at opening = Some due \<and> unix now < due"
proof -
  let ?t = "upd_where (pending_lifecycle i (ch_id c)) (cancel_delivery now) (notification_deliveries d)"
  let ?row = "finished_row later (nd_attempts n + 1) r n"
  have "list_ex (attempted i (ch_id c)) (notification_deliveries d)"
    using assms(1,3,5,6) by (auto simp: list_ex_iff attempted_def)
  then have "upsertDeliveryTx rnd wall i (ch_id c) ''resolved'' now (d\<lparr>notification_deliveries := ?t\<rparr>) = Inr d1"
    using assms(9) by (simp add: resolve_for_def)
  from upsert_resolved [OF this] obtain new where new: "notification_deliveries d1 = ?t @ [new]" "nd_event_type new = ''resolved''"
    "nd_status new = ''pending''" "nd_next_attempt_at new = Some (unix now)" "nd_channel_id new = ch_id c"
    "nd_incident_id new = Some i" "\<forall>m \<in> set ?t. nd_id m \<noteq> nd_id new" by auto
  have nt: "n \<in> set ?t" by (rule upd_where_miss [OF assms(1)]) (simp add: pending_lifecycle_def assms(3))
  have "map nd_id ?t = map nd_id (notification_deliveries d)" by (simp add: upd_where_def cancel_delivery_def)
  then have "distinct (map nd_id ?t)" using assms(2) by simp
  then have dist: "distinct (map nd_id (?t @ [new]))" using new(7) by auto
  have f: "find (\<lambda>m. nd_id m = nd_id n) (notification_deliveries d1) = Some n"
    unfolding new(1) by (rule find_key [OF dist]) (use nt in simp)
  have fin: "notification_deliveries (finish later (nd_id n) r d1) =
      upd_where (\<lambda>m. nd_id m = nd_id n) (finished_row later (nd_attempts n + 1) r) (?t @ [new])"
    unfolding new(1) [symmetric] by (simp add: finish_def next_attempt_def f record_result_def)
  have row: "?row \<in> set (notification_deliveries (finish later (nd_id n) r d1))"
    unfolding fin by (rule upd_where_hit) (use nt in simp_all)
  have res: "new \<in> set (notification_deliveries (finish later (nd_id n) r d1))"
    unfolding fin by (rule upd_where_miss) (use new(7) nt in auto)
  obtain x where x: "retryDelay (nd_attempts n + 1) True (res_retryAfter r) = Some x" "x \<ge> minutes 1"
  proof -
    let ?s = "retryDelays ! nat (nd_attempts n + 1 - 1)"
    have s: "?s \<ge> minutes 1" using delay_nth [of "nd_attempts n + 1"] assms(7,8) by (auto simp: durations)
    have "minutes 1 \<le> hours 1" by (simp add: durations)
    moreover have "retryDelay (nd_attempts n + 1) True (res_retryAfter r) =
        Some (if res_retryAfter r > ?s then min (res_retryAfter r) (hours 1) else ?s)"
      using assms(7,8) by (simp add: retryDelay_def Let_def) (simp add: retryDelays_def)
    ultimately show ?thesis using that s by (auto simp: min_def)
  qed
  have "unix now < unix (later + x)"
    using x(2) assms(12) by (simp add: unix_def durations)
  then show ?thesis using row res new x(1) assms(4,10,11)
    by (intro exI [of _ new] exI [of _ ?row] exI [of _ "unix (later + x)"]) (simp add: finished_row_def)
qed

subsection \<open>What counts as delivered\<close>

text \<open>
  A webhook delivery succeeds exactly when the target passes the outbound policy and the
  server answers with a 2xx status; it may be retried exactly after a network error and after
  the statuses 408, 425, 429 and 5xx; and every other outcome is a failure with a non-empty
  code.
\<close>

theorem webhook_outcomes:
  "case webhook env ap now r s of (retry, code, after) \<Rightarrow>
     (code = [] \<longleftrightarrow>
        (\<exists>u resp. ValidateURL ap (env_parse_url env) (env_lookup env) (sec_URL s) [''https''] = Inr u \<and> env_new_request env (sec_URL s) \<and>
           env_http env (webhook_request env r s) = Inr resp \<and> 200 \<le> resp_StatusCode resp \<and> resp_StatusCode resp < 300)) \<and>
     (retry \<longleftrightarrow>
        (\<exists>u. ValidateURL ap (env_parse_url env) (env_lookup env) (sec_URL s) [''https''] = Inr u \<and> env_new_request env (sec_URL s) \<and>
           (case env_http env (webhook_request env r s) of
              Inl _ \<Rightarrow> True
            | Inr resp \<Rightarrow> resp_StatusCode resp \<in> {408, 425, 429} \<or> 500 \<le> resp_StatusCode resp))) \<and>
     (retry \<longrightarrow> code \<noteq> []) \<and> after \<le> hours 1"
proof (cases "ValidateURL ap (env_parse_url env) (env_lookup env) (sec_URL s) [''https'']")
  case (Inl e)
  then show ?thesis by (simp add: webhook_def durations)
next
  case u: (Inr u)
  have h: "0 \<le> hours 1" by (simp add: durations)
  show ?thesis
  proof (cases "env_new_request env (sec_URL s)")
    case False
    then show ?thesis by (simp add: webhook_def u h)
  next
    case True
    show ?thesis
    proof (cases "env_http env (webhook_request env r s)")
      case (Inl e)
      then show ?thesis using True h by (simp add: webhook_def u classifyNetwork_def)
    next
      case (Inr resp)
      then show ?thesis using True h parseRetryAfter_le [of env now "resp_RetryAfter resp"]
        by (auto simp: webhook_def u Let_def)
    qed
  qed
qed

subsection \<open>A channel that is switched off\<close>

definition silent :: "string \<Rightarrow> db \<Rightarrow> bool" where
  "silent i d \<longleftrightarrow> (\<forall>n \<in> set (notification_deliveries d). nd_channel_id n = i \<longrightarrow> nd_status n \<noteq> ''pending'')"

definition switched_off :: "string \<Rightarrow> db \<Rightarrow> bool" where
  "switched_off i d \<longleftrightarrow> (\<forall>c \<in> set (notification_channels d). ch_id c = i \<longrightarrow> \<not> active_channel c)"

lemma silent_upd:
  assumes "\<And>n. n \<in> set t \<Longrightarrow> nd_channel_id n = i \<Longrightarrow> nd_status (if p n then f n else n) \<noteq> ''pending''"
    and "\<And>n. nd_channel_id (f n) = nd_channel_id n"
  shows "silent i (d\<lparr>notification_deliveries := upd_where p f t\<rparr>)"
proof -
  have "nd_status m \<noteq> ''pending''" if m: "m \<in> set (upd_where p f t)" "nd_channel_id m = i" for m
  proof -
    obtain n where n: "n \<in> set t" "m = (if p n then f n else n)" using m(1) by (auto simp: upd_where_def)
    then have "nd_channel_id n = i" using m(2) assms(2) by (cases "p n") simp_all
    then show ?thesis using assms(1) n by simp
  qed
  then show ?thesis by (simp add: silent_def)
qed

lemma silent_cancel: "silent i d \<Longrightarrow> silent i (d\<lparr>notification_deliveries := upd_where q (cancel_delivery now) (notification_deliveries d)\<rparr>)"
  by (rule silent_upd) (simp_all add: silent_def cancel_delivery_def)

lemma cancel_pending_silent: "silent i (cancel_pending now i d)"
  unfolding cancel_pending_def by (rule silent_upd) (simp_all add: cancel_delivery_def)

lemma write_delivery_silent:
  assumes "write_delivery wall inc c e due did key p d = Inr d'" "c \<noteq> i" "silent i d"
  shows "silent i d'"
proof (cases "lifecycle_event e \<and> did \<noteq> [] \<and> list_ex (\<lambda>n. nd_id n = did) (notification_deliveries d)")
  case True
  have "d' = d\<lparr>notification_deliveries := upd_where (\<lambda>n. nd_id n = did)
             (\<lambda>n. n\<lparr>nd_payload := p, nd_next_attempt_at := Some (unix due), nd_updated_at := unix wall\<rparr>)
             (notification_deliveries d)\<rparr>"
    using assms(1) unfolding write_delivery_def if_P [OF True] by simp
  then show ?thesis using assms(3) by simp (rule silent_upd, simp_all add: silent_def)
next
  case False
  show ?thesis using assms(1) unfolding write_delivery_def if_not_P [OF False]
    using assms(2,3) by (auto simp: insert_delivery_def silent_def split: if_splits)
qed

lemma upsertDeliveryTx_silent:
  assumes "upsertDeliveryTx rnd wall inc c e due d = Inr d'" "c \<noteq> i" "silent i d"
  shows "silent i d'"
proof -
  obtain did key ev d1 where ch: "choose_delivery rnd inc c e d = (did, key, ev, d1)" by (metis prod_cases4)
  obtain k where k: "d1 = d\<lparr>draws := k\<rparr>" using ch by (rule choose_delivery_state)
  obtain p where w: "write_delivery wall inc c e due did key p d1 = Inr d'"
    using assms(1) by (auto simp: upsertDeliveryTx_def ch bind_result_Inr)
  show ?thesis by (rule write_delivery_silent [OF w assms(2)]) (use assms(3) in \<open>simp add: k silent_def\<close>)
qed

lemma enqueueIncidentTx_silent:
  assumes "enqueueIncidentTx rnd wall inc e sev due d = Inr d'" "switched_off i d" "silent i d"
  shows "silent i d'"
proof (rule fold_result_inv [where P = "silent i", OF assms(1) [unfolded enqueueIncidentTx_def]])
  fix c a b assume c: "c \<in> set (filter active_channel (notification_channels d))" "silent i a"
    "enqueue_for rnd wall inc e sev due c a = Inr b"
  have "ch_id c \<noteq> i" using c(1) assms(2) by (auto simp: switched_off_def)
  then show "silent i b" using c(2,3) upsertDeliveryTx_silent by (auto simp: enqueue_for_def split: if_splits)
qed (rule assms(3))

lemma resolve_for_silent:
  assumes "resolve_for rnd wall inc now c d = Inr d'" "ch_id c \<noteq> i" "silent i d"
  shows "silent i d'"
proof -
  note t = silent_cancel [OF assms(3)]
  show ?thesis
  proof (cases "list_ex (attempted inc (ch_id c)) (notification_deliveries d)")
    case True
    then show ?thesis using assms(1) upsertDeliveryTx_silent [OF _ assms(2) t] by (simp add: resolve_for_def)
  next
    case False
    then show ?thesis using assms(1) t by (auto simp: resolve_for_def)
  qed
qed

lemma enqueueResolutionTx_silent:
  assumes "enqueueResolutionTx rnd wall inc now d = Inr d'" "switched_off i d" "silent i d"
  shows "silent i d'"
proof (rule fold_result_inv [where P = "silent i", OF assms(1) [unfolded enqueueResolutionTx_def]])
  fix c a b assume c: "c \<in> set (filter (\<lambda>c. active_channel c \<and> ch_notify_resolved c) (notification_channels d))" "silent i a"
    "resolve_for rnd wall inc now c a = Inr b"
  have "ch_id c \<noteq> i" using c(1) assms(2) by (auto simp: switched_off_def)
  then show "silent i b" using resolve_for_silent c(2,3) by blast
qed (rule assms(3))

lemma PatchChannel_off:
  assumes "PatchChannel pa keyed now i c p d = (d', Inr ch)" "\<not> chan_Enabled c"
  shows "silent i d' \<and> switched_off i d'"
proof -
  let ?q = "\<lambda>r. ch_id r = i \<and> ch_deleted_at r = None"
  have off: "switched_off i (cancel_pending now i (e\<lparr>notification_channels := upd_where ?q f t\<rparr>))"
    if "\<And>r. \<not> ch_enabled (f r)" for e f t
    using that by (auto simp: switched_off_def cancel_pending_def upd_where_def active_channel_def split: if_splits)
  show ?thesis using assms cancel_pending_silent off
    by (auto simp: PatchChannel_def Let_def split: sum.splits)
qed

lemma cancel_pending_channels [simp]: "notification_channels (cancel_pending now i d) = notification_channels d"
  by (simp add: cancel_pending_def)

lemma DeleteChannel_Inr:
  assumes "DeleteChannel now i d = Inr d'"
  shows "silent i d' \<and> (\<forall>c \<in> set (notification_channels d'). ch_id c = i \<longrightarrow> ch_deleted_at c \<noteq> None)"
proof -
  let ?f = "\<lambda>r. r\<lparr>ch_enabled := False, ch_deleted_at := Some (unix now), ch_updated_at := unix now\<rparr>"
  let ?p = "\<lambda>r. ch_id r = i \<and> ch_deleted_at r = None"
  let ?e = "d\<lparr>notification_channels := upd_where ?p ?f (notification_channels d)\<rparr>"
  have e: "d' = cancel_pending now i ?e" using assms by (simp add: DeleteChannel_def split: if_splits)
  have "ch_deleted_at c \<noteq> None" if c: "c \<in> set (upd_where ?p ?f (notification_channels d))" "ch_id c = i" for c
  proof -
    obtain r where r: "c = (if ?p r then ?f r else r)" using c(1) unfolding upd_where_def set_map by blast
    show ?thesis using c(2) unfolding r by (cases "?p r") auto
  qed
  then show ?thesis unfolding e using cancel_pending_silent [of i now ?e] by simp
qed

lemma DeleteChannel_off:
  assumes "DeleteChannel now i d = Inr d'"
  shows "silent i d' \<and> switched_off i d'"
  using DeleteChannel_Inr [OF assms] unfolding switched_off_def active_channel_def by blast

lemma DeleteChannel_gone:
  assumes "DeleteChannel now i d = Inr d'"
  shows "Channel_by_id i d' = Inl ErrNoRows"
  by (rule Channel_by_id_Inl) (use DeleteChannel_Inr [OF assms] in blast)

lemma load_delivery_off:
  assumes "switched_off i d" "n \<in> set (notification_deliveries d)" "nd_channel_id n = i"
    "distinct (map nd_id (notification_deliveries d))"
  shows "load_delivery (nd_id n) d = None"
proof -
  have "find (\<lambda>m. nd_id m = nd_id n) (notification_deliveries d) = Some n" by (rule find_key [OF assms(4,2)])
  moreover have "find (\<lambda>c. ch_id c = i \<and> active_channel c) (notification_channels d) = None"
    using assms(1) by (auto simp: find_None switched_off_def)
  ultimately show ?thesis by (simp add: load_delivery_def assms(3))
qed

text \<open>
  After a channel is deleted, or disabled through a patch: it has no pending delivery, no
  later incident event queues one for it, and a delivery of it that a runner already holds is
  not sent, because the runner no longer finds its channel; a deleted channel is not found any
  more.
\<close>

theorem channel_off_is_silent:
  assumes "DeleteChannel now i d = Inr d' \<or> (\<exists>pa keyed c p ch. PatchChannel pa keyed now i c p d = (d', Inr ch) \<and> \<not> chan_Enabled c)"
  shows "(\<forall>n \<in> set (notification_deliveries d'). nd_channel_id n = i \<longrightarrow> nd_status n \<noteq> ''pending'') \<and>
         (\<forall>rnd wall inc e sev due d''. enqueueIncidentTx rnd wall inc e sev due d' = Inr d'' \<longrightarrow>
            (\<forall>n \<in> set (notification_deliveries d''). nd_channel_id n = i \<longrightarrow> nd_status n \<noteq> ''pending'')) \<and>
         (\<forall>rnd wall inc t d''. enqueueResolutionTx rnd wall inc t d' = Inr d'' \<longrightarrow>
            (\<forall>n \<in> set (notification_deliveries d''). nd_channel_id n = i \<longrightarrow> nd_status n \<noteq> ''pending'')) \<and>
         (distinct (map nd_id (notification_deliveries d')) \<longrightarrow>
            (\<forall>n \<in> set (notification_deliveries d'). nd_channel_id n = i \<longrightarrow> load_delivery (nd_id n) d' = None)) \<and>
         (DeleteChannel now i d = Inr d' \<longrightarrow> Channel_by_id i d' = Inl ErrNoRows)"
proof -
  have off: "silent i d'" "switched_off i d'" using assms DeleteChannel_off PatchChannel_off by blast+
  show ?thesis
    using off enqueueIncidentTx_silent [OF _ off(2,1)] enqueueResolutionTx_silent [OF _ off(2,1)]
      load_delivery_off [OF off(2)] DeleteChannel_gone
    unfolding silent_def by blast
qed

end
