(* ===== verification/Delivery_Samples.thy ===== *)
theory Delivery_Samples
  imports Delivery_Properties
begin

section \<open>Sample runs of the delivery worker\<close>

text \<open>
  One channel with one test delivery, taken through the dispatcher and a runner, and an incident
  that is resolved while its opening is being delivered: concrete inputs for the properties of
  the channels and of the worker.
\<close>

definition ids :: "nat \<Rightarrow> string" where
  "ids n = replicate (Suc n) (CHR ''x'')"

definition hook_channel :: Channel where
  "hook_channel = \<lparr>chan_ID = [], chan_Name = ''ops'', chan_Kind = ''webhook'', chan_Enabled = True, chan_MinimumSeverity = [],
     chan_NotifyResolved = True, chan_Config = None, chan_SecretConfigured = False, chan_CreatedAt = 0, chan_UpdatedAt = 0\<rparr>"

definition hook_secrets :: ChannelSecrets where
  "hook_secrets = \<lparr>sec_URL = ''https://hooks.example/x'', sec_BearerToken = [], sec_SigningSecret = [], sec_Host = [],
     sec_Username = [], sec_Password = [], sec_Sender = [], sec_Recipients = []\<rparr>"

definition created :: "db \<times> Channel result" where
  "created = CreateChannel ids (\<lambda>_. True) True (seconds 100) hook_channel hook_secrets empty_db"

definition tested :: "(string \<times> db) result" where
  "tested = Test ids (seconds 200) ''chn_x'' (fst created)"

text \<open>A network in which the resolver fails.\<close>

definition dead_net :: net_env where
  "dead_net = \<lparr>env_lookup = (\<lambda>_. None), env_parse_url = (\<lambda>_. Some \<lparr>url_Scheme = ''https'', url_Hostname = ''hooks.example'', url_HasUser = False\<rparr>),
     env_split_host_port = (\<lambda>_. Inl ''missing port''), env_new_request = (\<lambda>_. True),
     env_http = (\<lambda>_. Inr \<lparr>resp_StatusCode = 503, resp_RetryAfter = []\<rparr>), env_parse_time = (\<lambda>_. None),
     env_dial = (\<lambda>_ _. Inl \<lparr>ne_deadline = True, ne_dns = False, ne_certificate = False, ne_blocked = False, ne_text = []\<rparr>),
     env_parse_addr = (\<lambda>a. Some a), env_hmac = (\<lambda>_ _. []), env_json = (\<lambda>_. []), env_rfc3339 = (\<lambda>_. [])\<rparr>"

text \<open>A network in which the server is overloaded.\<close>

definition busy_net :: net_env where
  "busy_net = dead_net\<lparr>env_lookup := (\<lambda>_. Some [ipv4 93 184 216 34])\<rparr>"

definition plain_config :: WorkerConfig where
  "plain_config = \<lparr>cfg_MaxConcurrency = 2, cfg_QueueCapacity = 5, cfg_DeliveryTimeout = 0, cfg_ReminderInterval = 0, cfg_AllowPrivate = False\<rparr>"

definition started :: "db \<times> Worker result" where
  "started = Start ids (NewWorker plain_config) 0 0 empty_db"

definition busy_state :: "Worker \<times> db" where
  "busy_state = runner_step busy_net False True (seconds 201) 0 (runner_step busy_net False True (seconds 201) 0
     (dispatch_tick (NewWorker plain_config) (seconds 201) (projr (snd started), snd (projr tested))))"


lemma tested_ok: "tested = Inr (fst (projr tested), snd (projr tested))"
proof -
  have "\<not> isl tested" by code_simp
  then show ?thesis by (cases tested) simp_all
qed

lemma started_ok: "started = (fst started, Inr (projr (snd started)))"
proof -
  have "\<not> isl (snd started)" by code_simp
  then show ?thesis by (cases "snd started") (simp_all add: prod_eq_iff)
qed

lemma busy_reachable: "delivery_reachable ids plain_config busy_state"
proof -
  have 1: "delivery_reachable ids plain_config (projr (snd started), fst started)"
    by (rule dr_start [OF dr_init trans [OF started_def [symmetric] started_ok]])
  have d: "notification_deliveries (fst started) = []" "notification_deliveries empty_db = []" by code_simp+
  have 2: "delivery_reachable ids plain_config (projr (snd started), empty_db)"
    by (rule dr_writer [OF 1 qw_other]) (simp add: d)
  have 3: "delivery_reachable ids plain_config (projr (snd started), fst created)"
    unfolding created_def by (rule dr_writer [OF 2 qw_CreateChannel])
  have 4: "delivery_reachable ids plain_config (projr (snd started), snd (projr tested))"
    by (rule dr_writer [OF 3 qw_Test [OF trans [OF tested_def [symmetric] tested_ok]]])
  have 5: "delivery_reachable ids plain_config (dispatch_tick (NewWorker plain_config) (seconds 201) (projr (snd started), snd (projr tested)))"
    by (rule dr_tick [OF 4])
  have l: "0 < length (wk_runners (fst (dispatch_tick (NewWorker plain_config) (seconds 201) (projr (snd started), snd (projr tested)))))"
    "0 < length (wk_runners (fst (runner_step busy_net False True (seconds 201) 0
        (dispatch_tick (NewWorker plain_config) (seconds 201) (projr (snd started), snd (projr tested))))))"
    by code_simp+
  have ap: "cfg_AllowPrivate plain_config = False" by (simp add: plain_config_def)
  note 6 = dr_runner [OF 5 l(1), of busy_net True "seconds 201", unfolded ap]
  show ?thesis unfolding busy_state_def by (rule dr_runner [OF 6 l(2), of busy_net True "seconds 201", unfolded ap])
qed


theorem create_channel_duplicate_witness:
  "\<exists>e. snd (CreateChannel ids (\<lambda>_. True) True 0 (hook_channel\<lparr>chan_ID := ''chn_x'', chan_MinimumSeverity := ''warning'', chan_Config := Some (\<lambda>_. None)\<rparr>)
         hook_secrets (fst created)) = Inl e"
proof -
  let ?c = "hook_channel\<lparr>chan_ID := ''chn_x'', chan_MinimumSeverity := ''warning'', chan_Config := Some (\<lambda>_. None)\<rparr>"
  let ?row = "hd (notification_channels (fst created))"
  have 1: "live_channels (fst created) < 32" by code_simp
  have 2: "chan_ID ?c \<noteq> []" "chan_MinimumSeverity ?c \<noteq> []" "chan_Config ?c = Some (\<lambda>_. None)" by simp_all
  have "notification_channels (fst created) \<noteq> []" by code_simp
  then have 3: "?row \<in> set (notification_channels (fst created))" by simp
  have 4: "ch_id ?row = chan_ID ?c" by code_simp
  have 5: "validateChannel (\<lambda>_. True) ?c hook_secrets = Inr ()" by code_simp
  show ?thesis using create_channel_duplicate [OF 1 2(1) 3 4 2(2,3) 5, of ids 0] by blast
qed

theorem deliveries_exclusive_witness:
  "\<exists>!k. k < length (wk_runners (fst busy_state)) \<and> wk_runners (fst busy_state) ! k \<noteq> Idle \<and>
        held (wk_runners (fst busy_state) ! k) = ''del_xx''"
proof -
  let ?n = "hd (notification_deliveries (snd busy_state))"
  have r: "delivery_reachable ids plain_config (fst busy_state, snd busy_state)" using busy_reachable by simp
  have ne: "notification_deliveries (snd busy_state) \<noteq> []" by code_simp
  then have n: "?n \<in> set (notification_deliveries (snd busy_state))" by simp
  have st: "nd_status ?n = ''in_progress''" and i: "nd_id ?n = ''del_xx''" by code_simp+
  show ?thesis
    using deliveries_exclusive [OF r, THEN conjunct2, rule_format, OF n st] unfolding i by simp
qed

theorem worker_bounds_witness:
  "nd_attempts (hd (notification_deliveries (snd busy_state))) \<le> 6 \<and> length (wk_queue (fst busy_state)) \<le> 5"
proof -
  let ?n = "hd (notification_deliveries (snd busy_state))"
  have r: "delivery_reachable ids plain_config (fst busy_state, snd busy_state)" using busy_reachable by simp
  have "notification_deliveries (snd busy_state) \<noteq> []" by code_simp
  then have n: "?n \<in> set (notification_deliveries (snd busy_state))" by simp
  have st: "nd_status ?n = ''in_progress''" by code_simp
  have c: "cfg_QueueCapacity (NewWorker plain_config) = 5" by (simp add: NewWorker_def plain_config_def Let_def)
  show ?thesis using worker_bounds [OF r] n st unfolding c by auto
qed

definition busy_week :: "(net_env \<times> time) list" where
  "busy_week = map (\<lambda>k. (busy_net, seconds 200 + hours (12 * k))) [1, 2, 3, 4, 5, 6, 7]"

theorem delivery_settles_witness:
  "\<exists>n. delivery_of ''del_xx'' (deliver_runs False True ''del_xx'' busy_week (snd (projr tested))) = Some n \<and>
       (nd_status n = ''succeeded'' \<or> nd_status n = ''permanent_failure'')"
proof -
  let ?d = "snd (projr tested)"
  have "map (\<lambda>n. (nd_id n, nd_status n, nd_next_attempt_at n, nd_attempts n)) (notification_deliveries ?d) =
      [(''del_xx'', ''pending'', Some 200, 0)]" by code_simp
  then obtain n where t: "notification_deliveries ?d = [n]" and i: "nd_id n = ''del_xx''"
    and 2: "nd_status n = ''pending''" "nd_next_attempt_at n = Some 200" "nd_attempts n = 0"
    by (auto simp: map_eq_Cons_conv)
  have 1: "delivery_of ''del_xx'' ?d = Some n" unfolding delivery_of_def t by (simp add: i)
  have 3: "0 \<le> nd_attempts n" "nd_attempts n \<le> 6" using 2(3) by simp_all
  have 4: "\<forall>m \<in> set (notification_deliveries ?d). nd_status m \<noteq> ''in_progress''"
    "distinct (map nd_id (notification_deliveries ?d))" unfolding t by (simp_all add: 2)
  have 6: "spaced 200 busy_week" "length busy_week = 7"
    by (simp_all add: busy_week_def unix_def durations)
  show ?thesis by (rule delivery_settles [OF 1 2(1,2) 3 4 6])
qed

subsection \<open>A resolution that overtakes its opening\<close>

definition outage :: incident_row where
  "outage = \<lparr>in_id = ''inc_1'', in_group_key = ''host:server'', in_status = ''open'', in_severity = ''critical'',
     in_target_type = ''host'', in_target_id = ''server'', in_title = ''host incident on server'', in_opened_at = 50, in_updated_at = 50,
     in_resolved_at = None, in_version = 1, in_next_reminder_at = None\<rparr>"

definition first_try :: delivery_row where
  "first_try = \<lparr>nd_id = ''del_1'', nd_channel_id = ''chn_x'', nd_incident_id = Some ''inc_1'', nd_event_type = ''opened'',
     nd_payload = TestPayload [] [], nd_idempotency_key = ''idem_1'', nd_status = ''in_progress'', nd_attempts = 0,
     nd_next_attempt_at = Some 60, nd_started_at = Some 61, nd_completed_at = None, nd_failure_code = None,
     nd_created_at = 50, nd_updated_at = 61\<rparr>"

definition outage_db :: db where
  "outage_db = (fst created)\<lparr>incidents := [outage], notification_deliveries := [first_try]\<rparr>"

definition hook_row :: channel_row where
  "hook_row = hd (notification_channels (fst created))"

definition overtaken :: "db result" where
  "overtaken = resolve_for ids (seconds 70) ''inc_1'' (seconds 70) hook_row outage_db"

theorem opening_retried_after_resolution_witness:
  "\<exists>resolution again due.
     resolution \<in> set (notification_deliveries (finish (seconds 76) ''del_1'' \<lparr>res_success = False, res_retryable = True, res_code = ''timeout'', res_retryAfter = 0\<rparr> (projr overtaken))) \<and>
     again \<in> set (notification_deliveries (finish (seconds 76) ''del_1'' \<lparr>res_success = False, res_retryable = True, res_code = ''timeout'', res_retryAfter = 0\<rparr> (projr overtaken))) \<and>
     nd_event_type resolution = ''resolved'' \<and> nd_next_attempt_at resolution = Some 70 \<and>
     nd_event_type again = ''opened'' \<and> nd_status again = ''pending'' \<and> nd_next_attempt_at again = Some due \<and> 70 < due"
proof -
  let ?r = "\<lparr>res_success = False, res_retryable = True, res_code = ''timeout'', res_retryAfter = 0\<rparr>"
  have d: "notification_deliveries outage_db = [first_try]" by (simp add: outage_db_def)
  have 1: "first_try \<in> set (notification_deliveries outage_db)" "distinct (map nd_id (notification_deliveries outage_db))" by (simp_all add: d)
  have 2: "nd_status first_try = ''in_progress''" "nd_event_type first_try = ''opened''" "nd_incident_id first_try = Some ''inc_1''"
    "0 \<le> nd_attempts first_try" "nd_attempts first_try \<le> 5" "nd_id first_try = ''del_1''" by (simp_all add: first_try_def)
  have 3: "nd_channel_id first_try = ch_id hook_row" by code_simp
  have "\<not> isl overtaken" by code_simp
  then have 4: "resolve_for ids (seconds 70) ''inc_1'' (seconds 70) hook_row outage_db = Inr (projr overtaken)"
    unfolding overtaken_def [symmetric] by (cases overtaken) simp_all
  have 5: "\<not> res_success ?r" "res_retryable ?r" "seconds 70 \<le> seconds 76" by (simp_all add: durations)
  have u: "unix (seconds 70) = 70" by (simp add: unix_def durations)
  show ?thesis using opening_retried_after_resolution [OF 1 2(1-3) 3 2(4,5) 4 5] unfolding u 2(6) by blast
qed

theorem channel_off_is_silent_witness:
  "\<exists>d' n. DeleteChannel (seconds 300) ''chn_x'' (snd (projr tested)) = Inr d' \<and> Channel_by_id ''chn_x'' d' = Inl ErrNoRows \<and>
        n \<in> set (notification_deliveries d') \<and> nd_channel_id n = ''chn_x'' \<and> nd_status n \<noteq> ''pending''"
proof -
  let ?r = "DeleteChannel (seconds 300) ''chn_x'' (snd (projr tested))"
  have "\<not> isl ?r" by code_simp
  then obtain d' where d': "?r = Inr d'" by (cases ?r) simp_all
  then have p: "d' = projr ?r" by simp
  have "map nd_channel_id (notification_deliveries (projr ?r)) = [''chn_x'']" by code_simp
  then obtain n where n: "n \<in> set (notification_deliveries d')" "nd_channel_id n = ''chn_x''"
    unfolding p [symmetric] by (auto simp: map_eq_Cons_conv)
  show ?thesis using channel_off_is_silent [OF disjI1 [OF d']] d' n by blast
qed

subsection \<open>Retries and webhooks\<close>

theorem retry_delay_bounds_witness:
  "\<exists>x. retryDelay 2 True (parseRetryAfter dead_net 0 ''600'') = Some x \<and> minutes 5 \<le> x \<and> x \<le> hours 1"
proof -
  have d: "retryDelays ! nat (2 - 1) = minutes 5" by (simp add: retryDelays_def)
  have m: "max (minutes 5) (hours 1) = hours 1" by (simp add: durations)
  show ?thesis using retry_delay_bounds [where k = 2 and retryable = True and env = dead_net and now = 0 and v = "''600''"] unfolding d m
    by (cases "retryDelay 2 True (parseRetryAfter dead_net 0 ''600'')") auto
qed

definition hook_delivery :: deliveryRow where
  "hook_delivery = \<lparr>dr_id = ''del_xx'', dr_channelID = ''chn_x'', dr_event = ''test'', dr_payload = TestPayload ''del_xx'' ''idem_xxx'',
     dr_key = ''idem_xxx'', dr_kind = ''webhook'', dr_config = (\<lambda>_. None), dr_secretRef = ''notification.channel.chn_x'', dr_attempt = 0\<rparr>"

theorem webhook_outcomes_witness:
  "fst (webhook busy_net False 0 hook_delivery hook_secrets) \<and> fst (snd (webhook busy_net False 0 hook_delivery hook_secrets)) \<noteq> []"
proof -
  have r: "fst (webhook busy_net False 0 hook_delivery hook_secrets)" by code_simp
  show ?thesis using webhook_outcomes [where env = busy_net and ap = False and now = 0 and r = hook_delivery and s = hook_secrets] r
    by (cases "webhook busy_net False 0 hook_delivery hook_secrets") auto
qed

end
