(* ===== verification/Checks.thy ===== *)
theory Checks
  imports Monitor_Schema Outbound
begin

section \<open>Health checks\<close>

text \<open>
  \<^verbatim>\<open>internal/checks/types.go\<close> and \<^verbatim>\<open>internal/checks/repository.go\<close>: the definition of a check, its
  validation, and the tables of checks and of their latest state. \<open>parse\<close> is \<open>url.Parse\<close>, \<open>now\<close>
  the reading of \<open>time.Now()\<close> inside an operation.
\<close>

definition MinInterval :: duration where "MinInterval = seconds 10"
definition MaxInterval :: duration where "MaxInterval = hours 1"
definition MinTimeout :: duration where "MinTimeout = seconds 1"
definition MaxTimeout :: duration where "MaxTimeout = seconds 30"
definition MaxBodyRead :: int where "MaxBodyRead = 65536"

definition FailureDNS :: string where "FailureDNS = ''dns''"
definition FailureTimeout :: string where "FailureTimeout = ''timeout''"
definition FailureConnection :: string where "FailureConnection = ''connection''"
definition FailureTLS :: string where "FailureTLS = ''tls_handshake''"
definition FailureUnexpectedStatus :: string where "FailureUnexpectedStatus = ''unexpected_status''"
definition FailureBodyMismatch :: string where "FailureBodyMismatch = ''body_mismatch''"
definition FailureTargetBlocked :: string where "FailureTargetBlocked = ''target_blocked''"

lemmas failure_codes = FailureDNS_def FailureTimeout_def FailureConnection_def FailureTLS_def
  FailureUnexpectedStatus_def FailureBodyMismatch_def FailureTargetBlocked_def

record Check =
  check_ID :: string
  check_ResourceID :: string
  check_Name :: string
  check_URL :: string
  check_Method :: string
  check_Interval :: duration
  check_Timeout :: duration
  check_ExpectedStatusMin :: int
  check_ExpectedStatusMax :: int
  check_BodySubstring :: string
  check_Required :: bool
  check_Enabled :: bool
  check_CreatedAt :: time
  check_UpdatedAt :: time

record Result =
  res_CheckID :: string
  res_Status :: string
  res_FailureCode :: string
  res_HTTPStatus :: int
  res_Latency :: duration
  res_LatencyMS :: int
  res_CheckedAt :: time

definition Validate :: "(string \<Rightarrow> url option) \<Rightarrow> Check \<Rightarrow> unit result" where
  "Validate parse c =
    (if trim_space (check_ResourceID c) = [] \<or> trim_space (check_Name c) = []
     then Inl (ErrMsg ''resource and name are required'')
     else if length (check_Name c) > 120 \<or> int (length (check_URL c)) > 2048 then Inl (ErrMsg ''name or URL is too long'')
     else case parse (check_URL c) of
            None \<Rightarrow> Inl (ErrMsg ''target must be an HTTP or HTTPS URL without credentials'')
          | Some u \<Rightarrow>
              if url_Hostname u = [] \<or> (url_Scheme u \<noteq> ''http'' \<and> url_Scheme u \<noteq> ''https'') \<or> url_HasUser u
              then Inl (ErrMsg ''target must be an HTTP or HTTPS URL without credentials'')
              else
                (let host = to_lower (trim_suffix (url_Hostname u) ''.'')
                 in if host = ''localhost'' \<or> has_suffix host ''.localhost'' then Inl (ErrMsg ''localhost targets are blocked'')
                    else if check_Method c \<noteq> ''GET'' \<and> check_Method c \<noteq> ''HEAD'' then Inl (ErrMsg ''method must be GET or HEAD'')
                    else if check_Interval c < MinInterval \<or> check_Interval c > MaxInterval
                    then Inl (ErrMsg ''interval must be between 10 seconds and 1 hour'')
                    else if check_Timeout c < MinTimeout \<or> check_Timeout c > MaxTimeout
                    then Inl (ErrMsg ''timeout must be between 1 and 30 seconds'')
                    else if check_ExpectedStatusMin c < 100 \<or> check_ExpectedStatusMax c > 599 \<or>
                            check_ExpectedStatusMin c > check_ExpectedStatusMax c
                    then Inl (ErrMsg ''invalid expected status range'')
                    else if length (check_BodySubstring c) > 256 then Inl (ErrMsg ''body substring exceeds 256 bytes'')
                    else Inr ()))"

subsection \<open>The repository\<close>

definition nullString :: "string \<Rightarrow> string option" where
  "nullString v = (if v = [] then None else Some v)"

definition check_columns :: "Check \<Rightarrow> int \<Rightarrow> check_row \<Rightarrow> check_row" where
  "check_columns c updated r = r\<lparr>hc_resource_id := check_ResourceID c, hc_name := check_Name c, hc_url := check_URL c,
     hc_method := check_Method c, hc_interval_seconds := trunc_div (check_Interval c) (seconds 1),
     hc_timeout_seconds := trunc_div (check_Timeout c) (seconds 1), hc_status_min := check_ExpectedStatusMin c,
     hc_status_max := check_ExpectedStatusMax c, hc_body_substring := nullString (check_BodySubstring c),
     hc_required := check_Required c, hc_enabled := check_Enabled c, hc_updated_at := updated\<rparr>"

definition new_check_row :: "Check \<Rightarrow> int \<Rightarrow> check_row" where
  "new_check_row c now = check_columns c now
     \<lparr>hc_id = check_ID c, hc_resource_id = [], hc_name = [], hc_url = [], hc_method = [], hc_interval_seconds = 0,
      hc_timeout_seconds = 0, hc_status_min = 0, hc_status_max = 0, hc_body_substring = None, hc_required = True,
      hc_enabled = True, hc_created_at = now, hc_updated_at = now\<rparr>"

text \<open>The foreign key to the resource and the primary key are the constraints that can fail here.\<close>

definition Create :: "(string \<Rightarrow> url option) \<Rightarrow> time \<Rightarrow> Check \<Rightarrow> db \<Rightarrow> db result" where
  "Create parse now c d =
    bind_result (Validate parse c) (\<lambda>_.
      if check_ID c = [] then Inl (ErrMsg ''check id is required'')
      else if list_ex (\<lambda>r. hc_id r = check_ID c) (health_checks d) \<or>
              \<not> list_ex (\<lambda>r. rs_id r = check_ResourceID c) (resources d)
      then Inl (ErrConstraint ''health_checks'')
      else Inr (d\<lparr>health_checks := health_checks d @ [new_check_row c (unix now)]\<rparr>))"

definition Update :: "(string \<Rightarrow> url option) \<Rightarrow> time \<Rightarrow> Check \<Rightarrow> db \<Rightarrow> db result" where
  "Update parse now c d =
    bind_result (Validate parse c) (\<lambda>_.
      if \<not> list_ex (\<lambda>r. hc_id r = check_ID c) (health_checks d) then Inl ErrNoRows
      else if \<not> list_ex (\<lambda>r. rs_id r = check_ResourceID c) (resources d) then Inl (ErrConstraint ''health_checks'')
      else Inr (d\<lparr>health_checks := upd_where (\<lambda>r. hc_id r = check_ID c) (check_columns c (unix now)) (health_checks d)\<rparr>))"

definition Delete :: "string \<Rightarrow> db \<Rightarrow> db" where
  "Delete i d = d\<lparr>health_checks := del_where (\<lambda>r. hc_id r = i) (health_checks d),
     health_check_state := del_where (\<lambda>s. cs_check_id s = i) (health_check_state d)\<rparr>"

definition scanCheck :: "check_row \<Rightarrow> Check" where
  "scanCheck r = \<lparr>check_ID = hc_id r, check_ResourceID = hc_resource_id r, check_Name = hc_name r, check_URL = hc_url r,
     check_Method = hc_method r, check_Interval = wrap64 (hc_interval_seconds r * seconds 1),
     check_Timeout = wrap64 (hc_timeout_seconds r * seconds 1), check_ExpectedStatusMin = hc_status_min r,
     check_ExpectedStatusMax = hc_status_max r,
     check_BodySubstring = (case hc_body_substring r of None \<Rightarrow> [] | Some b \<Rightarrow> b), check_Required = hc_required r,
     check_Enabled = hc_enabled r, check_CreatedAt = from_unix (hc_created_at r), check_UpdatedAt = from_unix (hc_updated_at r)\<rparr>"

definition Get :: "string \<Rightarrow> db \<Rightarrow> Check result" where
  "Get i d = (case find (\<lambda>r. hc_id r = i) (health_checks d) of None \<Rightarrow> Inl ErrNoRows | Some r \<Rightarrow> Inr (scanCheck r))"

definition List_checks :: "int \<Rightarrow> int \<Rightarrow> db \<Rightarrow> Check list" where
  "List_checks limit offset d =
    (let limit = (if limit < 1 \<or> limit > 100 then 50 else limit); offset = (if offset < 0 then 0 else offset)
     in map scanCheck (take (nat limit) (drop (nat offset) (sort_key (\<lambda>r. - hc_created_at r) (health_checks d)))))"

definition state_of_check :: "string \<Rightarrow> db \<Rightarrow> check_state_row option" where
  "state_of_check i d = find (\<lambda>s. cs_check_id s = i) (health_check_state d)"

definition PrometheusStates :: "int \<Rightarrow> db \<Rightarrow> (string \<times> string \<times> string) list" where
  "PrometheusStates limit d =
    (let limit = (if limit < 1 \<or> limit > 1000 then 1000 else limit)
     in map (\<lambda>c. (hc_id c, hc_resource_id c, case state_of_check (hc_id c) d of None \<Rightarrow> ''unknown'' | Some s \<Rightarrow> cs_status s))
          (take (nat limit) (sort_key hc_id (filter hc_enabled (health_checks d)))))"

definition next_run :: "db \<Rightarrow> check_row \<Rightarrow> int option" where
  "next_run d c = (case state_of_check (hc_id c) d of None \<Rightarrow> None | Some s \<Rightarrow> cs_next_run_at s)"

definition runnable :: "db \<Rightarrow> check_row \<Rightarrow> bool" where
  "runnable d c = (hc_enabled c \<and>
     list_ex (\<lambda>r. rs_id r = hc_resource_id c \<and> rs_archived_at r = None \<and> rs_status r \<noteq> ''paused'' \<and> rs_status r \<noteq> ''archived'')
       (resources d))"

definition is_due :: "time \<Rightarrow> db \<Rightarrow> check_row \<Rightarrow> bool" where
  "is_due now d c = (runnable d c \<and> (case next_run d c of None \<Rightarrow> True | Some t \<Rightarrow> t \<le> unix now))"

definition Due :: "time \<Rightarrow> int \<Rightarrow> db \<Rightarrow> Check list result" where
  "Due now limit d =
    (if limit < 1 \<or> limit > 1000 then Inl (ErrMsg ''invalid due-check limit'')
     else Inr (map scanCheck (take (nat limit)
            (sort_key (\<lambda>c. case next_run d c of None \<Rightarrow> 0 | Some t \<Rightarrow> t) (sort_key hc_id (filter (is_due now d) (health_checks d)))))))"

text \<open>\<open>time.Time.IsZero\<close>: the first instant of year 1.\<close>

definition zero_time :: time where
  "zero_time = - seconds 62135596800"

definition result_row :: "Check \<Rightarrow> Result \<Rightarrow> time \<Rightarrow> check_state_row" where
  "result_row c r checked = \<lparr>cs_check_id = res_CheckID r, cs_status = res_Status r, cs_failure_code = nullString (res_FailureCode r),
     cs_latency_ms = Some (res_LatencyMS r), cs_checked_at = Some (unix checked),
     cs_successes = (if res_Status r = ''success'' then 1 else 0), cs_failures = (if res_Status r = ''failure'' then 1 else 0),
     cs_next_run_at = Some (unix (checked + check_Interval c)), cs_updated_at = unix checked\<rparr>"

definition SaveResult :: "time \<Rightarrow> Check \<Rightarrow> Result \<Rightarrow> db \<Rightarrow> db result" where
  "SaveResult now c r d =
    (let row = result_row c r (if res_CheckedAt r = zero_time then now else res_CheckedAt r)
     in if \<not> list_ex (\<lambda>k. hc_id k = res_CheckID r) (health_checks d) then Inl (ErrConstraint ''health_check_state'')
        else Inr (d\<lparr>health_check_state := upsert (\<lambda>s. cs_check_id s = res_CheckID r)
               (\<lambda>s. row\<lparr>cs_successes := (if res_Status r = ''success'' then cs_successes s + 1 else 0),
                        cs_failures := (if res_Status r = ''failure'' then cs_failures s + 1 else 0)\<rparr>)
               row (health_check_state d)\<rparr>))"

subsection \<open>Properties of the repository\<close>

lemma nullString_back [simp]: "(case nullString s of None \<Rightarrow> [] | Some b \<Rightarrow> b) = s"
  by (simp add: nullString_def)

definition good_target :: "url \<Rightarrow> bool" where
  "good_target u = (url_Hostname u \<noteq> [] \<and> (url_Scheme u = ''http'' \<or> url_Scheme u = ''https'') \<and> \<not> url_HasUser u \<and>
     to_lower (trim_suffix (url_Hostname u) ''.'') \<noteq> ''localhost'' \<and>
     \<not> has_suffix (to_lower (trim_suffix (url_Hostname u) ''.'')) ''.localhost'')"

lemma guard_Inr: "((if b then Inl e else x) = Inr y) = (\<not> b \<and> x = Inr y)"
  by simp

lemma Validate_Inr:
  "Validate parse c = Inr () \<longleftrightarrow>
     trim_space (check_ResourceID c) \<noteq> [] \<and> trim_space (check_Name c) \<noteq> [] \<and> length (check_Name c) \<le> 120 \<and>
     int (length (check_URL c)) \<le> 2048 \<and> (\<exists>u. parse (check_URL c) = Some u \<and> good_target u) \<and>
     (check_Method c = ''GET'' \<or> check_Method c = ''HEAD'') \<and> MinInterval \<le> check_Interval c \<and> check_Interval c \<le> MaxInterval \<and>
     MinTimeout \<le> check_Timeout c \<and> check_Timeout c \<le> MaxTimeout \<and> 100 \<le> check_ExpectedStatusMin c \<and>
     check_ExpectedStatusMax c \<le> 599 \<and> check_ExpectedStatusMin c \<le> check_ExpectedStatusMax c \<and> length (check_BodySubstring c) \<le> 256"
  unfolding Validate_def Let_def good_target_def
  by (cases "parse (check_URL c)") (simp_all add: guard_Inr not_less conj_assoc)

lemma Validate_bounds:
  "Validate parse c = Inr () \<Longrightarrow>
     seconds 10 \<le> check_Interval c \<and> check_Interval c \<le> hours 1 \<and> seconds 1 \<le> check_Timeout c \<and> check_Timeout c \<le> seconds 30"
  by (simp add: Validate_Inr MinInterval_def MaxInterval_def MinTimeout_def MaxTimeout_def)

text \<open>A duration of whole seconds survives the column.\<close>

lemma seconds_roundtrip:
  assumes "0 \<le> x" "x \<le> hours 1"
  shows "wrap64 (trunc_div x (seconds 1) * seconds 1) = x - x mod seconds 1"
proof -
  have s: "(0::int) < seconds 1" by (simp add: seconds_def nanos_def)
  have t: "trunc_div x (seconds 1) * seconds 1 = x - x mod seconds 1"
    using assms(1) by (simp add: trunc_div_nonneg minus_mod_eq_div_mult)
  have "0 \<le> x - x mod seconds 1" "x - x mod seconds 1 \<le> hours 1"
    using assms s pos_mod_bound [OF s, of x] pos_mod_sign [OF s, of x] zmod_le_nonneg_dividend [OF assms(1)] by simp_all
  then show ?thesis unfolding t by (intro wrap64_id) (simp add: in_int64_def min_duration_def max_duration_def hours_def minutes_def seconds_def nanos_def)
qed

lemma check_columns_id [simp]: "hc_id (check_columns c u r) = hc_id r" "hc_created_at (check_columns c u r) = hc_created_at r"
  by (simp_all add: check_columns_def)

definition whole_seconds :: "duration \<Rightarrow> duration" where
  "whole_seconds x = x - x mod seconds 1"

lemma whole_seconds_le: "whole_seconds x \<le> x"
  by (simp add: whole_seconds_def seconds_def nanos_def)

lemma whole_seconds_ge: "seconds k \<le> x \<Longrightarrow> seconds k \<le> whole_seconds x"
proof -
  assume "seconds k \<le> x"
  then have "k \<le> x div seconds 1" by (simp add: seconds_def nanos_def)
  then have "k * seconds 1 \<le> x div seconds 1 * seconds 1" by (intro mult_right_mono) (simp_all add: seconds_def nanos_def)
  moreover have "k * seconds 1 = seconds k" by (simp add: seconds_def)
  ultimately show ?thesis by (simp add: whole_seconds_def minus_mod_eq_div_mult)
qed

lemma scan_columns:
  assumes "Validate parse c = Inr ()"
  shows "scanCheck (check_columns c u r) = c\<lparr>check_ID := hc_id r, check_Interval := whole_seconds (check_Interval c),
     check_Timeout := whole_seconds (check_Timeout c), check_CreatedAt := from_unix (hc_created_at r), check_UpdatedAt := from_unix u\<rparr>"
proof -
  note b = Validate_bounds [OF assms]
  have "0 \<le> check_Interval c" "0 \<le> check_Timeout c" "check_Timeout c \<le> hours 1"
    using b by (simp_all add: hours_def minutes_def seconds_def nanos_def)
  then show ?thesis using b by (simp add: scanCheck_def check_columns_def seconds_roundtrip whole_seconds_def)
qed

text \<open>
  Storing a check and reading it back: after a successful \<open>Create\<close> or \<open>Update\<close>, \<open>Get\<close> returns the
  check with every field as given, except that the interval and the timeout are cut to whole
  seconds and the time stamps are those of the row; and the stored check still passes
  \<open>Validate\<close>.
\<close>

theorem check_roundtrip:
  assumes "Create parse now c d = Inr d' \<or> Update parse now c d = Inr d'"
  shows "\<exists>created updated. Get (check_ID c) d' = Inr (c\<lparr>check_Interval := whole_seconds (check_Interval c),
           check_Timeout := whole_seconds (check_Timeout c), check_CreatedAt := created, check_UpdatedAt := updated\<rparr>) \<and>
         Validate parse (c\<lparr>check_Interval := whole_seconds (check_Interval c),
           check_Timeout := whole_seconds (check_Timeout c), check_CreatedAt := created, check_UpdatedAt := updated\<rparr>) = Inr ()"
proof -
  have v: "Validate parse c = Inr ()" using assms by (auto simp: Create_def Update_def bind_result_Inr)
  have "\<exists>r. find (\<lambda>r. hc_id r = check_ID c) (health_checks d') = Some (check_columns c (unix now) r) \<and> hc_id r = check_ID c"
    using assms
  proof
    assume a: "Create parse now c d = Inr d'"
    then have n: "find (\<lambda>r. hc_id r = check_ID c) (health_checks d) = None"
      and d': "d' = d\<lparr>health_checks := health_checks d @ [new_check_row c (unix now)]\<rparr>"
      using v by (auto simp: Create_def list_ex_find split: if_splits)
    show ?thesis unfolding d' by (auto simp: find_append n new_check_row_def)
  next
    assume a: "Update parse now c d = Inr d'"
    then obtain r where r: "find (\<lambda>r. hc_id r = check_ID c) (health_checks d) = Some r"
      and d': "d' = d\<lparr>health_checks := upd_where (\<lambda>r. hc_id r = check_ID c) (check_columns c (unix now)) (health_checks d)\<rparr>"
      using v by (auto simp: Update_def list_ex_find split: if_splits)
    have i: "hc_id r = check_ID c" using find_Some_in [OF r] by simp
    have "find (\<lambda>r. hc_id r = check_ID c) (health_checks d') = Some (check_columns c (unix now) r)"
      unfolding d' using find_upd_keep [of hc_id "check_columns c (unix now)" "check_ID c" "\<lambda>r. hc_id r = check_ID c" "health_checks d"] r i
      by simp
    with i show ?thesis by blast
  qed
  then obtain r where r: "Get (check_ID c) d' = Inr (scanCheck (check_columns c (unix now) r))" "hc_id r = check_ID c"
    by (auto simp: Get_def)
  have b: "MinInterval \<le> whole_seconds (check_Interval c)" "whole_seconds (check_Interval c) \<le> MaxInterval"
    "MinTimeout \<le> whole_seconds (check_Timeout c)" "whole_seconds (check_Timeout c) \<le> MaxTimeout"
    using Validate_bounds [OF v]
      whole_seconds_ge [of 10 "check_Interval c"] whole_seconds_ge [of 1 "check_Timeout c"] whole_seconds_le
    unfolding MinInterval_def MaxInterval_def MinTimeout_def MaxTimeout_def by (auto intro: order_trans)
  show ?thesis
    by (rule exI [of _ "from_unix (hc_created_at r)"], rule exI [of _ "from_unix (unix now)"])
       (use r b v in \<open>simp add: scan_columns [OF v] Validate_Inr\<close>)
qed

subsection \<open>Streaks and spacing\<close>

lemma SaveResult_state:
  assumes "SaveResult now c r d = Inr d'"
  shows "state_of_check (res_CheckID r) d' = Some
     (let row = result_row c r (if res_CheckedAt r = zero_time then now else res_CheckedAt r)
      in case state_of_check (res_CheckID r) d of
           None \<Rightarrow> row
         | Some s \<Rightarrow> row\<lparr>cs_successes := (if res_Status r = ''success'' then cs_successes s + 1 else 0),
                         cs_failures := (if res_Status r = ''failure'' then cs_failures s + 1 else 0)\<rparr>)"
  and "health_checks d' = health_checks d" and "resources d' = resources d"
  and "i \<noteq> res_CheckID r \<Longrightarrow> state_of_check i d' = state_of_check i d"
proof -
  let ?row = "result_row c r (if res_CheckedAt r = zero_time then now else res_CheckedAt r)"
  let ?f = "\<lambda>s. ?row\<lparr>cs_successes := (if res_Status r = ''success'' then cs_successes s + 1 else 0),
                         cs_failures := (if res_Status r = ''failure'' then cs_failures s + 1 else 0)\<rparr>"
  have d': "d' = d\<lparr>health_check_state := upsert (\<lambda>s. cs_check_id s = res_CheckID r) ?f ?row (health_check_state d)\<rparr>"
    using assms by (simp add: SaveResult_def Let_def split: if_splits)
  have id: "cs_check_id ?row = res_CheckID r" "cs_check_id (?f s) = res_CheckID r" for s by (simp_all add: result_row_def)
  show "health_checks d' = health_checks d" "resources d' = resources d" by (simp_all add: d')
  show "state_of_check (res_CheckID r) d' = Some (let row = ?row in case state_of_check (res_CheckID r) d of None \<Rightarrow> row
       | Some s \<Rightarrow> row\<lparr>cs_successes := (if res_Status r = ''success'' then cs_successes s + 1 else 0),
                         cs_failures := (if res_Status r = ''failure'' then cs_failures s + 1 else 0)\<rparr>)"
    using find_upsert [of cs_check_id ?f "res_CheckID r" ?row, OF id(2,1)] unfolding Let_def d' state_of_check_def by simp
  show "state_of_check i d' = state_of_check i d" if "i \<noteq> res_CheckID r"
    using find_upsert [of cs_check_id ?f "res_CheckID r" ?row i, OF id(2,1)] that unfolding d' state_of_check_def by simp
qed

text \<open>The results of one check, oldest first.\<close>

definition save_all :: "time \<Rightarrow> Check \<Rightarrow> Result list \<Rightarrow> db \<Rightarrow> db result" where
  "save_all now c rs d = fold_result (SaveResult now c) rs d"

definition streak :: "string \<Rightarrow> Result list \<Rightarrow> int" where
  "streak status rs = int (length (takeWhile (\<lambda>r. res_Status r = status) (rev rs)))"

lemma streak_snoc:
  "streak st (rs @ [r]) = (if res_Status r = st then streak st rs + 1 else 0)"
  by (simp add: streak_def)

lemma save_last:
  assumes "bind_result (fold_result f xs d) (fold_result f [r]) = Inr d'"
  obtains e where "fold_result f xs d = Inr e" "f r e = Inr d'"
proof -
  obtain e where e: "fold_result f xs d = Inr e" "fold_result f [r] e = Inr d'" using assms by (auto simp: bind_result_Inr)
  then have "f r e = Inr d'" by (cases "f r e") simp_all
  with e(1) show ?thesis by (rule that)
qed

text \<open>
  C14. The counters that the stored state of a check keeps incrementally are the lengths of the
  current streaks: after any sequence of results of a check that had no state before, the
  number of consecutive successes is the number of successes since the last other result, and
  the number of consecutive failures likewise; the status is that of the last result.
\<close>

theorem streaks_counted:
  assumes "save_all now c (rs @ [r]) d = Inr d'" "state_of_check i d = None" "\<forall>x \<in> set (rs @ [r]). res_CheckID x = i"
  shows "\<exists>s. state_of_check i d' = Some s \<and> cs_successes s = streak ''success'' (rs @ [r]) \<and>
             cs_failures s = streak ''failure'' (rs @ [r]) \<and> cs_status s = res_Status r"
  using assms
proof (induction rs arbitrary: r d' rule: rev_induct)
  case Nil
  then have "SaveResult now c r d = Inr d'" by (cases "SaveResult now c r d") (simp_all add: save_all_def)
  note st = SaveResult_state(1) [OF this]
  have i: "res_CheckID r = i" using Nil.prems(3) by simp
  obtain s where s: "s = result_row c r (if res_CheckedAt r = zero_time then now else res_CheckedAt r)" by simp
  have "state_of_check i d' = Some s" using st unfolding i Nil.prems(2) option.case Let_def s .
  moreover have "cs_successes s = streak ''success'' ([] @ [r])" "cs_failures s = streak ''failure'' ([] @ [r])" "cs_status s = res_Status r"
    by (simp_all add: s result_row_def streak_def)
  ultimately show ?case by blast
next
  case (snoc q rs)
  obtain e where e: "save_all now c (rs @ [q]) d = Inr e" "SaveResult now c r e = Inr d'"
    using snoc.prems(1) unfolding save_all_def fold_result_append [of _ "rs @ [q]"] by (rule save_last)
  have ci: "\<forall>x \<in> set (rs @ [q]). res_CheckID x = i" and i: "res_CheckID r = i" using snoc.prems(3) by simp_all
  obtain s where s: "state_of_check i e = Some s" "cs_successes s = streak ''success'' (rs @ [q])"
    "cs_failures s = streak ''failure'' (rs @ [q])"
    using snoc.IH [OF e(1) snoc.prems(2) ci] by blast
  let ?row = "result_row c r (if res_CheckedAt r = zero_time then now else res_CheckedAt r)"
  obtain s' where s': "s' = ?row\<lparr>cs_successes := (if res_Status r = ''success'' then cs_successes s + 1 else 0),
                         cs_failures := (if res_Status r = ''failure'' then cs_failures s + 1 else 0)\<rparr>" by simp
  have "state_of_check i d' = Some s'" using SaveResult_state(1) [OF e(2)] unfolding i s(1) option.case Let_def s' .
  moreover have "cs_successes s' = streak ''success'' ((rs @ [q]) @ [r])" "cs_failures s' = streak ''failure'' ((rs @ [q]) @ [r])"
    "cs_status s' = res_Status r"
    by (simp_all only: streak_snoc [of _ "rs @ [q]"]) (simp_all add: s' s(2,3) result_row_def)
  ultimately show ?case by blast
qed

text \<open>
  The checks that are due are enabled, belong to a resource that is neither archived nor
  paused, and have no next run in the future; and once the result of a run is saved, the check
  is not due again before its interval has passed since the run.
\<close>

theorem due_spacing:
  assumes "Due now limit d = Inr cs"
  shows "(\<forall>c \<in> set cs. check_Enabled c \<and>
            (\<exists>r \<in> set (resources d). rs_id r = check_ResourceID c \<and> rs_archived_at r = None \<and> rs_status r \<notin> {''paused'', ''archived''}) \<and>
            (\<forall>s t. state_of_check (check_ID c) d = Some s \<longrightarrow> cs_next_run_at s = Some t \<longrightarrow> t \<le> unix now)) \<and>
         length cs \<le> nat limit \<and>
         (\<forall>c r t d' cs' later. SaveResult t c r d = Inr d' \<longrightarrow> res_CheckedAt r \<noteq> zero_time \<longrightarrow>
            unix later < unix (res_CheckedAt r + check_Interval c) \<longrightarrow> Due later limit d' = Inr cs' \<longrightarrow>
            (\<forall>x \<in> set cs'. check_ID x \<noteq> res_CheckID r))"
proof -
  have due: "\<exists>k. k \<in> set (health_checks e) \<and> is_due t e k \<and> c = scanCheck k" if du: "Due t limit e = Inr xs" and cx: "c \<in> set xs" for t e c xs
  proof -
    let ?ys = "sort_key (\<lambda>c. case next_run e c of None \<Rightarrow> 0 | Some t \<Rightarrow> t) (sort_key hc_id (filter (is_due t e) (health_checks e)))"
    have "xs = map scanCheck (take (nat limit) ?ys)" using du by (simp add: Due_def split: if_splits)
    then obtain k where k: "k \<in> set (take (nat limit) ?ys)" "c = scanCheck k" using cx by auto
    show ?thesis using in_set_takeD [OF k(1)] k(2) by auto
  qed
  have lim: "cs = map scanCheck (take (nat limit)
            (sort_key (\<lambda>c. case next_run d c of None \<Rightarrow> 0 | Some t \<Rightarrow> t) (sort_key hc_id (filter (is_due now d) (health_checks d)))))"
    using assms by (simp add: Due_def split: if_splits)
  have one: "check_Enabled c \<and>
            (\<exists>r \<in> set (resources d). rs_id r = check_ResourceID c \<and> rs_archived_at r = None \<and> rs_status r \<notin> {''paused'', ''archived''}) \<and>
            (\<forall>s t. state_of_check (check_ID c) d = Some s \<longrightarrow> cs_next_run_at s = Some t \<longrightarrow> t \<le> unix now)" if "c \<in> set cs" for c
    using due [OF assms that] by (auto simp: is_due_def runnable_def next_run_def scanCheck_def list_ex_iff)
  moreover have "length cs \<le> nat limit" unfolding lim by simp
  moreover have "check_ID x \<noteq> res_CheckID r"
    if sv: "SaveResult t c r d = Inr d'" and z: "res_CheckedAt r \<noteq> zero_time"
      and l: "unix later < unix (res_CheckedAt r + check_Interval c)" and du: "Due later limit d' = Inr cs'" "x \<in> set cs'" for c r t d' cs' later x
  proof
    assume i: "check_ID x = res_CheckID r"
    obtain k where k: "is_due later d' k" "x = scanCheck k" using due [OF du] by blast
    have "hc_id k = res_CheckID r" using i k(2) by (simp add: scanCheck_def)
    then have "next_run d' k = Some (unix (res_CheckedAt r + check_Interval c))"
      using SaveResult_state(1) [OF sv] z by (simp add: next_run_def Let_def result_row_def split: option.splits)
    then show False using k(1) l by (simp add: is_due_def)
  qed
  ultimately show ?thesis by blast
qed

end
