(* ===== verification/Check_Runner.thy ===== *)
theory Check_Runner
  imports Checks
begin

section \<open>Running a health check\<close>

text \<open>
  \<^verbatim>\<open>internal/checks/runner.go\<close>. One exchange of the HTTP client is a parameter: \<open>exchange method url\<close>
  is an error, a redirection to another URL, or a final response. The client follows
  redirections itself and asks \<open>CheckRedirect\<close> before each of them; \<open>follow\<close> is that loop, with
  the URLs it requested. Every error the client returns is a \<open>url.Error\<close>, whose text starts with
  the method and the URL.
\<close>

record check_error =
  ce_text :: string
  ce_timeout :: bool
  ce_tls :: bool

datatype exchange_result =
    Failed check_error
  | Redirected string
  | Responded int string bool

record check_env =
  cenv_parse :: "string \<Rightarrow> url option"
  cenv_lookup :: "string \<Rightarrow> Addr list option"
  cenv_exchange :: "string \<Rightarrow> string \<Rightarrow> exchange_result"
  cenv_new_request :: "string \<Rightarrow> string \<Rightarrow> bool"

definition plain_error :: "string \<Rightarrow> check_error" where
  "plain_error t = \<lparr>ce_text = t, ce_timeout = False, ce_tls = False\<rparr>"

definition validateURL :: "check_env \<Rightarrow> bool \<Rightarrow> string \<Rightarrow> check_error + url" where
  "validateURL env allowPrivate raw =
    (case ValidateURL allowPrivate (cenv_parse env) (cenv_lookup env) raw [''http'', ''https''] of
       Inr u \<Rightarrow> Inr u
     | Inl ErrDNS \<Rightarrow> Inl (plain_error (FailureDNS @ '': outbound target DNS lookup failed''))
     | Inl _ \<Rightarrow> Inl (plain_error FailureTargetBlocked))"

definition classify :: "check_error \<Rightarrow> string" where
  "classify e =
    (if contains (ce_text e) FailureTargetBlocked then FailureTargetBlocked
     else if contains (ce_text e) FailureDNS then FailureDNS
     else if ce_timeout e then FailureTimeout
     else if ce_tls e \<or> contains (to_lower (ce_text e)) ''tls'' \<or> contains (to_lower (ce_text e)) ''certificate'' then FailureTLS
     else FailureConnection)"

definition url_error :: "string \<Rightarrow> string \<Rightarrow> check_error \<Rightarrow> check_error" where
  "url_error verb u e =
    e\<lparr>ce_text := (if verb = ''HEAD'' then ''Head '' else ''Get '') @ [CHR 0x22] @ u @ [CHR 0x22] @ '': '' @ ce_text e\<rparr>"

text \<open>The number of redirections seen so far bounds the loop.\<close>

function follow :: "check_env \<Rightarrow> bool \<Rightarrow> string \<Rightarrow> nat \<Rightarrow> string \<Rightarrow> string list \<times> (check_error + int \<times> string \<times> bool)" where
  "follow env allowPrivate verb redirects u =
    (case cenv_exchange env verb u of
       Failed e \<Rightarrow> ([u], Inl (url_error verb u e))
     | Responded status body readErr \<Rightarrow> ([u], Inr (status, body, readErr))
     | Redirected v \<Rightarrow>
         if redirects + 1 > 3 then ([u], Inl (url_error verb u (plain_error ''redirect limit exceeded'')))
         else case validateURL env allowPrivate v of
                Inl e \<Rightarrow> ([u], Inl (url_error verb u e))
              | Inr _ \<Rightarrow> (case follow env allowPrivate verb (redirects + 1) v of (us, r) \<Rightarrow> (u # us, r)))"
  by pat_completeness auto

termination
  by (relation "measure (\<lambda>(env, ap, verb, redirects, u). 4 - redirects)") auto

declare follow.simps [simp del]

definition fetch :: "check_env \<Rightarrow> bool \<Rightarrow> Check \<Rightarrow> string list \<times> (check_error + int \<times> string \<times> bool)" where
  "fetch env allowPrivate c = follow env allowPrivate (check_Method c) 0 (check_URL c)"

definition milliseconds :: "duration \<Rightarrow> int" where
  "milliseconds d = trunc_div d (seconds 1 div 1000)"

definition failure :: "Check \<Rightarrow> time \<Rightarrow> string \<Rightarrow> Result" where
  "failure c started code = \<lparr>res_CheckID = check_ID c, res_Status = ''failure'', res_FailureCode = code, res_HTTPStatus = 0,
     res_Latency = 0, res_LatencyMS = 0, res_CheckedAt = started\<rparr>"

text \<open>\<open>started\<close> and \<open>finished\<close> are the two readings of the clock.\<close>

definition Run :: "check_env \<Rightarrow> bool \<Rightarrow> time \<Rightarrow> time \<Rightarrow> Check \<Rightarrow> Result" where
  "Run env allowPrivate started finished c =
    (case validateURL env allowPrivate (check_URL c) of
       Inl e \<Rightarrow> failure c started (classify e)
     | Inr _ \<Rightarrow>
         if \<not> cenv_new_request env (check_Method c) (check_URL c) then failure c started FailureTargetBlocked
         else
           (let latency = time_sub finished started;
                timed = (\<lambda>code status. (failure c started code)\<lparr>res_HTTPStatus := status, res_Latency := latency,
                                          res_LatencyMS := milliseconds latency\<rparr>)
            in case snd (fetch env allowPrivate c) of
                 Inl e \<Rightarrow> timed (classify e) 0
               | Inr (status, body, readErr) \<Rightarrow>
                   if status < check_ExpectedStatusMin c \<or> status > check_ExpectedStatusMax c
                   then timed FailureUnexpectedStatus status
                   else if check_BodySubstring c \<noteq> [] \<and> check_Method c \<noteq> ''HEAD'' \<and> readErr
                   then timed FailureConnection status
                   else if check_BodySubstring c \<noteq> [] \<and> check_Method c \<noteq> ''HEAD'' \<and>
                           (int (length body) > MaxBodyRead \<or> \<not> contains body (check_BodySubstring c))
                   then timed FailureBodyMismatch status
                   else (timed [] status)\<lparr>res_Status := ''success''\<rparr>))"

subsection \<open>Properties\<close>



text \<open>
  What a run reports: it succeeds exactly when the target passes the policy, the request can
  be built, a final response arrives whose status is in the expected range, and, for a GET
  with an expected substring, the body was read, is at most 64 KiB and contains the substring;
  a success carries no failure code, and a failure always carries one.
\<close>

theorem run_success_iff:
  "(res_Status (Run env ap t0 t1 c) = ''success'' \<longleftrightarrow>
      (\<exists>u status body readErr. validateURL env ap (check_URL c) = Inr u \<and> cenv_new_request env (check_Method c) (check_URL c) \<and>
         snd (fetch env ap c) = Inr (status, body, readErr) \<and>
         check_ExpectedStatusMin c \<le> status \<and> status \<le> check_ExpectedStatusMax c \<and>
         (check_BodySubstring c = [] \<or> check_Method c = ''HEAD'' \<or>
            \<not> readErr \<and> int (length body) \<le> MaxBodyRead \<and> contains body (check_BodySubstring c)))) \<and>
   (res_Status (Run env ap t0 t1 c) = ''success'' \<longleftrightarrow> res_FailureCode (Run env ap t0 t1 c) = []) \<and>
   (res_Status (Run env ap t0 t1 c) = ''success'' \<or> res_Status (Run env ap t0 t1 c) = ''failure'') \<and>
   res_CheckID (Run env ap t0 t1 c) = check_ID c \<and> res_CheckedAt (Run env ap t0 t1 c) = t0"
proof -
  have cl: "classify e \<noteq> []" for e by (simp add: classify_def failure_codes)
  show ?thesis
  proof (cases "validateURL env ap (check_URL c)")
    case (Inl e)
    then show ?thesis by (simp add: Run_def failure_def cl)
  next
    case u: (Inr u)
    show ?thesis
    proof (cases "cenv_new_request env (check_Method c) (check_URL c)")
      case False
      then show ?thesis by (simp add: Run_def u failure_def failure_codes)
    next
      case req: True
      show ?thesis
      proof (cases "snd (fetch env ap c)")
        case (Inl e)
        then show ?thesis by (simp add: Run_def u req failure_def cl Let_def)
      next
        case (Inr x)
        obtain status body readErr where x: "x = (status, body, readErr)" by (cases x)
        show ?thesis by (auto simp: Run_def u req Inr x failure_def Let_def failure_codes)
      qed
    qed
  qed
qed

lemma contains_append: "contains t p \<Longrightarrow> contains (s @ t) p"
  by (induction s) simp_all

lemma has_prefix_iff: "has_prefix s p \<longleftrightarrow> (\<exists>r. s = p @ r)"
proof
  assume "has_prefix s p"
  then have "s = p @ drop (length p) s" by (metis append_take_drop_id has_prefix_def)
  then show "\<exists>r. s = p @ r" by blast
qed auto

lemma contains_iff: "contains s p \<longleftrightarrow> (\<exists>q r. s = q @ p @ r)"
proof
  show "contains s p \<Longrightarrow> \<exists>q r. s = q @ p @ r"
  proof (induction s)
    case (Cons c s)
    show ?case
    proof (cases "has_prefix (c # s) p")
      case True
      then obtain r where "c # s = p @ r" unfolding has_prefix_iff by blast
      then have "c # s = [] @ p @ r" by simp
      then show ?thesis by blast
    next
      case False
      then obtain q r where "s = q @ p @ r" using Cons by auto
      then have "c # s = (c # q) @ p @ r" by simp
      then show ?thesis by blast
    qed
  qed simp
next
  assume "\<exists>q r. s = q @ p @ r"
  then obtain q r where s: "s = q @ p @ r" by blast
  have "contains (p @ r) p" by (cases "p @ r") (auto simp: has_prefix_iff intro: exI [of _ r])
  then show "contains s p" unfolding s by (rule contains_append)
qed

text \<open>
  The failure code is read from the text of the error, which contains the URL of the check:
  a failed request to a URL that contains ``dns'' (and neither it nor the cause mentions a
  blocked target) is reported as a DNS failure whatever its cause, a timeout included.
\<close>

theorem dns_in_url_misreported:
  assumes "validateURL env ap (check_URL c) = Inr u" "cenv_new_request env (check_Method c) (check_URL c)"
    and "cenv_exchange env (check_Method c) (check_URL c) = Failed e"
    and "contains (check_URL c) ''dns''"
    and "\<not> contains (ce_text (url_error (check_Method c) (check_URL c) e)) ''target_blocked''"
  shows "res_FailureCode (Run env ap t0 t1 c) = FailureDNS"
proof -
  have f: "fetch env ap c = ([check_URL c], Inl (url_error (check_Method c) (check_URL c) e))"
    unfolding fetch_def by (subst follow.simps) (simp add: assms(3))
  have "contains (ce_text (url_error (check_Method c) (check_URL c) e)) ''dns''"
  proof -
    obtain q r where qr: "check_URL c = q @ ''dns'' @ r" using assms(4) unfolding contains_iff by blast
    obtain a z where t: "ce_text (url_error (check_Method c) (check_URL c) e) = a @ check_URL c @ z"
      by (rule that [of "(if check_Method c = ''HEAD'' then ''Head '' else ''Get '') @ [CHR 0x22]"
            "[CHR 0x22] @ '': '' @ ce_text e"]) (simp add: url_error_def)
    have "ce_text (url_error (check_Method c) (check_URL c) e) = (a @ q) @ ''dns'' @ (r @ z)" using t qr by simp
    then show ?thesis unfolding contains_iff by blast
  qed
  then show ?thesis using assms(5) by (simp add: Run_def assms(1,2) f Let_def failure_def classify_def failure_codes)
qed

end
