(* ===== verification/Check_Scheduler.thy ===== *)
theory Check_Scheduler
  imports Check_Runner
begin

section \<open>The check scheduler\<close>

text \<open>
  \<^verbatim>\<open>internal/checks/scheduler.go\<close>: a ticker that queues due checks, workers that run them, and
  \<open>RunNow\<close>. \<open>sc_scheduling\<close> says that the goroutine of \<open>schedule\<close> still runs. A worker and a caller of
  \<open>RunNow\<close> hold a check between taking and releasing it.
\<close>

record Scheduler =
  sc_MaxConcurrency :: int
  sc_queue :: "Check list"
  sc_active :: "string set"
  sc_workers :: "Check option list"
  sc_manual :: "Check list"
  sc_scheduling :: bool

definition queue_cap :: "Scheduler \<Rightarrow> int" where
  "queue_cap s = sc_MaxConcurrency s * 2"

definition NewScheduler :: "int \<Rightarrow> Scheduler" where
  "NewScheduler mx = (let mx = (if mx < 1 then 1 else mx)
     in \<lparr>sc_MaxConcurrency = mx, sc_queue = [], sc_active = {}, sc_workers = [], sc_manual = [], sc_scheduling = False\<rparr>)"

definition Start_scheduler :: "Scheduler \<Rightarrow> Scheduler" where
  "Start_scheduler s = s\<lparr>sc_workers := replicate (nat (sc_MaxConcurrency s)) None, sc_scheduling := True\<rparr>"

definition reserve :: "string \<Rightarrow> Scheduler \<Rightarrow> bool \<times> Scheduler" where
  "reserve i s = (if i \<in> sc_active s then (False, s) else (True, s\<lparr>sc_active := insert i (sc_active s)\<rparr>))"

definition release :: "string \<Rightarrow> Scheduler \<Rightarrow> Scheduler" where
  "release i s = s\<lparr>sc_active := sc_active s - {i}\<rparr>"

text \<open>The loop over the due checks; it leaves the goroutine when the queue is full.\<close>

fun schedule_loop :: "Check list \<Rightarrow> Scheduler \<Rightarrow> Scheduler" where
  "schedule_loop [] s = s"
| "schedule_loop (c # cs) s =
    (case reserve (check_ID c) s of
       (False, s1) \<Rightarrow> schedule_loop cs s1
     | (True, s1) \<Rightarrow>
         if int (length (sc_queue s1)) < queue_cap s1 then schedule_loop cs (s1\<lparr>sc_queue := sc_queue s1 @ [c]\<rparr>)
         else (release (check_ID c) s1)\<lparr>sc_scheduling := False\<rparr>)"

definition schedule_tick :: "time \<Rightarrow> db \<Rightarrow> Scheduler \<Rightarrow> Scheduler" where
  "schedule_tick now d s =
    (if \<not> sc_scheduling s then s
     else case Due now (queue_cap s) d of Inl _ \<Rightarrow> s | Inr cs \<Rightarrow> schedule_loop cs s)"

definition take_check :: "nat \<Rightarrow> Scheduler \<Rightarrow> Scheduler" where
  "take_check k s =
    (case (sc_workers s ! k, sc_queue s) of
       (None, c # q) \<Rightarrow> s\<lparr>sc_workers := (sc_workers s)[k := Some c], sc_queue := q\<rparr>
     | _ \<Rightarrow> s)"

text \<open>The worker runs the check, saves the result, whose error it drops, and releases the check.\<close>

definition finish_check :: "check_env \<Rightarrow> bool \<Rightarrow> time \<Rightarrow> time \<Rightarrow> nat \<Rightarrow> Scheduler \<times> db \<Rightarrow> Scheduler \<times> db" where
  "finish_check env ap t0 t1 k sd =
    (case sd of (s, d) \<Rightarrow>
       (case sc_workers s ! k of
          None \<Rightarrow> (s, d)
        | Some c \<Rightarrow>
            (release (check_ID c) (s\<lparr>sc_workers := (sc_workers s)[k := None]\<rparr>),
             case SaveResult t1 c (Run env ap t0 t1 c) d of Inl _ \<Rightarrow> d | Inr d' \<Rightarrow> d')))"

definition RunNow_begin :: "string \<Rightarrow> Scheduler \<times> db \<Rightarrow> Scheduler result" where
  "RunNow_begin i sd =
    (case sd of (s, d) \<Rightarrow>
       bind_result (Get i d) (\<lambda>c.
         if \<not> check_Enabled c then Inl (ErrMsg ''check is disabled'')
         else case reserve (check_ID c) s of
                (False, _) \<Rightarrow> Inl (ErrMsg ''check is already running'')
              | (True, s1) \<Rightarrow> Inr (s1\<lparr>sc_manual := c # sc_manual s1\<rparr>)))"

definition RunNow_end :: "check_env \<Rightarrow> bool \<Rightarrow> time \<Rightarrow> time \<Rightarrow> Check \<Rightarrow> Scheduler \<times> db \<Rightarrow> (Scheduler \<times> db) \<times> Result result" where
  "RunNow_end env ap t0 t1 c sd =
    (case sd of (s, d) \<Rightarrow>
       (let s1 = release (check_ID c) (s\<lparr>sc_manual := remove1 c (sc_manual s)\<rparr>); r = Run env ap t0 t1 c
        in case SaveResult t1 c r d of Inl e \<Rightarrow> ((s1, d), Inl e) | Inr d' \<Rightarrow> ((s1, d'), Inr r)))"

subsection \<open>No check runs twice at once\<close>

definition running :: "Scheduler \<Rightarrow> string list" where
  "running s = map check_ID (sc_queue s @ List.map_filter (\<lambda>w. w) (sc_workers s) @ sc_manual s)"

definition scheduler_inv :: "Scheduler \<Rightarrow> bool" where
  "scheduler_inv s \<longleftrightarrow> distinct (running s) \<and> sc_active s = set (running s) \<and> int (length (sc_queue s)) \<le> queue_cap s \<and>
     1 \<le> sc_MaxConcurrency s"

inductive scheduler_step :: "Scheduler \<times> db \<Rightarrow> Scheduler \<times> db \<Rightarrow> bool" where
  ss_tick: "scheduler_step (s, d) (schedule_tick now d s, d)"
| ss_take: "k < length (sc_workers s) \<Longrightarrow> scheduler_step (s, d) (take_check k s, d)"
| ss_finish: "k < length (sc_workers s) \<Longrightarrow> scheduler_step (s, d) (finish_check env ap t0 t1 k (s, d))"
| ss_begin: "RunNow_begin i (s, d) = Inr s' \<Longrightarrow> scheduler_step (s, d) (s', d)"
| ss_end: "c \<in> set (sc_manual s) \<Longrightarrow> scheduler_step (s, d) (fst (RunNow_end env ap t0 t1 c (s, d)))"
| ss_db: "scheduler_step (s, d) (s, d')"

inductive scheduler_reachable :: "int \<Rightarrow> Scheduler \<times> db \<Rightarrow> bool" for mx where
  sr_start: "scheduler_reachable mx (Start_scheduler (NewScheduler mx), d)"
| sr_step: "scheduler_reachable mx a \<Longrightarrow> scheduler_step a b \<Longrightarrow> scheduler_reachable mx b"

lemma map_filter_append [simp]: "List.map_filter f (xs @ ys) = List.map_filter f xs @ List.map_filter f ys"
  by (simp add: List.map_filter_def)

lemma schedule_loop_inv: "scheduler_inv s \<Longrightarrow> scheduler_inv (schedule_loop cs s)"
proof (induction cs arbitrary: s)
  case (Cons c cs)
  show ?case
  proof (cases "check_ID c \<in> sc_active s")
    case True
    then show ?thesis using Cons by (simp add: reserve_def)
  next
    case new: False
    let ?s1 = "s\<lparr>sc_active := insert (check_ID c) (sc_active s)\<rparr>"
    show ?thesis
    proof (cases "int (length (sc_queue s)) < queue_cap s")
      case True
      have "scheduler_inv (?s1\<lparr>sc_queue := sc_queue s @ [c]\<rparr>)"
        using Cons.prems new True by (auto simp: scheduler_inv_def running_def queue_cap_def)
      moreover have "queue_cap ?s1 = queue_cap s" by (simp add: queue_cap_def)
      ultimately show ?thesis using Cons.IH new True by (simp add: reserve_def)
    next
      case False
      moreover have "queue_cap ?s1 = queue_cap s" by (simp add: queue_cap_def)
      moreover have "insert (check_ID c) (sc_active s) - {check_ID c} = sc_active s" using new by auto
      ultimately show ?thesis using Cons.prems new
        by (simp add: reserve_def release_def scheduler_inv_def running_def queue_cap_def)
    qed
  qed
qed simp

lemma worker_split:
  assumes "k < length ws"
  obtains xs ys where "ws = xs @ ws ! k # ys" "length xs = k"
  using id_take_nth_drop [OF assms] assms by (metis length_take min.absorb4)

lemma take_check_inv:
  assumes "scheduler_inv s" "k < length (sc_workers s)"
  shows "scheduler_inv (take_check k s)"
proof (cases "sc_workers s ! k = None \<and> sc_queue s \<noteq> []")
  case True
  then obtain c q where q: "sc_queue s = c # q" by (cases "sc_queue s") auto
  obtain xs ys where w: "sc_workers s = xs @ sc_workers s ! k # ys" "length xs = k" by (rule worker_split [OF assms(2)])
  then have ws: "sc_workers s = xs @ None # ys" using True by simp
  have "take_check k s = s\<lparr>sc_workers := xs @ Some c # ys, sc_queue := q\<rparr>"
    using w(2) by (simp add: take_check_def q ws nth_append list_update_append)
  then show ?thesis using assms(1)
    by (auto simp: scheduler_inv_def running_def queue_cap_def q ws List.map_filter_simps)
next
  case False
  then have "take_check k s = s" by (auto simp: take_check_def split: option.split list.split)
  then show ?thesis using assms(1) by simp
qed

lemma finish_check_inv:
  assumes "scheduler_inv s" "k < length (sc_workers s)" "finish_check env ap t0 t1 k (s, d) = (s', d')"
  shows "scheduler_inv s'"
proof (cases "sc_workers s ! k")
  case None
  then show ?thesis using assms by (simp add: finish_check_def)
next
  case (Some c)
  obtain xs ys where w: "sc_workers s = xs @ sc_workers s ! k # ys" "length xs = k" by (rule worker_split [OF assms(2)])
  then have ws: "sc_workers s = xs @ Some c # ys" using Some by simp
  have "s' = s\<lparr>sc_workers := xs @ None # ys, sc_active := sc_active s - {check_ID c}\<rparr>"
    using assms(3) w(2) by (auto simp: finish_check_def release_def ws nth_append list_update_append)
  then show ?thesis using assms(1)
    by (auto simp: scheduler_inv_def running_def queue_cap_def ws List.map_filter_simps)
qed

lemma RunNow_begin_inv:
  assumes "scheduler_inv s" "RunNow_begin i (s, d) = Inr s'"
  shows "scheduler_inv s'"
proof -
  obtain c where c: "check_ID c \<notin> sc_active s"
    and s': "s' = s\<lparr>sc_active := insert (check_ID c) (sc_active s), sc_manual := c # sc_manual s\<rparr>"
    using assms(2) by (auto simp: RunNow_begin_def bind_result_Inr reserve_def split: if_splits)
  have a: "sc_active s = set (running s)" "distinct (running s)" using assms(1) by (simp_all add: scheduler_inv_def)
  have r: "set (running s') = insert (check_ID c) (set (running s))" by (auto simp: s' running_def)
  have "distinct (running s')" using a(2) c [unfolded a(1)] by (auto simp: s' running_def)
  then show ?thesis using assms(1) by (simp add: scheduler_inv_def r a(1)) (simp add: s' queue_cap_def a(1))
qed

lemma RunNow_end_inv:
  assumes "scheduler_inv s" "c \<in> set (sc_manual s)" "fst (RunNow_end env ap t0 t1 c (s, d)) = (s', d')"
  shows "scheduler_inv s'"
proof -
  have s': "s' = release (check_ID c) (s\<lparr>sc_manual := remove1 c (sc_manual s)\<rparr>)"
    using assms(3) by (simp add: RunNow_end_def Let_def split: sum.splits)
  obtain xs ys where m: "sc_manual s = xs @ c # ys" "c \<notin> set xs" using split_list_first [OF assms(2)] by blast
  then have r: "remove1 c (sc_manual s) = xs @ ys" by (simp add: remove1_append)
  show ?thesis using assms(1) unfolding s' r by (auto simp: scheduler_inv_def running_def queue_cap_def release_def m)
qed

lemma scheduler_reachable_inv: "scheduler_reachable mx a \<Longrightarrow> scheduler_inv (fst a)"
proof (induction rule: scheduler_reachable.induct)
  case (sr_start d)
  have "List.map_filter (\<lambda>w. w) (replicate n None) = ([] :: Check list)" for n
    by (induction n) (simp_all add: List.map_filter_simps)
  then show ?case by (simp add: scheduler_inv_def running_def Start_scheduler_def NewScheduler_def Let_def queue_cap_def)
next
  case (sr_step a b)
  from sr_step.hyps(2) sr_step.IH show ?case
  proof cases
    case (ss_tick s d now)
    then show ?thesis using sr_step.IH schedule_loop_inv
      by (auto simp: schedule_tick_def split: sum.split)
  next
    case (ss_take k s d)
    then show ?thesis using sr_step.IH take_check_inv by simp
  next
    case (ss_finish k s d env ap t0 t1)
    then show ?thesis using sr_step.IH finish_check_inv [of s k env ap t0 t1 d]
      by (cases "finish_check env ap t0 t1 k (s, d)") simp
  next
    case (ss_begin i s d s')
    then show ?thesis using sr_step.IH RunNow_begin_inv by simp
  next
    case (ss_end c s d env ap t0 t1)
    then show ?thesis using sr_step.IH RunNow_end_inv [of s c env ap t0 t1 d]
      by (cases "fst (RunNow_end env ap t0 t1 c (s, d))") simp
  next
    case (ss_db s d d')
    then show ?thesis using sr_step.IH by simp
  qed
qed

text \<open>
  C11. In every state the scheduler reaches, whatever happens to the database meanwhile, a check
  is at one place only: no identifier is twice among the queued checks, the checks the workers
  run and the checks run on demand; the reservations are exactly these; and the queue holds at
  most twice as many checks as there are workers.
\<close>

theorem checks_exclusive:
  assumes "scheduler_reachable mx (s, d)"
  shows "distinct (map check_ID (sc_queue s @ List.map_filter (\<lambda>w. w) (sc_workers s) @ sc_manual s)) \<and>
         sc_active s = set (map check_ID (sc_queue s @ List.map_filter (\<lambda>w. w) (sc_workers s) @ sc_manual s)) \<and>
         int (length (sc_queue s)) \<le> sc_MaxConcurrency s * 2"
  using scheduler_reachable_inv [OF assms] by (simp add: scheduler_inv_def running_def queue_cap_def)

subsection \<open>A full queue stops the scheduler\<close>

lemma stopped_step:
  assumes "scheduler_step (s, d) (s', d')" "\<not> sc_scheduling s"
  shows "\<not> sc_scheduling s' \<and> (\<exists>q. sc_queue s = q @ sc_queue s')"
  using assms(1)
proof cases
  case (ss_take k)
  then show ?thesis using assms(2) by (auto simp: take_check_def split: option.splits list.splits)
next
  case (ss_finish k env ap t0 t1)
  then show ?thesis using assms(2) by (auto simp: finish_check_def release_def split: option.splits)
next
  case (ss_begin i)
  then show ?thesis using assms(2) by (auto simp: RunNow_begin_def bind_result_Inr reserve_def split: if_splits)
next
  case (ss_end c env ap t0 t1)
  then show ?thesis using assms(2) by (auto simp: RunNow_end_def release_def Let_def split: sum.splits)
qed (use assms(2) in \<open>auto simp: schedule_tick_def\<close>)

text \<open>
  C13. When a tick finds a due check that is not reserved while the queue is full, the scheduling
  goroutine ends: from then on, in every continuation, nothing is added to the queue, so that
  no check runs any more except those still queued and those started by hand, until the
  process restarts.
\<close>

theorem full_queue_stops_scheduling:
  assumes "sc_scheduling s" "Due now (queue_cap s) d = Inr (c # cs)" "check_ID c \<notin> sc_active s"
    and "queue_cap s \<le> int (length (sc_queue s))"
    and "rtranclp scheduler_step (schedule_tick now d s, d) (s', d')"
  shows "\<not> sc_scheduling s' \<and> (\<exists>q. sc_queue s = q @ sc_queue s')"
proof -
  have t: "schedule_tick now d s = s\<lparr>sc_active := sc_active s, sc_scheduling := False\<rparr>"
    using assms(1-4) by (simp add: schedule_tick_def reserve_def release_def queue_cap_def)
  have "\<not> sc_scheduling (fst b) \<and> (\<exists>q. sc_queue s = q @ sc_queue (fst b))"
    if "rtranclp scheduler_step (schedule_tick now d s, d) b" for b
    using that
  proof (induction rule: rtranclp_induct)
    case base
    then show ?case by (simp add: t)
  next
    case (step y z)
    obtain s1 d1 s2 d2 where yz: "y = (s1, d1)" "z = (s2, d2)" by (cases y, cases z)
    obtain q where q: "sc_queue s = q @ sc_queue s1" using step.IH yz by auto
    obtain q' where q': "sc_queue s1 = q' @ sc_queue s2" and st: "\<not> sc_scheduling s2"
      using stopped_step [OF step.hyps(2) [unfolded yz]] step.IH yz by auto
    have "sc_queue s = (q @ q') @ sc_queue s2" using q q' by simp
    then show ?case using st yz by auto
  qed
  from this [OF assms(5)] show ?thesis by simp
qed

end
