(* ===== verification/Check_Samples.thy ===== *)
theory Check_Samples
  imports Check_Scheduler
begin

section \<open>Sample checks\<close>

text \<open>
  One resource with three checks, a network that redirects, and a network that times out:
  concrete inputs for the properties of the checks.
\<close>

definition web_url :: "string \<Rightarrow> url option" where
  "web_url raw = Some \<lparr>url_Scheme = ''https'', url_Hostname = ''example.org'', url_HasUser = False\<rparr>"

definition web_check :: "string \<Rightarrow> Check" where
  "web_check i = \<lparr>check_ID = i, check_ResourceID = ''res_web'', check_Name = ''front page'', check_URL = ''https://example.org/'',
     check_Method = ''GET'', check_Interval = seconds 30 + 5, check_Timeout = seconds 5, check_ExpectedStatusMin = 200,
     check_ExpectedStatusMax = 299, check_BodySubstring = ''ok'', check_Required = True, check_Enabled = True,
     check_CreatedAt = 0, check_UpdatedAt = 0\<rparr>"

definition web_db :: db where
  "web_db = empty_db\<lparr>resources := [\<lparr>rs_id = ''res_web'', rs_project_name = None, rs_status = ''running'', rs_archived_at = None\<rparr>]\<rparr>"

definition created_b :: db where
  "created_b = projr (Create web_url (seconds 100) (web_check ''b'') web_db)"

definition created_bc :: db where
  "created_bc = projr (Create web_url (seconds 100) (web_check ''c'') created_b)"

definition created_abc :: db where
  "created_abc = projr (Create web_url (seconds 101) (web_check ''a'') created_bc)"

lemma created_b_ok: "Create web_url (seconds 100) (web_check ''b'') web_db = Inr created_b"
proof -
  have "\<not> isl (Create web_url (seconds 100) (web_check ''b'') web_db)" by code_simp
  then show ?thesis unfolding created_b_def by (cases "Create web_url (seconds 100) (web_check ''b'') web_db") simp_all
qed

theorem check_roundtrip_witness:
  "\<exists>created updated. Get ''b'' created_b = Inr (web_check ''b''\<lparr>check_Interval := seconds 30, check_CreatedAt := created, check_UpdatedAt := updated\<rparr>)"
proof -
  have c: "check_ID (web_check ''b'') = ''b''" "whole_seconds (check_Interval (web_check ''b'')) = seconds 30"
    "whole_seconds (check_Timeout (web_check ''b'')) = seconds 5" "check_Timeout (web_check ''b'') = seconds 5" by code_simp+
  have t: "x\<lparr>check_Interval := i, check_Timeout := check_Timeout x, check_CreatedAt := u, check_UpdatedAt := v\<rparr> =
      x\<lparr>check_Interval := i, check_CreatedAt := u, check_UpdatedAt := v\<rparr>" for x :: Check and i u v by (cases x) simp
  obtain u v where "Get ''b'' created_b = Inr (web_check ''b''\<lparr>check_Interval := seconds 30, check_Timeout := seconds 5, check_CreatedAt := u, check_UpdatedAt := v\<rparr>)"
    using check_roundtrip [OF disjI1 [OF created_b_ok]] unfolding c(1-3) by blast
  then show ?thesis unfolding c(4) [symmetric] t by blast
qed

definition outcome :: "string \<Rightarrow> Result" where
  "outcome status = \<lparr>res_CheckID = ''b'', res_Status = status, res_FailureCode = [], res_HTTPStatus = 200, res_Latency = 0,
     res_LatencyMS = 0, res_CheckedAt = seconds 200\<rparr>"

definition b_results :: "Result list" where
  "b_results = [outcome ''failure'', outcome ''success'']"

definition saved :: db where
  "saved = projr (save_all 0 (web_check ''b'') (b_results @ [outcome ''success'']) created_b)"

theorem streaks_counted_witness:
  "\<exists>s. state_of_check ''b'' saved = Some s \<and> cs_successes s = 2 \<and> cs_failures s = 0"
proof -
  have "\<not> isl (save_all 0 (web_check ''b'') (b_results @ [outcome ''success'']) created_b)" by code_simp
  then have 1: "save_all 0 (web_check ''b'') (b_results @ [outcome ''success'']) created_b = Inr saved"
    unfolding saved_def by (cases "save_all 0 (web_check ''b'') (b_results @ [outcome ''success'']) created_b") simp_all
  have 2: "state_of_check ''b'' created_b = None" by code_simp
  have 3: "\<forall>x \<in> set (b_results @ [outcome ''success'']). res_CheckID x = ''b''" by (simp add: b_results_def outcome_def)
  have s: "streak ''success'' (b_results @ [outcome ''success'']) = 2" "streak ''failure'' (b_results @ [outcome ''success'']) = 0"
    by (simp_all add: streak_def b_results_def outcome_def)
  show ?thesis using streaks_counted [OF 1 2 3] unfolding s by blast
qed

theorem due_spacing_witness:
  "\<exists>cs. Due (seconds 300) 2 created_b = Inr cs \<and> length cs \<le> 2 \<and> check_Enabled (hd cs)"
proof -
  obtain cs where d: "Due (seconds 300) 2 created_b = Inr cs" by (simp add: Due_def)
  have "map check_ID (projr (Due (seconds 300) 2 created_b)) = [''b'']" by code_simp
  then have "cs \<noteq> []" using d by auto
  then have "hd cs \<in> set cs" by simp
  then show ?thesis using due_spacing [OF d] d by auto
qed

text \<open>A server that redirects once, to a host that resolves to the loopback address.\<close>

definition redirecting :: check_env where
  "redirecting = \<lparr>cenv_parse = (\<lambda>raw. Some \<lparr>url_Scheme = ''https'', url_Hostname = raw, url_HasUser = False\<rparr>),
     cenv_lookup = (\<lambda>h. Some [if h = ''inside'' then ipv4 127 0 0 1 else ipv4 93 184 216 34]),
     cenv_exchange = (\<lambda>m u. Redirected ''inside''), cenv_new_request = (\<lambda>m u. True)\<rparr>"



definition slow_dns :: check_env where
  "slow_dns = redirecting\<lparr>cenv_exchange := (\<lambda>m u. Failed \<lparr>ce_text = ''context deadline exceeded'', ce_timeout = True, ce_tls = False\<rparr>)\<rparr>"

theorem dns_in_url_misreported_witness:
  "res_FailureCode (Run slow_dns False 0 1 ((web_check ''b'')\<lparr>check_URL := ''https://dns.example.org/''\<rparr>)) = FailureDNS"
proof -
  let ?c = "(web_check ''b'')\<lparr>check_URL := ''https://dns.example.org/''\<rparr>"
  let ?e = "\<lparr>ce_text = ''context deadline exceeded'', ce_timeout = True, ce_tls = False\<rparr>"
  have "\<not> isl (validateURL slow_dns False (check_URL ?c))" by code_simp
  then obtain u where u: "validateURL slow_dns False (check_URL ?c) = Inr u"
    by (cases "validateURL slow_dns False (check_URL ?c)") simp_all
  have 1: "cenv_new_request slow_dns (check_Method ?c) (check_URL ?c)" "cenv_exchange slow_dns (check_Method ?c) (check_URL ?c) = Failed ?e"
    by (simp_all add: slow_dns_def redirecting_def)
  have 2: "contains (check_URL ?c) ''dns''" "\<not> contains (ce_text (url_error (check_Method ?c) (check_URL ?c) ?e)) ''target_blocked''" by code_simp+
  show ?thesis by (rule dns_in_url_misreported [OF u 1 2])
qed

subsection \<open>The scheduler\<close>

definition queued_bc :: Scheduler where
  "queued_bc = schedule_tick (seconds 102) created_bc (Start_scheduler (NewScheduler 1))"

theorem checks_exclusive_witness:
  "map check_ID (sc_queue queued_bc) = [''b'', ''c''] \<and> sc_active queued_bc = {''b'', ''c''} \<and> distinct (map check_ID (sc_queue queued_bc))"
proof -
  have r: "scheduler_reachable 1 (queued_bc, created_bc)"
    unfolding queued_bc_def by (rule sr_step [OF sr_start ss_tick])
  have q: "map check_ID (sc_queue queued_bc) = [''b'', ''c'']" by code_simp
  have w: "map check_ID (sc_queue queued_bc @ List.map_filter (\<lambda>w. w) (sc_workers queued_bc) @ sc_manual queued_bc) = [''b'', ''c'']" by code_simp
  show ?thesis using checks_exclusive [OF r] unfolding w q by auto
qed

theorem full_queue_stops_scheduling_witness:
  "\<not> sc_scheduling (schedule_tick (seconds 103) created_abc queued_bc)"
proof -
  have 1: "sc_scheduling queued_bc" by code_simp
  have qc: "queue_cap queued_bc = 2" by code_simp
  obtain cs where d: "Due (seconds 103) (queue_cap queued_bc) created_abc = Inr cs" by (simp add: Due_def qc)
  have "map check_ID (projr (Due (seconds 103) (queue_cap queued_bc) created_abc)) = [''a'', ''b'']" by code_simp
  then obtain c cs' where cs: "cs = c # cs'" "check_ID c = ''a''" unfolding d by (cases cs) simp_all
  have a: "''a'' \<notin> sc_active queued_bc" by code_simp
  have 3: "check_ID c \<notin> sc_active queued_bc" unfolding cs(2) by (rule a)
  have 4: "queue_cap queued_bc \<le> int (length (sc_queue queued_bc))" by code_simp
  show ?thesis
    using full_queue_stops_scheduling [OF 1 d [unfolded cs(1)] 3 4 rtranclp.rtrancl_refl] by blast
qed

end
