(* ===== verification/Auth_Base.thy ===== *)
theory Auth_Base
  imports Outbound
begin

section \<open>Vocabulary of the authentication components\<close>

text \<open>
  What \<^verbatim>\<open>internal/auth\<close> takes from Go's library: splitting strings, hexadecimal, base32 and
  base64, requests, and the cryptographic primitives, which are the fields of a record. A
  slice of bytes and a string are both a list of characters.
\<close>

subsection \<open>Strings\<close>

text \<open>\<open>strings.Split\<close> at one character, and \<open>strings.SplitN\<close> with limit two.\<close>

fun split_on :: "char \<Rightarrow> string \<Rightarrow> string list" where
  "split_on c [] = [[]]"
| "split_on c (x # xs) =
    (if x = c then [] # split_on c xs
     else case split_on c xs of [] \<Rightarrow> [[x]] | p # ps \<Rightarrow> (x # p) # ps)"

definition split_two :: "char \<Rightarrow> string \<Rightarrow> string list" where
  "split_two c s =
    (case dropWhile (\<lambda>x. x \<noteq> c) s of [] \<Rightarrow> [s] | _ # rest \<Rightarrow> [takeWhile (\<lambda>x. x \<noteq> c) s, rest])"

lemma split_on_nonempty [simp]: "split_on c s \<noteq> []"
  by (induction s) (auto split: list.splits)

lemma split_on_free: "c \<notin> set s \<Longrightarrow> split_on c s = [s]"
  by (induction s) auto

lemma split_on_append: "c \<notin> set s \<Longrightarrow> split_on c (s @ c # t) = s # split_on c t"
  by (induction s) auto

lemma split_on_last: "c \<notin> set t \<Longrightarrow> split_on c (s @ c # t) = split_on c s @ [t]"
proof (induction s)
  case Nil
  then show ?case by (simp add: split_on_free)
next
  case (Cons x s)
  then show ?case by (cases "split_on c s") simp_all
qed

lemma split_two_append: "c \<notin> set s \<Longrightarrow> split_two c (s @ c # t) = [s, t]"
proof -
  assume c: "c \<notin> set s"
  have "dropWhile (\<lambda>x. x \<noteq> c) (s @ c # t) = c # t" using c by (subst dropWhile_append2) auto
  moreover have "takeWhile (\<lambda>x. x \<noteq> c) (s @ c # t) = s" using c by (subst takeWhile_append2) auto
  ultimately show ?thesis by (simp add: split_two_def)
qed

definition upper_char :: "char \<Rightarrow> char" where
  "upper_char c = (if CHR ''a'' \<le> c \<and> c \<le> CHR ''z'' then char_of (of_char c - 32 :: nat) else c)"

definition to_upper :: "string \<Rightarrow> string" where
  "to_upper s = map upper_char s"

definition equal_fold :: "string \<Rightarrow> string \<Rightarrow> bool" where
  "equal_fold s t = (to_lower s = to_lower t)"

subsection \<open>Encodings\<close>

text \<open>
  A character is eight bits. An encoding with \<open>k\<close> bits per symbol cuts the bits, most
  significant first, into groups of \<open>k\<close>, the last one filled with zeros. Decoding drops the
  bits that do not fill a byte.
\<close>

fun bits_of_char :: "char \<Rightarrow> bool list" where
  "bits_of_char (Char b0 b1 b2 b3 b4 b5 b6 b7) = [b7, b6, b5, b4, b3, b2, b1, b0]"

definition bits_of :: "string \<Rightarrow> bool list" where
  "bits_of s = concat (map bits_of_char s)"

fun bytes_of :: "bool list \<Rightarrow> string" where
  "bytes_of (b7 # b6 # b5 # b4 # b3 # b2 # b1 # b0 # bs) = Char b0 b1 b2 b3 b4 b5 b6 b7 # bytes_of bs"
| "bytes_of _ = []"

definition index_of_bits :: "bool list \<Rightarrow> nat" where
  "index_of_bits bs = foldl (\<lambda>n b. 2 * n + of_bool b) 0 bs"

fun bits_of_index :: "nat \<Rightarrow> nat \<Rightarrow> bool list" where
  "bits_of_index 0 n = []"
| "bits_of_index (Suc k) n = bits_of_index k (n div 2) @ [odd n]"

fun symbols :: "nat \<Rightarrow> bool list \<Rightarrow> nat list" where
  "symbols k [] = []"
| "symbols k (b # bs) =
    (let chunk = take k (b # bs)
     in index_of_bits (chunk @ replicate (k - length chunk) False) # symbols k (drop (k - 1) bs))"

fun position :: "'a \<Rightarrow> 'a list \<Rightarrow> nat option" where
  "position x [] = None"
| "position x (y # ys) = (if x = y then Some 0 else map_option Suc (position x ys))"

definition those_positions :: "string \<Rightarrow> string \<Rightarrow> nat list option" where
  "those_positions alphabet s = those (map (\<lambda>c. position c alphabet) s)"

definition encode_with :: "nat \<Rightarrow> string \<Rightarrow> string \<Rightarrow> string" where
  "encode_with k alphabet s = map (\<lambda>i. alphabet ! i) (symbols k (bits_of s))"

definition decode_with :: "nat \<Rightarrow> string \<Rightarrow> string \<Rightarrow> string option" where
  "decode_with k alphabet s =
    map_option (\<lambda>ns. bytes_of (concat (map (bits_of_index k) ns))) (those_positions alphabet s)"

text \<open>The decoders of \<open>encoding/base32\<close> and \<open>encoding/base64\<close> skip line breaks.\<close>

definition drop_newlines :: "string \<Rightarrow> string" where
  "drop_newlines s = filter (\<lambda>c. c \<noteq> CHR 0x0A \<and> c \<noteq> CHR 0x0D) s"

definition base32_alphabet :: string where
  "base32_alphabet = ''ABCDEFGHIJKLMNOPQRSTUVWXYZ234567''"

definition base64_alphabet :: string where
  "base64_alphabet = ''ABCDEFGHIJKLMNOPQRSTUVWXYZabcdefghijklmnopqrstuvwxyz0123456789+/''"

definition base64url_alphabet :: string where
  "base64url_alphabet = ''ABCDEFGHIJKLMNOPQRSTUVWXYZabcdefghijklmnopqrstuvwxyz0123456789-_''"

definition hex_alphabet :: string where
  "hex_alphabet = ''0123456789abcdef''"

definition base32_encode :: "string \<Rightarrow> string" where
  "base32_encode = encode_with 5 base32_alphabet"

definition base32_decode :: "string \<Rightarrow> string option" where
  "base32_decode s = decode_with 5 base32_alphabet (drop_newlines s)"

definition raw64_decode :: "string \<Rightarrow> string \<Rightarrow> string option" where
  "raw64_decode alphabet s =
    (let s = drop_newlines s in if length s mod 4 = 1 then None else decode_with 6 alphabet s)"

definition base64_encode :: "string \<Rightarrow> string" where
  "base64_encode = encode_with 6 base64_alphabet"

definition base64_decode :: "string \<Rightarrow> string option" where
  "base64_decode = raw64_decode base64_alphabet"

definition base64url_encode :: "string \<Rightarrow> string" where
  "base64url_encode = encode_with 6 base64url_alphabet"

text \<open>\<open>base64.StdEncoding\<close> wants the padding.\<close>

definition padded64_decode :: "string \<Rightarrow> string option" where
  "padded64_decode s =
    (let s = drop_newlines s
     in if length s mod 4 \<noteq> 0 then None
        else if has_suffix s ''=='' then base64_decode (take (length s - 2) s)
        else if has_suffix s ''='' then base64_decode (take (length s - 1) s)
        else base64_decode s)"

definition hex_encode :: "string \<Rightarrow> string" where
  "hex_encode = encode_with 4 hex_alphabet"

definition hex_decode :: "string \<Rightarrow> string option" where
  "hex_decode s = (if odd (length s) then None else decode_with 4 hex_alphabet (to_lower s))"

lemma bits_of_char_length [simp]: "length (bits_of_char c) = 8"
  by (cases c) simp

lemma bits_of_length [simp]: "length (bits_of s) = 8 * length s"
  by (induction s) (simp_all add: bits_of_def)

lemma bytes_of_short: "length bs < 8 \<Longrightarrow> bytes_of bs = []"
  by (induction bs rule: bytes_of.induct) simp_all

lemma bytes_of_bits: "length pad < 8 \<Longrightarrow> bytes_of (bits_of s @ pad) = s"
proof (induction s)
  case Nil
  then show ?case by (simp add: bits_of_def bytes_of_short)
next
  case (Cons c s)
  then show ?case by (cases c) (simp add: bits_of_def)
qed

lemma index_of_bits_snoc: "index_of_bits (bs @ [b]) = 2 * index_of_bits bs + of_bool b"
  by (simp add: index_of_bits_def)

lemma bits_of_index_of_bits: "bits_of_index (length bs) (index_of_bits bs) = bs"
  by (induction bs rule: rev_induct) (simp_all add: index_of_bits_snoc)

lemma index_of_bits_less: "index_of_bits bs < 2 ^ length bs"
  by (induction bs rule: rev_induct) (simp_all add: index_of_bits_snoc, simp add: index_of_bits_def)

lemma symbols_less: "0 < k \<Longrightarrow> i \<in> set (symbols k bs) \<Longrightarrow> i < 2 ^ k"
proof (induction k bs rule: symbols.induct)
  case (1 k)
  then show ?case by simp
next
  case (2 k b bs)
  have "length (take k (b # bs) @ replicate (k - length (take k (b # bs))) False) = k" by simp
  then show ?case using 2 index_of_bits_less by (metis set_ConsD symbols.simps(2) Let_def)
qed

lemma symbols_bits:
  assumes "0 < k"
  shows "\<exists>pad. concat (map (bits_of_index k) (symbols k bs)) = bs @ pad \<and> length pad < k"
  using assms
proof (induction k bs rule: symbols.induct)
  case (1 k)
  then show ?case by simp
next
  case (2 k b bs)
  define chunk where "chunk = take k (b # bs)"
  define fill where "fill = replicate (k - length chunk) False"
  have len: "length (chunk @ fill) = k" by (simp add: chunk_def fill_def)
  have one: "bits_of_index k (index_of_bits (chunk @ fill)) = chunk @ fill"
    using bits_of_index_of_bits [of "chunk @ fill"] by (simp only: len)
  have rest: "drop k (b # bs) = drop (k - 1) bs" using 2(2) by (simp add: drop_Cons')
  obtain pad where pad: "concat (map (bits_of_index k) (symbols k (drop (k - 1) bs))) = drop (k - 1) bs @ pad" "length pad < k"
    using 2(1) [OF refl 2(2)] by blast
  have all: "concat (map (bits_of_index k) (symbols k (b # bs))) = chunk @ fill @ drop k (b # bs) @ pad"
    using one pad(1) by (simp add: Let_def chunk_def [symmetric] fill_def [symmetric] rest)
  show ?case
  proof (cases "length (b # bs) < k")
    case True
    then have "bs = [] \<or> drop k (b # bs) = []" and "chunk = b # bs" "length fill < k" "symbols k (drop (k - 1) bs) = []"
      by (simp_all add: chunk_def fill_def)
    then show ?thesis using all pad by auto
  next
    case False
    then have "fill = []" by (simp add: fill_def chunk_def)
    then have "concat (map (bits_of_index k) (symbols k (b # bs))) = (b # bs) @ pad"
      unfolding all chunk_def by (metis append.assoc append_Nil append_take_drop_id)
    then show ?thesis using pad(2) by blast
  qed
qed

lemma position_nth: "distinct xs \<Longrightarrow> i < length xs \<Longrightarrow> position (xs ! i) xs = Some i"
proof (induction xs arbitrary: i)
  case Nil
  then show ?case by simp
next
  case (Cons x xs)
  then show ?case by (cases i) auto
qed

lemma those_map_Some: "(\<And>x. x \<in> set xs \<Longrightarrow> f x = Some (g x)) \<Longrightarrow> those (map f xs) = Some (map g xs)"
  by (induction xs) simp_all

lemma decode_encode_with:
  assumes "distinct alphabet" "length alphabet = 2 ^ k" "0 < k" "k \<le> 8"
  shows "decode_with k alphabet (encode_with k alphabet s) = Some s"
proof -
  define ns where "ns = symbols k (bits_of s)"
  have "those_positions alphabet (encode_with k alphabet s) = Some ns"
    unfolding those_positions_def encode_with_def ns_def [symmetric] map_map
    using those_map_Some [of ns "(\<lambda>c. position c alphabet) \<circ> (!) alphabet" "\<lambda>i. i"]
      symbols_less [OF assms(3), of _ "bits_of s"] assms(1,2)
    by (simp add: ns_def [symmetric] position_nth)
  moreover obtain pad where "concat (map (bits_of_index k) ns) = bits_of s @ pad" "length pad < k"
    using symbols_bits [OF assms(3)] ns_def by blast
  ultimately show ?thesis using assms(4) by (simp add: decode_with_def bytes_of_bits)
qed

lemma encode_with_set: "0 < k \<Longrightarrow> length alphabet = 2 ^ k \<Longrightarrow> set (encode_with k alphabet s) \<subseteq> set alphabet"
  by (auto simp: encode_with_def dest: symbols_less)

lemma symbols_length: "0 < k \<Longrightarrow> length (symbols k bs) = (length bs + k - 1) div k"
proof (induction k bs rule: symbols.induct)
  case (1 k)
  then show ?case by simp
next
  case (2 k b bs)
  have "length (symbols k (b # bs)) = Suc ((length bs - (k - 1) + k - 1) div k)"
    using 2(1) [OF refl 2(2)] by (simp add: Let_def)
  also have "\<dots> = (length (b # bs) + k - 1) div k"
  proof (cases "length bs < k - 1")
    case True
    then have "length bs - (k - 1) + k - 1 = k - 1" "length (b # bs) + k - 1 = length bs + k" using 2(2) by simp_all
    then show ?thesis using True 2(2) by simp
  next
    case False
    then have "length (b # bs) + k - 1 = (length bs - (k - 1) + k - 1) + k" using 2(2) by simp
    then show ?thesis using 2(2) by (metis div_add_self2 Suc_eq_plus1 not_gr_zero)
  qed
  finally show ?case .
qed

lemma encode_with_length: "0 < k \<Longrightarrow> length (encode_with k alphabet s) = (8 * length s + k - 1) div k"
  by (simp add: encode_with_def symbols_length)

lemma alphabets:
  "distinct base32_alphabet" "length base32_alphabet = 2 ^ 5"
  "distinct base64_alphabet" "length base64_alphabet = 2 ^ 6"
  "distinct base64url_alphabet" "length base64url_alphabet = 2 ^ 6"
  "distinct hex_alphabet" "length hex_alphabet = 2 ^ 4"
  by code_simp+

lemma drop_newlines_id: "set s \<subseteq> set a \<Longrightarrow> CHR 0x0A \<notin> set a \<Longrightarrow> CHR 0x0D \<notin> set a \<Longrightarrow> drop_newlines s = s"
  unfolding drop_newlines_def by (rule filter_True) blast

lemma base32_encode_set: "set (base32_encode s) \<subseteq> set base32_alphabet"
  unfolding base32_encode_def by (rule encode_with_set) (simp_all add: alphabets)

lemma base64_encode_set: "set (base64_encode s) \<subseteq> set base64_alphabet"
  unfolding base64_encode_def by (rule encode_with_set) (simp_all add: alphabets)

lemma base32_roundtrip: "base32_decode (base32_encode s) = Some s"
proof -
  have "CHR 0x0A \<notin> set base32_alphabet" "CHR 0x0D \<notin> set base32_alphabet" by code_simp+
  then show ?thesis
    unfolding base32_decode_def using drop_newlines_id [OF base32_encode_set]
    by (simp add: base32_encode_def decode_encode_with alphabets)
qed

lemma sextets: "(5 + 8 * n) div 6 mod 4 \<noteq> Suc 0"
proof -
  define q r where "q = n div 3" and "r = n mod 3"
  have n: "5 + 8 * n = 5 + 8 * r + 6 * (4 * q)" unfolding q_def r_def using mult_div_mod_eq [of 3 n] by linarith
  have "(5 + 8 * n) div 6 = 4 * q + (5 + 8 * r) div 6" unfolding n by simp
  moreover have "r = 0 \<or> r = 1 \<or> r = 2" unfolding r_def by linarith
  ultimately show ?thesis by auto
qed

lemma base64_roundtrip: "base64_decode (base64_encode s) = Some s"
proof -
  have n: "CHR 0x0A \<notin> set base64_alphabet" "CHR 0x0D \<notin> set base64_alphabet" by code_simp+
  have "length (base64_encode s) mod 4 \<noteq> 1"
    unfolding base64_encode_def by (simp add: encode_with_length sextets)
  then show ?thesis
    unfolding base64_decode_def raw64_decode_def Let_def drop_newlines_id [OF base64_encode_set n]
    by (simp add: base64_encode_def decode_encode_with alphabets)
qed

lemma base64_encode_inj: "base64_encode s = base64_encode t \<Longrightarrow> s = t"
proof -
  assume "base64_encode s = base64_encode t"
  then have "base64_decode (base64_encode s) = base64_decode (base64_encode t)" by (rule arg_cong)
  then show ?thesis unfolding base64_roundtrip by (rule option.inject [THEN iffD1])
qed

subsection \<open>Requests\<close>

text \<open>
  An HTTP request, as the handlers see it after \<open>net/http\<close> has parsed it: the headers by
  their canonical name, the cookies in the order of the request.
\<close>

record server_request =
  req_Method :: string
  req_RemoteAddr :: string
  req_TLS :: bool
  req_Host :: string
  req_Header :: "string \<Rightarrow> string list"
  req_Cookies :: "(string \<times> string) list"

definition header_get :: "server_request \<Rightarrow> string \<Rightarrow> string" where
  "header_get r name = (case req_Header r name of [] \<Rightarrow> [] | v # _ \<Rightarrow> v)"

definition req_cookie :: "server_request \<Rightarrow> string \<Rightarrow> string option" where
  "req_cookie r name = map_option snd (find (\<lambda>c. fst c = name) (req_Cookies r))"

text \<open>
  \<open>net.SplitHostPort\<close>, \<open>netip.ParseAddr\<close>, \<open>netip.ParsePrefix\<close>, \<open>netip.Addr.String\<close>,
  \<open>url.Parse\<close> (scheme and host) and \<open>textproto.CanonicalMIMEHeaderKey\<close>. Addresses carry no IPv6 zone.
\<close>

record net_lib =
  split_host_port :: "string \<Rightarrow> (string \<times> string) option"
  parse_addr :: "string \<Rightarrow> Addr option"
  parse_prefix :: "string \<Rightarrow> (Addr \<times> nat) option"
  show_addr :: "Addr \<Rightarrow> string"
  url_parse :: "string \<Rightarrow> (string \<times> string) option"
  canonical_header :: "string \<Rightarrow> string"

subsection \<open>Cryptography\<close>

text \<open>
  SHA-256, HMAC-SHA-1, Argon2id (password, salt, passes, memory, threads, key length) and
  AES-256-GCM (key, nonce, text, additional data).
\<close>

record crypto =
  sha256 :: "string \<Rightarrow> string"
  hmac_sha1 :: "string \<Rightarrow> string \<Rightarrow> string"
  argon2id :: "string \<Rightarrow> string \<Rightarrow> nat \<Rightarrow> nat \<Rightarrow> nat \<Rightarrow> nat \<Rightarrow> string"
  gcm_seal :: "string \<Rightarrow> string \<Rightarrow> string \<Rightarrow> string \<Rightarrow> string"
  gcm_open :: "string \<Rightarrow> string \<Rightarrow> string \<Rightarrow> string \<Rightarrow> string option"

end
