(* ===== verification/Auth_Limiter.thy ===== *)
theory Auth_Limiter
  imports Auth_Base
begin

section \<open>Request protection\<close>

text \<open>
  \<^verbatim>\<open>internal/auth/protection.go\<close>: which proxies may say who the client is, the rate limiter,
  and the checks against cross-site requests. \<open>float64\<close> arithmetic on the tokens is exact here.
\<close>

subsection \<open>Trusted proxies\<close>

type_synonym TrustedProxies = "(Addr \<times> nat) list"

definition BitLen :: "Addr \<Rightarrow> nat" where
  "BitLen a = (case a of V4 _ \<Rightarrow> 32 | V6 _ \<Rightarrow> 128 | AddrInvalid \<Rightarrow> 0)"

text \<open>\<open>Prefix.Contains\<close> and \<open>Prefix.Masked\<close>.\<close>

definition prefix_contains :: "Addr \<times> nat \<Rightarrow> Addr \<Rightarrow> bool" where
  "prefix_contains p a =
    (case (fst p, a) of
       (V4 m, V4 n) \<Rightarrow> m div 2 ^ (32 - snd p) = n div 2 ^ (32 - snd p)
     | (V6 m, V6 n) \<Rightarrow> m div 2 ^ (128 - snd p) = n div 2 ^ (128 - snd p)
     | _ \<Rightarrow> False)"

definition masked :: "Addr \<Rightarrow> nat \<Rightarrow> Addr" where
  "masked a bits =
    (case a of
       V4 n \<Rightarrow> V4 (n div 2 ^ (32 - bits) * 2 ^ (32 - bits))
     | V6 n \<Rightarrow> V6 (n div 2 ^ (128 - bits) * 2 ^ (128 - bits))
     | AddrInvalid \<Rightarrow> AddrInvalid)"

definition show_prefix :: "net_lib \<Rightarrow> Addr \<Rightarrow> nat \<Rightarrow> string" where
  "show_prefix net a bits = show_addr net (masked a bits) @ ''/'' @ show_nat bits"

definition add_prefix :: "net_lib \<Rightarrow> string \<Rightarrow> TrustedProxies \<Rightarrow> TrustedProxies result" where
  "add_prefix net value p =
    (let value = trim_space value
     in if value = [] then Inr p
        else case parse_prefix net value of
               None \<Rightarrow> Inl (ErrMsg ''netip.ParsePrefix'')
             | Some pre \<Rightarrow>
                 if snd pre \<noteq> BitLen (fst pre)
                 then Inl (ErrMsg ''trusted proxy CIDRs must identify one exact host (/32 for IPv4 or /128 for IPv6)'')
                 else Inr (p @ [pre]))"

definition ParseTrustedProxies :: "net_lib \<Rightarrow> string list \<Rightarrow> TrustedProxies result" where
  "ParseTrustedProxies net values = fold_result (add_prefix net) values []"

definition trustedAddr :: "TrustedProxies \<Rightarrow> Addr \<Rightarrow> bool" where
  "trustedAddr p a = list_ex (\<lambda>pre. prefix_contains pre a) p"

definition trusted :: "net_lib \<Rightarrow> TrustedProxies \<Rightarrow> server_request \<Rightarrow> bool" where
  "trusted net p r =
    (case split_host_port net (req_RemoteAddr r) of
       None \<Rightarrow> False
     | Some (host, _) \<Rightarrow>
         (case parse_addr net host of None \<Rightarrow> False | Some a \<Rightarrow> trustedAddr p a))"

definition Secure :: "net_lib \<Rightarrow> TrustedProxies \<Rightarrow> server_request \<Rightarrow> bool" where
  "Secure net p r =
    (if req_TLS r then True
     else if \<not> trusted net p r then False
     else equal_fold (trim_space (hd (split_on CHR '','' (header_get r ''X-Forwarded-Proto'')))) ''https'')"

text \<open>The loop over the forwarded addresses, the last one first.\<close>

fun forwarded_host :: "net_lib \<Rightarrow> TrustedProxies \<Rightarrow> string list \<Rightarrow> string option" where
  "forwarded_host net p [] = None"
| "forwarded_host net p (v # vs) =
    (case parse_addr net (trim_space v) of
       None \<Rightarrow> forwarded_host net p vs
     | Some a \<Rightarrow> if trustedAddr p a then forwarded_host net p vs else Some (show_addr net a))"

definition ClientPrefix :: "net_lib \<Rightarrow> TrustedProxies \<Rightarrow> server_request \<Rightarrow> string" where
  "ClientPrefix net p r =
    (let host = (case split_host_port net (req_RemoteAddr r) of None \<Rightarrow> req_RemoteAddr r | Some (h, _) \<Rightarrow> h);
         host = (if trusted net p r then
                   let values = split_on CHR '','' (header_get r ''X-Forwarded-For'')
                   in if 0 < length values \<and> length values \<le> 16
                      then case forwarded_host net p (rev values) of None \<Rightarrow> host | Some h \<Rightarrow> h
                      else host
                 else host)
     in case parse_addr net host of
          None \<Rightarrow> ''unknown''
        | Some (V4 n) \<Rightarrow> show_prefix net (V4 n) 24
        | Some a \<Rightarrow> show_prefix net a 56)"

subsection \<open>The rate limiter\<close>

text \<open>
  The linked list of buckets, the most recently used first. The map of the Go code leads from a
  key to its element of the list; here the key is looked up in the list.
\<close>

record BucketPolicy =
  Capacity :: float64
  Refill :: duration

record bucket =
  tokens :: float64
  bucket_at :: time
  bucket_used :: time

record Limiter =
  lim_order :: "(string \<times> bucket) list"
  lim_max :: int

definition NewLimiter :: "int \<Rightarrow> Limiter" where
  "NewLimiter m = \<lparr>lim_order = [], lim_max = (if m < 1 then 4096 else m)\<rparr>"

function evict :: "int \<Rightarrow> 'a list \<Rightarrow> 'a list" where
  "evict m es = (if m \<le> int (length es) \<and> es \<noteq> [] then evict m (butlast es) else es)"
  by pat_completeness auto

termination
  by (relation "measure (\<lambda>(m, es). length es)") auto

declare evict.simps [simp del]

definition dur_seconds :: "duration \<Rightarrow> float64" where
  "dur_seconds d = of_int d / 1000000000"

definition refilled :: "BucketPolicy \<Rightarrow> time \<Rightarrow> bucket \<Rightarrow> bucket" where
  "refilled policy now v =
    (let t = tokens v + dur_seconds (time_sub now (bucket_at v)) * Capacity policy / dur_seconds (Refill policy)
     in \<lparr>tokens = (if t > Capacity policy then Capacity policy else t), bucket_at = now, bucket_used = now\<rparr>)"

definition to_front :: "string \<Rightarrow> bucket \<Rightarrow> (string \<times> bucket) list \<Rightarrow> (string \<times> bucket) list" where
  "to_front key v es = (key, v) # filter (\<lambda>e. fst e \<noteq> key) es"

definition Allow :: "string \<Rightarrow> BucketPolicy \<Rightarrow> time \<Rightarrow> Limiter \<Rightarrow> (bool \<times> duration) \<times> Limiter" where
  "Allow key policy now l =
    (if Capacity policy \<le> 0 \<or> Refill policy \<le> 0 then ((True, 0), l)
     else
       let (entry, order) =
             (case map_of (lim_order l) key of
                Some b \<Rightarrow> (b, lim_order l)
              | None \<Rightarrow> (let b = \<lparr>tokens = Capacity policy, bucket_at = now, bucket_used = now\<rparr>
                         in (b, (key, b) # evict (lim_max l) (lim_order l))));
           v = refilled policy now entry
       in if tokens v < 1
          then ((False, seconds \<lfloor>(1 - tokens v) * dur_seconds (Refill policy) / Capacity policy\<rfloor>),
                l\<lparr>lim_order := to_front key v order\<rparr>)
          else ((True, 0), l\<lparr>lim_order := to_front key (v\<lparr>tokens := tokens v - 1\<rparr>) order\<rparr>))"

subsection \<open>The limits of the endpoints\<close>

record Protection =
  prot_limiter :: Limiter
  prot_proxies :: TrustedProxies

definition NewProtection :: "int \<Rightarrow> TrustedProxies \<Rightarrow> Protection" where
  "NewProtection m proxies = \<lparr>prot_limiter = NewLimiter m, prot_proxies = proxies\<rparr>"

definition allow_scope :: "string \<Rightarrow> string \<Rightarrow> BucketPolicy \<Rightarrow> time \<Rightarrow> Protection \<Rightarrow> (bool \<times> duration) \<times> Protection" where
  "allow_scope scope key policy now p =
    (case Allow (scope @ '':'' @ key) policy now (prot_limiter p) of
       (r, l) \<Rightarrow> (r, p\<lparr>prot_limiter := l\<rparr>))"

text \<open>The two calls of \<open>AllowLogin\<close> read the clock one after the other.\<close>

definition AllowLogin :: "net_lib \<Rightarrow> server_request \<Rightarrow> string \<Rightarrow> time \<Rightarrow> time \<Rightarrow> Protection \<Rightarrow> (bool \<times> duration) \<times> Protection" where
  "AllowLogin net r account now1 now2 p =
    (let ((a, ra), p) = allow_scope ''login-ip'' (ClientPrefix net (prot_proxies p) r) \<lparr>Capacity = 10, Refill = minutes 1\<rparr> now1 p;
         ((b, rb), p) = allow_scope ''login-account'' (to_lower (trim_space account)) \<lparr>Capacity = 5, Refill = minutes 5\<rparr> now2 p
     in ((a \<and> b, if rb > ra then rb else ra), p))"

definition AllowSetup :: "net_lib \<Rightarrow> server_request \<Rightarrow> time \<Rightarrow> Protection \<Rightarrow> (bool \<times> duration) \<times> Protection" where
  "AllowSetup net r now p =
    allow_scope ''setup'' (ClientPrefix net (prot_proxies p) r) \<lparr>Capacity = 5, Refill = minutes 5\<rparr> now p"

definition AllowDiagnostics :: "net_lib \<Rightarrow> server_request \<Rightarrow> string \<Rightarrow> time \<Rightarrow> Protection \<Rightarrow> (bool \<times> duration) \<times> Protection" where
  "AllowDiagnostics net r actor now p =
    allow_scope ''diagnostics'' (actor @ '':'' @ ClientPrefix net (prot_proxies p) r) \<lparr>Capacity = 3, Refill = minutes 15\<rparr> now p"

definition AllowMetrics :: "net_lib \<Rightarrow> server_request \<Rightarrow> time \<Rightarrow> Protection \<Rightarrow> (bool \<times> duration) \<times> Protection" where
  "AllowMetrics net r now p =
    allow_scope ''metrics'' (ClientPrefix net (prot_proxies p) r) \<lparr>Capacity = 60, Refill = minutes 1\<rparr> now p"

definition AllowEvents :: "net_lib \<Rightarrow> server_request \<Rightarrow> time \<Rightarrow> Protection \<Rightarrow> (bool \<times> duration) \<times> Protection" where
  "AllowEvents net r now p =
    allow_scope ''events'' (ClientPrefix net (prot_proxies p) r) \<lparr>Capacity = 60, Refill = minutes 1\<rparr> now p"

definition AllowResources :: "net_lib \<Rightarrow> server_request \<Rightarrow> time \<Rightarrow> Protection \<Rightarrow> (bool \<times> duration) \<times> Protection" where
  "AllowResources net r now p =
    allow_scope ''resources'' (ClientPrefix net (prot_proxies p) r) \<lparr>Capacity = 120, Refill = minutes 1\<rparr> now p"

definition AllowLive :: "net_lib \<Rightarrow> server_request \<Rightarrow> time \<Rightarrow> Protection \<Rightarrow> (bool \<times> duration) \<times> Protection" where
  "AllowLive net r now p =
    allow_scope ''live'' (ClientPrefix net (prot_proxies p) r) \<lparr>Capacity = 30, Refill = minutes 1\<rparr> now p"

subsection \<open>Cross-site requests\<close>

definition CSRFCookieName :: string where
  "CSRFCookieName = ''binnacle_csrf''"

definition CSRFHash :: "crypto \<Rightarrow> string \<Rightarrow> string" where
  "CSRFHash c token = base64_encode (sha256 c token)"

definition ValidCSRF :: "crypto \<Rightarrow> server_request \<Rightarrow> string \<Rightarrow> bool" where
  "ValidCSRF c r expectedHash =
    (if req_Method r \<in> set [''GET'', ''HEAD'', ''OPTIONS''] then True
     else case req_cookie r CSRFCookieName of
            None \<Rightarrow> False
          | Some cookie \<Rightarrow>
              let header = header_get r ''X-Csrf-Token''
              in if header = [] \<or> cookie \<noteq> header then False else CSRFHash c header = expectedHash)"

definition SameOrigin :: "net_lib \<Rightarrow> server_request \<Rightarrow> TrustedProxies \<Rightarrow> bool" where
  "SameOrigin net r proxies =
    (let raw = header_get r ''Origin'';
         raw = (if raw = [] then header_get r ''Referer'' else raw)
     in case url_parse net raw of
          None \<Rightarrow> False
        | Some (uscheme, uhost) \<Rightarrow>
            if uhost = [] then False
            else let scheme = (if Secure net proxies r then ''https'' else ''http'')
                 in equal_fold uscheme scheme \<and> equal_fold uhost (req_Host r))"

subsection \<open>The limiter keeps its bounds\<close>

definition limiter_inv :: "Limiter \<Rightarrow> bool" where
  "limiter_inv l = (1 \<le> lim_max l \<and> int (length (lim_order l)) \<le> lim_max l \<and> distinct (map fst (lim_order l)))"

lemma evict_take: "1 \<le> m \<Longrightarrow> evict m es = (if int (length es) < m then es else take (nat (m - 1)) es)"
proof (induction m es rule: evict.induct)
  case (1 m es)
  show ?case
  proof (cases "int (length es) < m")
    case True
    then show ?thesis by (simp add: evict.simps)
  next
    case False
    then have es: "es \<noteq> []" using 1(2) by auto
    have "evict m es = evict m (butlast es)" using False es by (subst evict.simps) simp
    also have "\<dots> = take (nat (m - 1)) es"
    proof (cases "int (length (butlast es)) < m")
      case True
      then have "nat (m - 1) = length (butlast es)" using False es by (auto simp: nat_eq_iff of_nat_diff Suc_leI)
      then show ?thesis using 1(1) [OF _ 1(2)] True False es by (simp add: butlast_conv_take)
    next
      case b: False
      have "take (nat (m - 1)) (butlast es) = take (nat (m - 1)) es"
        using b by (simp add: butlast_conv_take)
      then show ?thesis using 1(1) [OF _ 1(2)] b False es by simp
    qed
    finally show ?thesis using False by simp
  qed
qed

lemma map_of_keys: "(map_of es k = None) = (k \<notin> set (map fst es))"
  by (induction es) auto

lemma to_front_keys:
  "distinct (map fst es) \<Longrightarrow> distinct (map fst (to_front k v es))"
  "k \<in> set (map fst es) \<Longrightarrow> distinct (map fst es) \<Longrightarrow> length (to_front k v es) = length es"
  "set (map fst (to_front k v es)) = insert k (set (map fst es))"
  "map_of (to_front k v es) k' = (if k' = k then Some v else map_of es k')"
proof -
  show "distinct (map fst es) \<Longrightarrow> distinct (map fst (to_front k v es))"
    by (auto simp: to_front_def distinct_map_filter)
  show "set (map fst (to_front k v es)) = insert k (set (map fst es))"
    by (auto simp: to_front_def)
  show "map_of (to_front k v es) k' = (if k' = k then Some v else map_of es k')"
    unfolding to_front_def by (induction es) auto
  show "k \<in> set (map fst es) \<Longrightarrow> distinct (map fst es) \<Longrightarrow> length (to_front k v es) = length es"
  proof (induction es)
    case Nil
    then show ?case by simp
  next
    case (Cons e es)
    show ?case
    proof (cases "fst e = k")
      case True
      have "k \<notin> fst ` set es" using True Cons.prems(2) by auto
      then have "filter (\<lambda>e. fst e \<noteq> k) es = es" by (intro filter_True) force
      then show ?thesis using True by (simp add: to_front_def)
    next
      case False
      then show ?thesis using Cons by (simp add: to_front_def)
    qed
  qed
qed

text \<open>What one call does to the list, in terms of the bucket it worked on.\<close>

definition bucket_for :: "string \<Rightarrow> BucketPolicy \<Rightarrow> time \<Rightarrow> Limiter \<Rightarrow> bucket" where
  "bucket_for key policy now l =
    (case map_of (lim_order l) key of Some b \<Rightarrow> b | None \<Rightarrow> \<lparr>tokens = Capacity policy, bucket_at = now, bucket_used = now\<rparr>)"

definition order_for :: "string \<Rightarrow> BucketPolicy \<Rightarrow> time \<Rightarrow> Limiter \<Rightarrow> (string \<times> bucket) list" where
  "order_for key policy now l =
    (case map_of (lim_order l) key of
       Some b \<Rightarrow> lim_order l
     | None \<Rightarrow> (key, bucket_for key policy now l) # evict (lim_max l) (lim_order l))"

definition spent :: "bucket \<Rightarrow> bucket" where
  "spent v = (if tokens v < 1 then v else v\<lparr>tokens := tokens v - 1\<rparr>)"

lemma Allow_unfold:
  fixes key now l
  assumes "0 < Capacity policy" "0 < Refill policy"
  defines "v \<equiv> refilled policy now (bucket_for key policy now l)"
  shows "snd (Allow key policy now l) = l\<lparr>lim_order := to_front key (spent v) (order_for key policy now l)\<rparr>"
    and "fst (fst (Allow key policy now l)) = (1 \<le> tokens v)"
    and "tokens v < 1 \<Longrightarrow> snd (fst (Allow key policy now l)) = seconds \<lfloor>(1 - tokens v) * dur_seconds (Refill policy) / Capacity policy\<rfloor>"
  using assms(1,2) unfolding v_def
  by (cases "map_of (lim_order l) key"; simp add: Allow_def bucket_for_def order_for_def spent_def Let_def)+

lemma order_for_inv:
  assumes "limiter_inv l"
  shows "int (length (order_for key policy now l)) \<le> lim_max l" "distinct (map fst (order_for key policy now l))"
    "key \<in> set (map fst (order_for key policy now l))"
proof -
  have m: "1 \<le> lim_max l" and d: "distinct (map fst (lim_order l))" and n: "int (length (lim_order l)) \<le> lim_max l"
    using assms by (simp_all add: limiter_inv_def)
  have e: "evict (lim_max l) (lim_order l) =
      (if int (length (lim_order l)) < lim_max l then lim_order l else take (nat (lim_max l - 1)) (lim_order l))"
    by (rule evict_take [OF m])
  have len: "int (length (evict (lim_max l) (lim_order l))) < lim_max l" using m by (auto simp: e)
  have dist: "distinct (map fst (evict (lim_max l) (lim_order l)))"
    using d by (auto simp: e take_map [symmetric])
  have sub: "set (map fst (evict (lim_max l) (lim_order l))) \<subseteq> set (map fst (lim_order l))"
    by (auto simp: e dest: in_set_takeD)
  show "int (length (order_for key policy now l)) \<le> lim_max l" using n len
    by (auto simp: order_for_def split: option.splits)
  show "key \<in> set (map fst (order_for key policy now l))"
    using map_of_keys [of "lim_order l" key] by (auto simp: order_for_def split: option.splits)
  show "distinct (map fst (order_for key policy now l))"
    using d dist sub map_of_keys [of "lim_order l" key] by (auto simp: order_for_def split: option.splits)
qed

lemma Allow_inv: "limiter_inv l \<Longrightarrow> limiter_inv (snd (Allow key policy now l))"
proof (cases "0 < Capacity policy \<and> 0 < Refill policy")
  case True
  assume l: "limiter_inv l"
  then show ?thesis
    using True order_for_inv [OF l] to_front_keys(1) [of "order_for key policy now l" key] to_front_keys(2) [of key "order_for key policy now l"]
    by (simp add: Allow_unfold limiter_inv_def)
next
  case False
  assume "limiter_inv l"
  then show ?thesis using False by (auto simp: Allow_def not_less)
qed

subsection \<open>Sequences of attempts\<close>

type_synonym attempt = "string \<times> BucketPolicy \<times> time"

fun attempts :: "attempt list \<Rightarrow> Limiter \<Rightarrow> bool list \<times> Limiter" where
  "attempts [] l = ([], l)"
| "attempts ((k, p, t) # as) l =
    (let ((ok, _), l') = Allow k p t l; (oks, l'') = attempts as l' in (ok # oks, l''))"

definition admitted :: "string \<Rightarrow> attempt list \<Rightarrow> Limiter \<Rightarrow> nat" where
  "admitted k as l = count_where (\<lambda>(a, ok). fst a = k \<and> ok) (zip as (fst (attempts as l)))"

lemma attempts_Cons [simp]:
  "fst (attempts ((k, p, t) # as) l) = fst (fst (Allow k p t l)) # fst (attempts as (snd (Allow k p t l)))"
  "snd (attempts ((k, p, t) # as) l) = snd (attempts as (snd (Allow k p t l)))"
  by (simp_all add: Let_def split: prod.splits)

lemma admitted_Nil [simp]: "admitted k [] l = 0"
  by (simp add: admitted_def)

lemma admitted_Cons:
  "admitted k ((k', p, t) # as) l =
    (if k' = k \<and> fst (fst (Allow k' p t l)) then 1 else 0) + admitted k as (snd (Allow k' p t l))"
  unfolding admitted_def attempts_Cons by (cases "k' = k") simp_all

lemma attempts_inv: "limiter_inv l \<Longrightarrow> limiter_inv (snd (attempts as l))"
proof (induction as arbitrary: l)
  case Nil
  then show ?case by simp
next
  case (Cons a as)
  obtain k p t where a: "a = (k, p, t)" by (cases a)
  show ?case unfolding a attempts_Cons by (rule Cons.IH [OF Allow_inv [OF Cons.prems]])
qed

lemma NewLimiter_inv: "limiter_inv (NewLimiter m)"
  by (simp add: NewLimiter_def limiter_inv_def)

lemma Allow_max: "lim_max (snd (Allow key policy now l)) = lim_max l"
proof (cases "0 < Capacity policy \<and> 0 < Refill policy")
  case True
  then show ?thesis by (simp add: Allow_unfold(1))
next
  case False
  then show ?thesis by (auto simp: Allow_def not_less)
qed

text \<open>As long as there is room nothing is evicted.\<close>

lemma Allow_room:
  assumes "limiter_inv l" "key \<notin> set (map fst (lim_order l)) \<Longrightarrow> int (length (lim_order l)) < lim_max l"
  shows "set (map fst (lim_order (snd (Allow key policy now l)))) \<subseteq> insert key (set (map fst (lim_order l)))"
    and "k \<noteq> key \<Longrightarrow> map_of (lim_order (snd (Allow key policy now l))) k = map_of (lim_order l) k"
    and "lim_max (snd (Allow key policy now l)) = lim_max l"
proof -
  have m: "1 \<le> lim_max l" using assms(1) by (simp add: limiter_inv_def)
  have o: "order_for key policy now l =
      (case map_of (lim_order l) key of Some b \<Rightarrow> lim_order l | None \<Rightarrow> (key, bucket_for key policy now l) # lim_order l)"
  proof (cases "map_of (lim_order l) key")
    case None
    then have "int (length (lim_order l)) < lim_max l" using assms(2) map_of_keys by metis
    then show ?thesis using None m by (simp add: order_for_def evict_take)
  next
    case (Some b)
    then show ?thesis by (simp add: order_for_def)
  qed
  have keys: "set (map fst (order_for key policy now l)) \<subseteq> insert key (set (map fst (lim_order l)))"
    by (auto simp: o split: option.splits)
  have other: "k \<noteq> key \<Longrightarrow> map_of (order_for key policy now l) k = map_of (lim_order l) k"
    by (simp add: o split: option.splits)
  show "set (map fst (lim_order (snd (Allow key policy now l)))) \<subseteq> insert key (set (map fst (lim_order l)))"
  proof (cases "0 < Capacity policy \<and> 0 < Refill policy")
    case True
    then have "set (map fst (lim_order (snd (Allow key policy now l)))) = insert key (set (map fst (order_for key policy now l)))"
      using to_front_keys(3) [of key _ "order_for key policy now l"] by (simp only: Allow_unfold(1) Limiter.simps) simp
    then show ?thesis using keys by blast
  next
    case False
    then show ?thesis by (auto simp: Allow_def not_less)
  qed
  show "k \<noteq> key \<Longrightarrow> map_of (lim_order (snd (Allow key policy now l))) k = map_of (lim_order l) k"
  proof (cases "0 < Capacity policy \<and> 0 < Refill policy")
    case True
    assume "k \<noteq> key"
    then show ?thesis using True other by (simp add: Allow_unfold(1) to_front_keys(4))
  next
    case False
    then show ?thesis by (auto simp: Allow_def not_less)
  qed
  show "lim_max (snd (Allow key policy now l)) = lim_max l" by (rule Allow_max)
qed

text \<open>The tokens a bucket has gained by a time, and the tokens it may still give until \<open>t1\<close>.\<close>

definition rate :: "BucketPolicy \<Rightarrow> float64" where
  "rate p = Capacity p / of_int (Refill p)"

definition budget :: "BucketPolicy \<Rightarrow> time \<Rightarrow> time \<Rightarrow> bucket option \<Rightarrow> float64" where
  "budget p t0 t1 b =
    (case b of None \<Rightarrow> Capacity p + of_int (t1 - t0) * rate p
             | Some b \<Rightarrow> tokens b + of_int (t1 - bucket_at b) * rate p)"

lemma refilled_tokens:
  assumes "0 < Refill p" "0 < Capacity p" "bucket_at b \<le> now" "0 \<le> tokens b"
  shows "tokens (refilled p now b) \<le> tokens b + of_int (now - bucket_at b) * rate p"
    and "0 \<le> tokens (refilled p now b)"
    and "tokens (refilled p now b) \<le> Capacity p"
proof -
  define e where "e = time_sub now (bucket_at b)"
  have e: "0 \<le> e" "e \<le> now - bucket_at b"
    using assms(3) by (auto simp: e_def time_sub_def min_duration_def max_duration_def)
  have r: "0 < rate p" using assms(1,2) by (simp add: rate_def)
  have t: "dur_seconds e * Capacity p / dur_seconds (Refill p) = of_int e * rate p"
    by (simp add: dur_seconds_def rate_def)
  have le: "of_int e * rate p \<le> of_int (now - bucket_at b) * rate p"
    using e(2) r by (intro mult_right_mono) (simp_all only: of_int_le_iff less_imp_le)
  have ge: "0 \<le> of_int e * rate p" using e(1) r by simp
  have v: "tokens (refilled p now b) = (if tokens b + of_int e * rate p > Capacity p then Capacity p else tokens b + of_int e * rate p)"
    unfolding refilled_def Let_def e_def [symmetric] t by simp
  show "tokens (refilled p now b) \<le> tokens b + of_int (now - bucket_at b) * rate p" using le by (simp add: v)
  show "0 \<le> tokens (refilled p now b)" using ge assms(2,4) by (simp add: v)
  show "tokens (refilled p now b) \<le> Capacity p" by (simp add: v)
qed

lemma refilled_at [simp]: "bucket_at (refilled p now b) = now"
  by (simp add: refilled_def Let_def)

lemma spent_simps [simp]:
  "bucket_at (spent v) = bucket_at v"
  "tokens (spent v) = (if tokens v < 1 then tokens v else tokens v - 1)"
  by (simp_all add: spent_def)

lemma Allow_budget:
  assumes p: "0 < Capacity p" "0 < Refill p" and t: "t0 \<le> now"
    and b: "\<And>b. map_of (lim_order l) k = Some b \<Longrightarrow> bucket_at b \<le> now \<and> 0 \<le> tokens b"
  defines "b' \<equiv> spent (refilled p now (bucket_for k p now l))"
  shows "map_of (lim_order (snd (Allow k p now l))) k = Some b'"
    and "bucket_at b' = now" and "0 \<le> tokens b'"
    and "(if fst (fst (Allow k p now l)) then 1 else 0) + budget p t0 t1 (Some b') \<le> budget p t0 t1 (map_of (lim_order l) k)"
proof -
  define v where "v = refilled p now (bucket_for k p now l)"
  have r: "0 < rate p" using p by (simp add: rate_def)
  have for_ok: "bucket_at (bucket_for k p now l) \<le> now" "0 \<le> tokens (bucket_for k p now l)"
    using b p(1) by (auto simp: bucket_for_def split: option.splits)
  note v_tokens = refilled_tokens [OF p(2,1) for_ok, folded v_def]
  show "map_of (lim_order (snd (Allow k p now l))) k = Some b'"
    using p by (simp add: Allow_unfold(1) to_front_keys(4) b'_def)
  show "bucket_at b' = now" by (simp add: b'_def)
  show "0 \<le> tokens b'" using v_tokens(2) by (simp add: b'_def v_def [symmetric])
  have one: "(if fst (fst (Allow k p now l)) then 1 else 0) + tokens b' = tokens v"
    using p by (simp add: Allow_unfold(2) b'_def v_def [symmetric])
  have "tokens v + of_int (t1 - now) * rate p \<le> budget p t0 t1 (map_of (lim_order l) k)"
  proof (cases "map_of (lim_order l) k")
    case None
    have "of_int (t1 - now) * rate p \<le> of_int (t1 - t0) * rate p"
      using t r by (intro mult_right_mono) (simp_all only: of_int_le_iff less_imp_le diff_left_mono)
    then show ?thesis using None v_tokens(3) by (simp add: budget_def)
  next
    case (Some c)
    then have c: "bucket_for k p now l = c" by (simp add: bucket_for_def)
    have "of_int (now - bucket_at c) * rate p + of_int (t1 - now) * rate p = of_int (t1 - bucket_at c) * rate p"
      by (simp add: algebra_simps)
    then show ?thesis using Some v_tokens(1) by (simp add: budget_def c)
  qed
  then show "(if fst (fst (Allow k p now l)) then 1 else 0) + budget p t0 t1 (Some b') \<le> budget p t0 t1 (map_of (lim_order l) k)"
    using one by (simp add: budget_def b'_def)
qed

lemma admitted_budget:
  assumes p: "0 < Capacity p" "0 < Refill p"
  shows "limiter_inv l \<Longrightarrow> (\<forall>a \<in> set as. fst a = k \<longrightarrow> fst (snd a) = p) \<Longrightarrow>
    sorted (map (snd \<circ> snd) as) \<Longrightarrow> (\<forall>a \<in> set as. t0 \<le> snd (snd a) \<and> snd (snd a) \<le> t1) \<Longrightarrow> t0 \<le> t1 \<Longrightarrow>
    int (card (set (map fst (lim_order l)) \<union> set (map fst as))) \<le> lim_max l \<Longrightarrow>
    (\<forall>b. map_of (lim_order l) k = Some b \<longrightarrow> 0 \<le> tokens b \<and> bucket_at b \<le> t1 \<and> (\<forall>a \<in> set as. bucket_at b \<le> snd (snd a))) \<Longrightarrow>
    of_nat (admitted k as l) \<le> budget p t0 t1 (map_of (lim_order l) k)"
proof (induction as arbitrary: l)
  case Nil
  have r: "0 \<le> rate p" using p by (simp add: rate_def)
  show ?case using Nil(5,7) p(1) r by (auto simp: budget_def split: option.splits)
next
  case (Cons a as)
  obtain k' q now where a: "a = (k', q, now)" by (cases a)
  define l' where "l' = snd (Allow k' q now l)"
  have inv': "limiter_inv l'" unfolding l'_def by (rule Allow_inv [OF Cons.prems(1)])
  have room: "int (length (lim_order l)) < lim_max l" if new: "k' \<notin> set (map fst (lim_order l))"
  proof -
    have "card (insert k' (set (map fst (lim_order l)))) \<le> card (set (map fst (lim_order l)) \<union> set (map fst (a # as)))"
      by (rule card_mono) (auto simp: a)
    moreover have "card (insert k' (set (map fst (lim_order l)))) = Suc (length (lim_order l))"
      using new Cons.prems(1) distinct_card [of "map fst (lim_order l)"] by (simp add: limiter_inv_def)
    ultimately show ?thesis using Cons.prems(6) by simp
  qed
  note kept = Allow_room [OF Cons.prems(1), where key = k', OF room, where policy = q and now = now, folded l'_def]
  have card': "int (card (set (map fst (lim_order l')) \<union> set (map fst as))) \<le> lim_max l'"
  proof -
    have "card (set (map fst (lim_order l')) \<union> set (map fst as)) \<le> card (set (map fst (lim_order l)) \<union> set (map fst (a # as)))"
      using kept(1) by (intro card_mono) (auto simp: a)
    then show ?thesis using Cons.prems(6) kept(3) by simp
  qed
  have later: "\<forall>x \<in> set as. now \<le> snd (snd x)" using Cons.prems(3) by (simp add: a)
  have times: "t0 \<le> now" "now \<le> t1" using Cons.prems(4) by (simp_all add: a)
  note IH = Cons.IH [OF inv' _ _ _ Cons.prems(5) card']
  show ?case
  proof (cases "k' = k")
    case True
    then have q: "q = p" using Cons.prems(2) by (simp add: a)
    define b' where "b' = spent (refilled p now (bucket_for k p now l))"
    have old: "bucket_at b \<le> now \<and> 0 \<le> tokens b" if "map_of (lim_order l) k = Some b" for b
      using Cons.prems(7) that by (simp add: a)
    note step = Allow_budget [OF p times(1), where k = k and l = l, OF old, folded b'_def]
    have l': "l' = snd (Allow k p now l)" by (simp add: l'_def True q)
    have "of_nat (admitted k as l') \<le> budget p t0 t1 (map_of (lim_order l') k)"
    proof (rule IH)
      show "\<forall>b. map_of (lim_order l') k = Some b \<longrightarrow> 0 \<le> tokens b \<and> bucket_at b \<le> t1 \<and> (\<forall>a \<in> set as. bucket_at b \<le> snd (snd a))"
        using step(2,3) times(2) later by (simp add: l' step(1))
    qed (use Cons.prems in auto)
    then have "of_nat (admitted k as l') \<le> budget p t0 t1 (Some b')" by (simp add: l' step(1))
    moreover have "of_nat (admitted k (a # as) l) = (if fst (fst (Allow k p now l)) then 1 else 0) + (of_nat (admitted k as l') :: rat)"
      by (simp add: a True q admitted_Cons l')
    ultimately show ?thesis using step(4) [of t1] by linarith
  next
    case False
    have same: "map_of (lim_order l') k = map_of (lim_order l) k" by (rule kept(2) [OF _ not_sym [OF False]])
    have "of_nat (admitted k as l') \<le> budget p t0 t1 (map_of (lim_order l') k)"
      by (rule IH) (use Cons.prems same in auto)
    then show ?thesis using False same by (simp add: a admitted_Cons l'_def [symmetric])
  qed
qed

subsection \<open>Properties\<close>

text \<open>
  C20. The token bucket limits the rate: among any attempts in the time from \<open>t0\<close> to \<open>t1\<close>, made
  in order and with no more different keys than the limiter holds, the number admitted for one
  key is at most the capacity of its policy plus what is refilled in that time.
\<close>

theorem limiter_rate:
  assumes "0 < Capacity p" "0 < Refill p" "t0 \<le> t1"
    and "\<forall>a \<in> set as. fst a = k \<longrightarrow> fst (snd a) = p"
    and "sorted (map (snd \<circ> snd) as)" "\<forall>a \<in> set as. t0 \<le> snd (snd a) \<and> snd (snd a) \<le> t1"
    and "int (card (set (map fst as))) \<le> lim_max (NewLimiter m)"
  shows "of_nat (admitted k as (NewLimiter m)) \<le> Capacity p + of_int (t1 - t0) * Capacity p / of_int (Refill p)"
proof -
  have "of_nat (admitted k as (NewLimiter m)) \<le> budget p t0 t1 (map_of (lim_order (NewLimiter m)) k)"
    by (rule admitted_budget [OF assms(1,2) NewLimiter_inv assms(4,5,6,3)]) (use assms(7) in \<open>simp_all add: NewLimiter_def\<close>)
  then show ?thesis by (simp add: NewLimiter_def budget_def rate_def)
qed

text \<open>
  The limiter stays bounded whatever keys it is shown: after any attempts, with any policies
  and at any times, it holds at most its maximum of buckets and no key twice.
\<close>

theorem limiter_bounded:
  "int (length (lim_order (snd (attempts as (NewLimiter m))))) \<le> lim_max (NewLimiter m)
   \<and> lim_max (snd (attempts as (NewLimiter m))) = lim_max (NewLimiter m)
   \<and> distinct (map fst (lim_order (snd (attempts as (NewLimiter m)))))"
proof -
  have "lim_max (snd (attempts as l)) = lim_max l" for l
  proof (induction as arbitrary: l)
    case Nil
    then show ?case by simp
  next
    case (Cons a as)
    obtain k p t where a: "a = (k, p, t)" by (cases a)
    show ?case unfolding a attempts_Cons Cons.IH by (rule Allow_max)
  qed
  then show ?thesis using attempts_inv [OF NewLimiter_inv, of as m] by (simp add: limiter_inv_def)
qed

text \<open>
  A refused client is not locked out: a request that comes one second after the announced
  waiting time, with no other attempt for its key in between, is admitted.
\<close>

theorem limiter_retry:
  assumes "1 \<le> Capacity p" "0 < Refill p" and "Allow k p now l = ((False, retry), l')"
    and "now + retry + seconds 1 \<le> later" "in_int64 (later - now)"
  shows "fst (fst (Allow k p later l'))"
proof -
  have c: "0 < Capacity p" using assms(1) by simp
  define v where "v = refilled p now (bucket_for k p now l)"
  have low: "tokens v < 1" using Allow_unfold(2) [OF c assms(2), where key = k and now = now and l = l] assms(3) by (simp add: v_def)
  have retry: "retry = seconds \<lfloor>(1 - tokens v) * dur_seconds (Refill p) / Capacity p\<rfloor>"
    using Allow_unfold(3) [OF c assms(2), where key = k and now = now and l = l] low assms(3) by (simp add: v_def)
  have "l' = l\<lparr>lim_order := to_front k (spent v) (order_for k p now l)\<rparr>"
    using Allow_unfold(1) [OF c assms(2), where key = k and now = now and l = l] assms(3) by (simp add: v_def)
  then have b: "bucket_for k p later l' = v" using low by (simp add: bucket_for_def to_front_keys(4) spent_def)
  define x where "x = (1 - tokens v) * dur_seconds (Refill p) / Capacity p"
  have wait: "x \<le> of_int (later - now) / 1000000000"
  proof -
    have "(\<lfloor>x\<rfloor> + 1) * 1000000000 \<le> later - now" using assms(4) by (simp add: retry x_def [symmetric] seconds_def)
    then have "of_int ((\<lfloor>x\<rfloor> + 1) * 1000000000) \<le> (of_int (later - now) :: rat)" by (simp only: of_int_le_iff)
    then have "(of_int \<lfloor>x\<rfloor> + 1) * 1000000000 \<le> (of_int (later - now) :: rat)" by simp
    moreover have "x \<le> of_int \<lfloor>x\<rfloor> + 1" by linarith
    ultimately show ?thesis by simp
  qed
  have e: "time_sub later (bucket_at v) = later - now"
    using assms(5) by (simp add: v_def in_int64_def time_sub_exact)
  have "1 - tokens v \<le> dur_seconds (later - now) * Capacity p / dur_seconds (Refill p)"
  proof -
    have pos: "0 < dur_seconds (Refill p)" using assms(2) by (simp add: dur_seconds_def)
    have "x * Capacity p \<le> dur_seconds (later - now) * Capacity p"
      using wait c by (simp add: dur_seconds_def)
    then have "(1 - tokens v) * dur_seconds (Refill p) \<le> dur_seconds (later - now) * Capacity p" using c by (simp add: x_def)
    then show ?thesis using pos by (simp add: field_simps)
  qed
  then have "1 \<le> tokens (refilled p later v)" using assms(1) by (simp add: refilled_def Let_def e)
  then show ?thesis using Allow_unfold(2) [OF c assms(2), where key = k and now = later and l = l'] by (simp add: b)
qed


end
