(* ===== verification/Auth_Users.thy ===== *)
theory Auth_Users
  imports Auth_Limiter
begin

section \<open>Accounts, passwords, secrets and setup\<close>

text \<open>
  \<^verbatim>\<open>users.go\<close>, \<^verbatim>\<open>password.go\<close>, \<^verbatim>\<open>secrets.go\<close>, \<^verbatim>\<open>setup.go\<close>, \<^verbatim>\<open>bootstrap.go\<close> and \<^verbatim>\<open>proxy_auth.go\<close>
  of \<^verbatim>\<open>internal/auth\<close>. The authentication tables form a database of their own: of the
  other components only the notification channels use one of them, the encrypted secrets. \<open>rnd i n\<close> are the \<open>n\<close> bytes of the \<open>i\<close>-th call of
  \<open>rand.Read\<close>. The services have their database, and statements fail only by a constraint.
\<close>

subsection \<open>The tables\<close>

record user_row =
  us_id :: string
  us_username :: string
  us_password_hash :: string
  us_created_at :: int
  us_updated_at :: int
  us_totp_enabled :: bool
  us_totp_secret_key :: "string option"
  us_mfa_changed_at :: "int option"

record session_row =
  se_id_hash :: string
  se_user_id :: string
  se_created_at :: int
  se_last_seen_at :: int
  se_expires_at :: int
  se_absolute_expires_at :: int
  se_revoked_at :: "int option"
  se_csrf_hash :: "string option"
  se_user_agent_hash :: "string option"
  se_ip_prefix_hash :: "string option"
  se_auth_method :: string
  se_auth_subject :: "string option"

record recovery_row =
  rc_user_id :: string
  rc_code_hash :: string
  rc_created_at :: int
  rc_used_at :: "int option"

record secret_row =
  sk_key :: string
  sk_ciphertext :: string
  sk_nonce :: string
  sk_algorithm :: string
  sk_key_version :: int
  sk_updated_at :: int

record setup_row =
  su_token_hash :: "string option"
  su_expires_at :: "int option"
  su_claimed_at :: "int option"
  su_created_at :: int

record api_token_row =
  at_id :: string
  at_user_id :: string
  at_name :: string
  at_prefix :: string
  at_token_hash :: string
  at_scopes :: "string list"
  at_created_at :: int
  at_expires_at :: "int option"
  at_last_used_at :: "int option"
  at_revoked_at :: "int option"

record auth_db =
  users :: "user_row list"
  sessions :: "session_row list"
  recovery_codes :: "recovery_row list"
  encrypted_secrets :: "secret_row list"
  setup_state :: "setup_row option"
  api_tokens :: "api_token_row list"
  reads :: nat

definition empty_auth :: auth_db where
  "empty_auth = \<lparr>users = [], sessions = [], recovery_codes = [], encrypted_secrets = [],
    setup_state = None, api_tokens = [], reads = 0\<rparr>"

type_synonym rand = "nat \<Rightarrow> nat \<Rightarrow> string"

definition rand_read :: "rand \<Rightarrow> nat \<Rightarrow> auth_db \<Rightarrow> string \<times> auth_db" where
  "rand_read rnd n d = (rnd (reads d) n, d\<lparr>reads := Suc (reads d)\<rparr>)"

subsection \<open>Passwords\<close>

definition passwordMemory :: nat where
  "passwordMemory = 64 * 1024"

definition passwordTime :: nat where
  "passwordTime = 3"

definition passwordKeySize :: nat where
  "passwordKeySize = 32"

definition user_char :: "char \<Rightarrow> bool" where
  "user_char r = ((CHR ''a'' \<le> r \<and> r \<le> CHR ''z'') \<or> (CHR ''0'' \<le> r \<and> r \<le> CHR ''9'') \<or>
     r = CHR ''.'' \<or> r = CHR ''_'' \<or> r = CHR ''-'')"

fun user_chars :: "nat \<Rightarrow> string \<Rightarrow> go_error option" where
  "user_chars i [] = None"
| "user_chars i (r # rs) =
    (if user_char r then
       if i = 0 \<and> \<not> (CHR ''a'' \<le> r \<and> r \<le> CHR ''z'') then Some (ErrMsg ''username must start with a letter'')
       else user_chars (i + 1) rs
     else Some (ErrMsg ''username contains unsupported characters''))"

definition ValidateUsername :: "string \<Rightarrow> string result" where
  "ValidateUsername username =
    (let username = to_lower (trim_space username)
     in if length username < 3 \<or> length username > 32 then Inl (ErrMsg ''username must be 3 to 32 characters'')
        else case user_chars 0 username of Some e \<Rightarrow> Inl e | None \<Rightarrow> Inr username)"

text \<open>
  \<open>utf8.ValidString\<close> and \<open>utf8.RuneCountInString\<close>: the number of runes of a well-formed UTF-8
  string. \<open>rune_size\<close> is the length of the first rune.
\<close>

definition in_bytes :: "nat \<Rightarrow> nat \<Rightarrow> char \<Rightarrow> bool" where
  "in_bytes lo hi c = (lo \<le> of_char c \<and> of_char c \<le> hi)"

definition rune_size :: "string \<Rightarrow> nat option" where
  "rune_size s =
    (case s of
       [] \<Rightarrow> None
     | b # bs \<Rightarrow>
         let cont = in_bytes 0x80 0xBF;
             second = (if of_char b = (0xE0 :: nat) then in_bytes 0xA0 0xBF
                       else if of_char b = (0xED :: nat) then in_bytes 0x80 0x9F
                       else if of_char b = (0xF0 :: nat) then in_bytes 0x90 0xBF
                       else if of_char b = (0xF4 :: nat) then in_bytes 0x80 0x8F
                       else cont);
             n = (if in_bytes 0 0x7F b then 1 else if in_bytes 0xC2 0xDF b then 2
                  else if in_bytes 0xE0 0xEF b then 3 else if in_bytes 0xF0 0xF4 b then 4 else 0)
         in if n = 0 then None
            else if n = 1 then Some 1
            else if length bs + 1 < n then None
            else if second (hd bs) \<and> list_all cont (take (n - 2) (tl bs)) then Some n
            else None)"

function rune_count :: "string \<Rightarrow> nat option" where
  "rune_count [] = Some 0"
| "rune_count (b # bs) =
    (case rune_size (b # bs) of
       None \<Rightarrow> None
     | Some n \<Rightarrow> map_option Suc (rune_count (drop (n - 1) bs)))"
  by pat_completeness auto

termination
  by (relation "measure length") auto

definition ValidatePassword :: "string \<Rightarrow> go_error option" where
  "ValidatePassword password =
    (if rune_count password = None \<or> length password > 1024 then Some (ErrMsg ''password is invalid'')
     else let n = the (rune_count password)
          in if n < 12 \<or> n > 128 then Some (ErrMsg ''password must be 12 to 128 characters'') else None)"

definition parallelism :: "int \<Rightarrow> nat" where
  "parallelism n = (let n = (if n < 1 then 1 else n); n = (if n > 4 then 4 else n) in nat n)"

definition encode_hash :: "nat \<Rightarrow> string \<Rightarrow> string \<Rightarrow> string" where
  "encode_hash p salt key =
    ''$argon2id$v=19$m='' @ show_nat passwordMemory @ '',t='' @ show_nat passwordTime @ '',p='' @ show_nat p @
    ''$'' @ base64_encode salt @ ''$'' @ base64_encode key"

definition HashPassword :: "crypto \<Rightarrow> int \<Rightarrow> rand \<Rightarrow> string \<Rightarrow> auth_db \<Rightarrow> (string \<times> auth_db) result" where
  "HashPassword c procs rnd password d =
    (case ValidatePassword password of
       Some e \<Rightarrow> Inl e
     | None \<Rightarrow>
         let (salt, d) = rand_read rnd 16 d;
             p = parallelism procs;
             key = argon2id c password salt passwordTime passwordMemory p passwordKeySize
         in Inr (encode_hash p salt key, d))"

text \<open>\<open>strconv.ParseUint\<close> with base ten and 32 bits.\<close>

definition parse_uint32 :: "string \<Rightarrow> nat option" where
  "parse_uint32 s = (case parse_digits s of Some n \<Rightarrow> if n < 2 ^ 32 then Some n else None | None \<Rightarrow> None)"

fun hash_params :: "string list \<Rightarrow> (string \<rightharpoonup> nat) \<Rightarrow> (string \<rightharpoonup> nat) option" where
  "hash_params [] params = Some params"
| "hash_params (item # items) params =
    (case split_two CHR ''='' item of
       [k, v] \<Rightarrow> (case parse_uint32 v of None \<Rightarrow> None | Some value \<Rightarrow> hash_params items (params(k \<mapsto> value)))
     | _ \<Rightarrow> None)"

definition param :: "(string \<rightharpoonup> nat) \<Rightarrow> string \<Rightarrow> nat" where
  "param params k = (case params k of None \<Rightarrow> 0 | Some v \<Rightarrow> v)"

definition VerifyPassword :: "crypto \<Rightarrow> string \<Rightarrow> string \<Rightarrow> bool" where
  "VerifyPassword c encoded password =
    (let parts = split_on CHR ''$'' encoded
     in if length parts \<noteq> 6 \<or> parts ! 1 \<noteq> ''argon2id'' \<or> parts ! 2 \<noteq> ''v=19'' then False
        else case hash_params (split_on CHR '','' (parts ! 3)) (\<lambda>_. None) of
               None \<Rightarrow> False
             | Some params \<Rightarrow>
                 let m = param params ''m''; t = param params ''t''; p = param params ''p''
                 in if m = 0 \<or> m > 256 * 1024 \<or> t = 0 \<or> t > 10 \<or> p = 0 \<or> p > 16 then False
                    else case base64_decode (parts ! 4) of
                           None \<Rightarrow> False
                         | Some salt \<Rightarrow>
                             (case base64_decode (parts ! 5) of
                                None \<Rightarrow> False
                              | Some expected \<Rightarrow>
                                  if length expected = 0 \<or> length expected > 64 \<or> length salt < 8 \<or> length salt > 64 then False
                                  else argon2id c password salt t m p (length expected) = expected))"

subsection \<open>Accounts\<close>

definition ErrAdminExists :: go_error where
  "ErrAdminExists = ErrMsg ''local admin already exists''"

definition ErrInvalidCredentials :: go_error where
  "ErrInvalidCredentials = ErrMsg ''invalid credentials''"

record User =
  user_ID :: string
  user_Username :: string
  user_CreatedAt :: time

definition randomID :: "rand \<Rightarrow> auth_db \<Rightarrow> string \<times> auth_db" where
  "randomID rnd d = (case rand_read rnd 16 d of (b, d) \<Rightarrow> (''usr_'' @ hex_encode b, d))"

definition insert_user :: "string \<Rightarrow> string \<Rightarrow> string \<Rightarrow> time \<Rightarrow> auth_db \<Rightarrow> auth_db result" where
  "insert_user uid username hash now d =
    (if list_ex (\<lambda>u. us_id u = uid \<or> us_username u = username) (users d) then Inl (ErrConstraint ''UNIQUE users'')
     else Inr (d\<lparr>users := users d @ [\<lparr>us_id = uid, us_username = username, us_password_hash = hash,
       us_created_at = unix_milli now, us_updated_at = unix_milli now, us_totp_enabled = False,
       us_totp_secret_key = None, us_mfa_changed_at = None\<rparr>]\<rparr>))"

definition CreateAdmin ::
  "crypto \<Rightarrow> int \<Rightarrow> rand \<Rightarrow> time \<Rightarrow> string \<Rightarrow> string \<Rightarrow> auth_db \<Rightarrow> (User \<times> auth_db) result" where
  "CreateAdmin c procs rnd now username password d =
    bind_result (ValidateUsername username) (\<lambda>username.
    bind_result (HashPassword c procs rnd password d) (\<lambda>(hash, d).
      if length (users d) \<noteq> 0 then Inl ErrAdminExists
      else let (uid, d) = randomID rnd d
           in case insert_user uid username hash now d of
                Inl _ \<Rightarrow> Inl ErrAdminExists
              | Inr d \<Rightarrow> Inr (\<lparr>user_ID = uid, user_Username = username, user_CreatedAt = now\<rparr>, d)))"

definition Authenticate_user :: "crypto \<Rightarrow> string \<Rightarrow> string \<Rightarrow> auth_db \<Rightarrow> User result" where
  "Authenticate_user c username password d =
    (case ValidateUsername username of
       Inl _ \<Rightarrow> Inl ErrInvalidCredentials
     | Inr username \<Rightarrow>
         (case find (\<lambda>u. us_username u = username) (users d) of
            None \<Rightarrow> Inl ErrInvalidCredentials
          | Some u \<Rightarrow>
              if \<not> VerifyPassword c (us_password_hash u) password then Inl ErrInvalidCredentials
              else Inr \<lparr>user_ID = us_id u, user_Username = us_username u, user_CreatedAt = from_milli (us_created_at u)\<rparr>))"

definition row_user :: "user_row \<Rightarrow> User" where
  "row_user u = \<lparr>user_ID = us_id u, user_Username = us_username u, user_CreatedAt = from_milli (us_created_at u)\<rparr>"

definition UserByID :: "string \<Rightarrow> auth_db \<Rightarrow> User result" where
  "UserByID uid d =
    (if uid = [] then Inl ErrInvalidCredentials
     else case find (\<lambda>u. us_id u = uid) (users d) of None \<Rightarrow> Inl ErrInvalidCredentials | Some u \<Rightarrow> Inr (row_user u))"

definition Administrator :: "auth_db \<Rightarrow> User result" where
  "Administrator d = (case first_by us_created_at (users d) of None \<Rightarrow> Inl ErrInvalidCredentials | Some u \<Rightarrow> Inr (row_user u))"

subsection \<open>Encrypted secrets\<close>

definition ErrMasterKeyMissing :: go_error where
  "ErrMasterKeyMissing = ErrMsg ''master encryption key is not configured''"

definition ErrSecretNotFound :: go_error where
  "ErrSecretNotFound = ErrMsg ''encrypted secret was not found''"

definition SecretAlgorithm :: string where
  "SecretAlgorithm = ''AES-256-GCM''"

definition SecretKeyVersion :: int where
  "SecretKeyVersion = 1"

text \<open>A store is its key: \<open>None\<close> without a cipher.\<close>

type_synonym SecretStore = "string option"

definition Available_secrets :: "SecretStore \<Rightarrow> bool" where
  "Available_secrets s = (s \<noteq> None)"

fun first_32 :: "string option list \<Rightarrow> string option" where
  "first_32 [] = None"
| "first_32 (d # ds) = (case d of Some k \<Rightarrow> if length k = 32 then Some k else first_32 ds | None \<Rightarrow> first_32 ds)"

definition decodeMasterKey :: "string \<Rightarrow> string result" where
  "decodeMasterKey value =
    (if length value = 32 then Inr value
     else case first_32 ((if length value = 64 then [hex_decode value] else []) @
                         [raw64_decode base64url_alphabet value, padded64_decode value, base64_decode value]) of
            Some key \<Rightarrow> Inr key
          | None \<Rightarrow> Inl (ErrMsg ''master encryption key must encode exactly 32 bytes''))"

definition NewSecretStore :: "string \<Rightarrow> SecretStore result" where
  "NewSecretStore encodedKey =
    (if encodedKey = [] then Inr None
     else bind_result (decodeMasterKey encodedKey) (\<lambda>key. Inr (Some key)))"

definition Put_secret ::
  "crypto \<Rightarrow> SecretStore \<Rightarrow> rand \<Rightarrow> time \<Rightarrow> string \<Rightarrow> string \<Rightarrow> auth_db \<Rightarrow> auth_db result" where
  "Put_secret c s rnd now key plaintext d =
    (case s of
       None \<Rightarrow> Inl ErrMasterKeyMissing
     | Some mk \<Rightarrow>
         if key = [] \<or> plaintext = [] then Inl (ErrMsg ''secret key and value are required'')
         else let (nonce, d) = rand_read rnd 12 d;
                  row = \<lparr>sk_key = key, sk_ciphertext = gcm_seal c mk nonce plaintext key, sk_nonce = nonce,
                         sk_algorithm = SecretAlgorithm, sk_key_version = SecretKeyVersion, sk_updated_at = unix_milli now\<rparr>
              in Inr (d\<lparr>encrypted_secrets := upsert (\<lambda>r. sk_key r = key) (\<lambda>_. row) row (encrypted_secrets d)\<rparr>))"

definition Get_secret :: "crypto \<Rightarrow> SecretStore \<Rightarrow> string \<Rightarrow> auth_db \<Rightarrow> string result" where
  "Get_secret c s key d =
    (case s of
       None \<Rightarrow> Inl ErrMasterKeyMissing
     | Some mk \<Rightarrow>
         (case find (\<lambda>r. sk_key r = key) (encrypted_secrets d) of
            None \<Rightarrow> Inl ErrSecretNotFound
          | Some r \<Rightarrow>
              if sk_algorithm r \<noteq> SecretAlgorithm \<or> sk_key_version r \<noteq> SecretKeyVersion
              then Inl (ErrMsg ''encrypted secret uses an unsupported algorithm or key version'')
              else case gcm_open c mk (sk_nonce r) (sk_ciphertext r) key of
                     None \<Rightarrow> Inl (ErrMsg ''encrypted secret could not be decrypted'')
                   | Some plaintext \<Rightarrow> Inr plaintext))"

definition Delete_secret :: "string \<Rightarrow> auth_db \<Rightarrow> auth_db" where
  "Delete_secret key d = d\<lparr>encrypted_secrets := del_where (\<lambda>r. sk_key r = key) (encrypted_secrets d)\<rparr>"

record SecretStatus =
  ss_Configured :: bool
  ss_Algorithm :: string
  ss_KeyVersion :: int

definition Status_secret :: "string \<Rightarrow> auth_db \<Rightarrow> SecretStatus" where
  "Status_secret key d =
    (case find (\<lambda>r. sk_key r = key) (encrypted_secrets d) of
       None \<Rightarrow> \<lparr>ss_Configured = False, ss_Algorithm = [], ss_KeyVersion = 0\<rparr>
     | Some r \<Rightarrow> \<lparr>ss_Configured = True, ss_Algorithm = sk_algorithm r, ss_KeyVersion = sk_key_version r\<rparr>)"

subsection \<open>First-run setup\<close>

definition ErrSetupUnavailable :: go_error where
  "ErrSetupUnavailable = ErrMsg ''setup is unavailable''"

definition ErrSetupToken :: go_error where
  "ErrSetupToken = ErrMsg ''setup token is invalid''"

definition tokenTTL :: duration where
  "tokenTTL = hours 24"

definition setupHash :: "crypto \<Rightarrow> string \<Rightarrow> string" where
  "setupHash c token = base64_encode (sha256 c token)"

definition publicListener :: "net_lib \<Rightarrow> string \<Rightarrow> bool" where
  "publicListener net address =
    (case split_host_port net address of
       None \<Rightarrow> True
     | Some (host, _) \<Rightarrow>
         let bracket = (\<lambda>ch. ch = CHR ''['' \<or> ch = CHR '']'');
             host = rev (dropWhile bracket (rev (dropWhile bracket host)))
         in if host = ''localhost'' then False
            else case parse_addr net host of None \<Rightarrow> True | Some ip \<Rightarrow> \<not> IsLoopback (Unmap ip))"

definition Disable_setup :: "time \<Rightarrow> auth_db \<Rightarrow> auth_db" where
  "Disable_setup now d =
    d\<lparr>setup_state := Some
       (case setup_state d of
          None \<Rightarrow> \<lparr>su_token_hash = None, su_expires_at = None, su_claimed_at = Some (unix_milli now), su_created_at = unix_milli now\<rparr>
        | Some r \<Rightarrow> r\<lparr>su_token_hash := None,
                      su_claimed_at := (case su_claimed_at r of None \<Rightarrow> Some (unix_milli now) | Some t \<Rightarrow> Some t)\<rparr>)\<rparr>"

definition Initialize ::
  "crypto \<Rightarrow> net_lib \<Rightarrow> rand \<Rightarrow> time \<Rightarrow> string \<Rightarrow> string \<Rightarrow> auth_db \<Rightarrow> (string \<times> auth_db) result" where
  "Initialize c net rnd now listenAddress configuredToken d =
    (if length (users d) > 0 then Inr ([], d)
     else case setup_state d of
            Some _ \<Rightarrow> Inr ([], d)
          | None \<Rightarrow>
              let public = publicListener net listenAddress;
                  configured = trim_space configuredToken
              in if configured = [] \<and> public then Inl (ErrMsg ''public setup requires BINNACLE_SETUP_TOKEN'')
                 else
                   let (token, generated, d) =
                         (if configured = []
                          then (let (b, d) = rand_read rnd 32 d; t = base64url_encode b in (t, t, d))
                          else (configured, [], d))
                   in if length token < 32 then Inl (ErrMsg ''setup token must be at least 32 characters'')
                      else Inr (generated,
                                d\<lparr>setup_state := Some \<lparr>su_token_hash = Some (setupHash c token),
                                    su_expires_at = Some (unix_milli (now + tokenTTL)),
                                    su_claimed_at = None, su_created_at = unix_milli now\<rparr>\<rparr>))"

text \<open>The guard that \<open>Verify\<close> and \<open>Claim\<close> share, on \<^verbatim>\<open>COALESCE(token_hash,'')\<close> and \<^verbatim>\<open>COALESCE(expires_at,0)\<close>.\<close>

definition coalesce :: "'a \<Rightarrow> 'a option \<Rightarrow> 'a" where
  "coalesce x v = (case v of None \<Rightarrow> x | Some y \<Rightarrow> y)"

definition setup_token_ok :: "crypto \<Rightarrow> time \<Rightarrow> string \<Rightarrow> setup_row \<Rightarrow> bool" where
  "setup_token_ok c now token r =
    (let expected = coalesce [] (su_token_hash r)
     in \<not> (expected = [] \<or> su_claimed_at r \<noteq> None \<or> unix_milli now \<ge> coalesce 0 (su_expires_at r) \<or>
           expected \<noteq> setupHash c token))"

definition Available_setup :: "time \<Rightarrow> auth_db \<Rightarrow> bool" where
  "Available_setup now d =
    (case setup_state d of
       None \<Rightarrow> False
     | Some r \<Rightarrow> coalesce [] (su_token_hash r) \<noteq> [] \<and> su_claimed_at r = None \<and> unix_milli now < coalesce 0 (su_expires_at r))"

definition Verify_setup :: "crypto \<Rightarrow> time \<Rightarrow> string \<Rightarrow> auth_db \<Rightarrow> go_error option" where
  "Verify_setup c now token d =
    (case setup_state d of
       None \<Rightarrow> Some ErrSetupUnavailable
     | Some r \<Rightarrow> if setup_token_ok c now token r then None else Some ErrSetupToken)"

definition Claim ::
  "crypto \<Rightarrow> int \<Rightarrow> rand \<Rightarrow> time \<Rightarrow> string \<Rightarrow> string \<Rightarrow> string \<Rightarrow> auth_db \<Rightarrow> (User \<times> auth_db) result" where
  "Claim c procs rnd now token username password d =
    bind_result (ValidateUsername username) (\<lambda>username.
      case ValidatePassword password of
        Some e \<Rightarrow> Inl e
      | None \<Rightarrow>
          bind_result (HashPassword c procs rnd password d) (\<lambda>(hash, d).
            case setup_state d of
              None \<Rightarrow> Inl ErrSetupUnavailable
            | Some r \<Rightarrow>
                if \<not> setup_token_ok c now token r then Inl ErrSetupToken
                else if length (users d) \<noteq> 0 then Inl ErrAdminExists
                else let (uid, d) = randomID rnd d
                     in bind_result (insert_user uid username hash now d) (\<lambda>d.
                          if su_claimed_at r \<noteq> None then Inl ErrSetupUnavailable
                          else Inr (\<lparr>user_ID = uid, user_Username = username, user_CreatedAt = now\<rparr>,
                                    d\<lparr>setup_state := Some (r\<lparr>su_claimed_at := Some (unix_milli now), su_token_hash := None\<rparr>)\<rparr>))))"

subsection \<open>Bootstrap from the environment\<close>

definition trim_newlines :: "string \<Rightarrow> string" where
  "trim_newlines s = rev (dropWhile (\<lambda>ch. ch = CHR 0x0D \<or> ch = CHR 0x0A) (rev s))"

definition EnvironmentSecret :: "(string \<Rightarrow> string) \<Rightarrow> (string \<Rightarrow> string option) \<Rightarrow> string \<Rightarrow> string result" where
  "EnvironmentSecret getenv readFile name =
    (let value = getenv name; path = getenv (name @ ''_FILE'')
     in if value \<noteq> [] \<and> path \<noteq> [] then Inl (ErrMsg (''configure only one of '' @ name @ '' or '' @ name @ ''_FILE''))
        else if path = [] then Inr value
        else case readFile path of
               None \<Rightarrow> Inl (ErrMsg (''read '' @ name @ ''_FILE''))
             | Some contents \<Rightarrow> Inr (trim_newlines contents))"

definition SetupTokenFromEnvironment :: "(string \<Rightarrow> string) \<Rightarrow> (string \<Rightarrow> string option) \<Rightarrow> string result" where
  "SetupTokenFromEnvironment getenv readFile = EnvironmentSecret getenv readFile ''BINNACLE_SETUP_TOKEN''"

definition BootstrapAdmin ::
  "crypto \<Rightarrow> int \<Rightarrow> rand \<Rightarrow> time \<Rightarrow> (string \<Rightarrow> string) \<Rightarrow> (string \<Rightarrow> string option) \<Rightarrow> auth_db \<Rightarrow> (bool \<times> auth_db) result" where
  "BootstrapAdmin c procs rnd now getenv readFile d =
    (if length (users d) > 0 then Inr (False, d)
     else
       bind_result (EnvironmentSecret getenv readFile ''BINNACLE_ADMIN_USERNAME'') (\<lambda>username.
       bind_result (EnvironmentSecret getenv readFile ''BINNACLE_ADMIN_PASSWORD'') (\<lambda>password.
         if username = [] \<and> password = [] then Inr (False, d)
         else if username = [] \<or> password = []
         then Inl (ErrMsg ''BINNACLE_ADMIN_USERNAME and BINNACLE_ADMIN_PASSWORD must be configured together'')
         else bind_result (CreateAdmin c procs rnd now username password d) (\<lambda>(_, d).
                Inr (True, Disable_setup now d)))))"

subsection \<open>Authentication by a proxy\<close>

definition LocalAuth :: string where
  "LocalAuth = ''local''"

definition ProxyAuthOnly :: string where
  "ProxyAuthOnly = ''proxy''"

definition LocalAndProxyAuth :: string where
  "LocalAndProxyAuth = ''local_and_proxy''"

record ProxyAuthConfig =
  pc_Mode :: string
  pc_IdentityHeader :: string
  pc_AllowedSubject :: string
  pc_ProxyCIDRs :: "string list"

record ProxyAuthenticator =
  pa_config :: ProxyAuthConfig
  pa_identityPeers :: TrustedProxies
  pa_cookieProxies :: TrustedProxies

definition NewProxyAuthenticator :: "net_lib \<Rightarrow> ProxyAuthConfig \<Rightarrow> TrustedProxies \<Rightarrow> ProxyAuthenticator result" where
  "NewProxyAuthenticator net config cookieProxies =
    (let config = (if pc_Mode config = [] then config\<lparr>pc_Mode := LocalAuth\<rparr> else config)
     in if pc_Mode config \<noteq> LocalAuth \<and> pc_Mode config \<noteq> ProxyAuthOnly \<and> pc_Mode config \<noteq> LocalAndProxyAuth
        then Inl (ErrMsg ''auth mode must be local, proxy, or local_and_proxy'')
        else bind_result (ParseTrustedProxies net (pc_ProxyCIDRs config)) (\<lambda>peers.
          if pc_Mode config \<noteq> LocalAuth then
            let config = config\<lparr>pc_IdentityHeader := canonical_header net (trim_space (pc_IdentityHeader config))\<rparr>
            in if pc_IdentityHeader config = [] \<or>
                  list_ex (\<lambda>ch. ch \<in> {CHR '' '', CHR 0x09, CHR 0x0D, CHR 0x0A, CHR '':''}) (pc_IdentityHeader config)
               then Inl (ErrMsg ''proxy identity header is invalid'')
               else if pc_AllowedSubject config = [] \<or> length (pc_AllowedSubject config) > 512 \<or> pc_ProxyCIDRs config = []
               then Inl (ErrMsg ''proxy authentication requires CIDRs, a header, and an allowed subject'')
               else Inr \<lparr>pa_config = config, pa_identityPeers = peers, pa_cookieProxies = cookieProxies\<rparr>
          else Inr \<lparr>pa_config = config, pa_identityPeers = peers, pa_cookieProxies = cookieProxies\<rparr>))"

definition AllowsLocal :: "ProxyAuthenticator option \<Rightarrow> bool" where
  "AllowsLocal p = (case p of None \<Rightarrow> True | Some p \<Rightarrow> pc_Mode (pa_config p) = LocalAuth \<or> pc_Mode (pa_config p) = LocalAndProxyAuth)"

definition AllowsProxy :: "ProxyAuthenticator option \<Rightarrow> bool" where
  "AllowsProxy p = (case p of None \<Rightarrow> False | Some p \<Rightarrow> pc_Mode (pa_config p) = ProxyAuthOnly \<or> pc_Mode (pa_config p) = LocalAndProxyAuth)"

definition Subject :: "net_lib \<Rightarrow> ProxyAuthenticator option \<Rightarrow> server_request \<Rightarrow> string option" where
  "Subject net p r =
    (case p of
       None \<Rightarrow> None
     | Some q \<Rightarrow>
         if \<not> AllowsProxy p \<or> \<not> trusted net (pa_identityPeers q) r then None
         else case req_Header r (pc_IdentityHeader (pa_config q)) of
                [subject] \<Rightarrow>
                  if CHR '','' \<in> set subject then None
                  else if subject \<noteq> pc_AllowedSubject (pa_config q) then None
                  else Some subject
              | _ \<Rightarrow> None)"

subsection \<open>Properties of passwords and secrets\<close>

lemma base64_free: "CHR ''$'' \<notin> set (base64_encode s)" "CHR '','' \<notin> set (base64_encode s)"
proof -
  have "CHR ''$'' \<notin> set base64_alphabet" "CHR '','' \<notin> set base64_alphabet" by code_simp+
  then show "CHR ''$'' \<notin> set (base64_encode s)" "CHR '','' \<notin> set (base64_encode s)"
    using base64_encode_set by blast+
qed

lemma parallelism_cases: "parallelism n = 1 \<or> parallelism n = 2 \<or> parallelism n = 3 \<or> parallelism n = 4"
proof -
  have "1 \<le> parallelism n \<and> parallelism n \<le> 4" by (auto simp: parallelism_def Let_def)
  then show ?thesis by linarith
qed

definition hash_head :: "nat \<Rightarrow> string" where
  "hash_head p = ''m='' @ show_nat passwordMemory @ '',t='' @ show_nat passwordTime @ '',p='' @ show_nat p"

lemma hash_head_parsed:
  assumes "p = parallelism n"
  shows "CHR ''$'' \<notin> set (hash_head p)"
    "\<exists>params. hash_params (split_on CHR '','' (hash_head p)) (\<lambda>_. None) = Some params \<and>
       param params ''m'' = 65536 \<and> param params ''t'' = 3 \<and> param params ''p'' = p"
proof -
  have d: "show_nat (Suc 0) = ''1''" "show_nat 2 = ''2''" "show_nat 3 = ''3''" "show_nat 4 = ''4''" by code_simp+
  have "digit 3 = CHR ''3''" "digit 5 = CHR ''5''" "digit 6 = CHR ''6''" by code_simp+
  then have m: "show_nat passwordMemory = ''65536''"
    by (simp add: passwordMemory_def show_nat.simps [of 65536] show_nat.simps [of 6553] show_nat.simps [of 655]
        show_nat.simps [of 65] show_nat.simps [of 6])
  have t: "show_nat passwordTime = ''3''" unfolding passwordTime_def by (rule d)
  have u: "parse_uint32 ''65536'' = Some 65536" "parse_uint32 ''3'' = Some 3"
    "parse_uint32 ''1'' = Some 1" "parse_uint32 ''2'' = Some 2" "parse_uint32 ''4'' = Some 4"
    by (simp_all add: parse_uint32_def parse_digits_def is_digit_def nat_of_digits_def digit_val_def)
  note p = parallelism_cases [of n, folded assms]
  show "CHR ''$'' \<notin> set (hash_head p)" using p by (auto simp: hash_head_def m t d)
  show "\<exists>params. hash_params (split_on CHR '','' (hash_head p)) (\<lambda>_. None) = Some params \<and>
      param params ''m'' = 65536 \<and> param params ''t'' = 3 \<and> param params ''p'' = p"
    using p by (auto simp: hash_head_def m t d u split_two_def param_def)
qed

lemma encode_hash_parts:
  assumes "p = parallelism n"
  shows "split_on CHR ''$'' (encode_hash p salt key) =
    [[], ''argon2id'', ''v=19'', hash_head p, base64_encode salt, base64_encode key]"
proof -
  have "encode_hash p salt key =
      [] @ CHR ''$'' # ''argon2id'' @ CHR ''$'' # ''v=19'' @ CHR ''$'' # hash_head p @ CHR ''$'' # base64_encode salt @ CHR ''$'' # base64_encode key"
    by (simp add: encode_hash_def hash_head_def)
  then show ?thesis
    using hash_head_parsed(1) [OF assms] base64_free(1)
    by (simp only: split_on_append split_on_free) (simp add: split_on_append split_on_free)
qed

text \<open>
  C22. A password hash made by \<open>HashPassword\<close> is understood by \<open>VerifyPassword\<close>: the password it
  was made from is accepted, and any other one exactly when Argon2id gives it the same key.
\<close>

theorem password_roundtrip:
  assumes "\<And>pw salt t m p n. length (argon2id c pw salt t m p n) = n" "\<And>i n. length (rnd i n) = n"
    and "HashPassword c procs rnd password d = Inr (hash, d')"
  shows "VerifyPassword c hash password \<and>
    VerifyPassword c hash other =
      (argon2id c other (rnd (reads d) 16) 3 65536 (parallelism procs) 32 =
       argon2id c password (rnd (reads d) 16) 3 65536 (parallelism procs) 32)"
proof -
  define salt where "salt = rnd (reads d) 16"
  define p where "p = parallelism procs"
  define key where "key = argon2id c password salt 3 65536 p 32"
  have hash: "hash = encode_hash p salt key"
    using assms(3) by (auto simp: HashPassword_def rand_read_def salt_def p_def key_def
        passwordTime_def passwordMemory_def passwordKeySize_def Let_def split: option.splits)
  obtain params where params: "hash_params (split_on CHR '','' (hash_head p)) (\<lambda>_. None) = Some params"
    "param params ''m'' = 65536" "param params ''t'' = 3" "param params ''p'' = p"
    using hash_head_parsed(2) [OF p_def] by blast
  have len: "length key = 32" "length salt = 16" using assms(1,2) by (simp_all add: key_def salt_def)
  have "0 < p" "p \<le> 16" using parallelism_cases [of procs] by (auto simp: p_def)
  then have "VerifyPassword c hash pw = (argon2id c pw salt 3 65536 p 32 = key)" for pw
    unfolding VerifyPassword_def hash encode_hash_parts [OF p_def] Let_def
    using params len by (simp add: base64_roundtrip)
  then show ?thesis by (simp add: key_def p_def salt_def)
qed

lemma Put_secret_find:
  assumes "Put_secret c (Some mk) rnd now key plaintext d = Inr d'"
  shows "find (\<lambda>r. sk_key r = k) (encrypted_secrets d') =
    (if k = key then
       Some \<lparr>sk_key = key, sk_ciphertext = gcm_seal c mk (rnd (reads d) 12) plaintext key, sk_nonce = rnd (reads d) 12,
         sk_algorithm = SecretAlgorithm, sk_key_version = SecretKeyVersion, sk_updated_at = unix_milli now\<rparr>
     else find (\<lambda>r. sk_key r = k) (encrypted_secrets d))"
proof -
  define row where "row = \<lparr>sk_key = key, sk_ciphertext = gcm_seal c mk (rnd (reads d) 12) plaintext key, sk_nonce = rnd (reads d) 12,
         sk_algorithm = SecretAlgorithm, sk_key_version = SecretKeyVersion, sk_updated_at = unix_milli now\<rparr>"
  have k: "sk_key row = key" by (simp add: row_def)
  have "encrypted_secrets d' = upsert (\<lambda>r. sk_key r = key) (\<lambda>_. row) row (encrypted_secrets d)"
    using assms by (auto simp: Put_secret_def rand_read_def Let_def row_def split: if_splits)
  then show ?thesis unfolding row_def [symmetric] by (simp add: find_upsert k split: option.splits)
qed

text \<open>
  A stored secret is read back as it was and the other secrets are unchanged; moved to
  another name it does not open, because the name is authenticated with it.
\<close>

theorem secret_roundtrip:
  assumes open_seal: "\<And>nonce text name. gcm_open c mk nonce (gcm_seal c mk nonce text name) name = Some text"
    and bound: "\<And>nonce text name name'. name \<noteq> name' \<Longrightarrow> gcm_open c mk nonce (gcm_seal c mk nonce text name) name' = None"
    and put: "Put_secret c (Some mk) rnd now key plaintext d = Inr d'"
  shows "Get_secret c (Some mk) key d' = Inr plaintext
    \<and> (k \<noteq> key \<longrightarrow> Get_secret c (Some mk) k d' = Get_secret c (Some mk) k d)
    \<and> (k \<noteq> key \<longrightarrow> (case find (\<lambda>r. sk_key r = key) (encrypted_secrets d') of None \<Rightarrow> False
         | Some r \<Rightarrow> Get_secret c (Some mk) k (d'\<lparr>encrypted_secrets := [r\<lparr>sk_key := k\<rparr>]\<rparr>) =
                     Inl (ErrMsg ''encrypted secret could not be decrypted'')))"
proof -
  note f = Put_secret_find [OF put]
  have 1: "Get_secret c (Some mk) key d' = Inr plaintext" by (simp add: Get_secret_def f open_seal)
  have 2: "Get_secret c (Some mk) k d' = Get_secret c (Some mk) k d" if "k \<noteq> key"
    by (simp add: Get_secret_def f that)
  have 3: "gcm_open c mk nonce (gcm_seal c mk nonce plaintext key) k = None" if "k \<noteq> key" for nonce
    by (rule bound) (use that in simp)
  have "k \<noteq> key \<longrightarrow> (case find (\<lambda>r. sk_key r = key) (encrypted_secrets d') of None \<Rightarrow> False
         | Some r \<Rightarrow> Get_secret c (Some mk) k (d'\<lparr>encrypted_secrets := [r\<lparr>sk_key := k\<rparr>]\<rparr>) =
                     Inl (ErrMsg ''encrypted secret could not be decrypted''))"
    using 3 by (simp add: f) (simp add: Get_secret_def)
  then show ?thesis using 1 2 by blast
qed

end
