(* ===== verification/Auth_Sessions.thy ===== *)
theory Auth_Sessions
  imports Auth_Users "HOL-Library.List_Lexorder"
begin

section \<open>Browser sessions and API tokens\<close>

text \<open>
  \<^verbatim>\<open>sessions.go\<close> and \<^verbatim>\<open>api_tokens.go\<close> of \<^verbatim>\<open>internal/auth\<close>. A session and an API token are
  stored by the hash of the token; the hash function is the one of the record \<open>crypto\<close>.
\<close>

subsection \<open>Sessions\<close>

definition SessionCookieName :: string where
  "SessionCookieName = ''binnacle_session''"

definition ErrSessionInvalid :: go_error where
  "ErrSessionInvalid = ErrMsg ''session is invalid''"

record SessionConfig =
  IdleTimeout :: duration
  AbsoluteLifetime :: duration

definition valid_config :: "SessionConfig \<Rightarrow> bool" where
  "valid_config c = (IdleTimeout c > 0 \<and> AbsoluteLifetime c \<ge> IdleTimeout c)"

definition SetConfig :: "SessionConfig \<Rightarrow> SessionConfig \<Rightarrow> SessionConfig" where
  "SetConfig cfg old = (if valid_config cfg then cfg else old)"

record Session =
  ses_UserID :: string
  ses_CreatedAt :: time
  ses_LastSeenAt :: time
  ses_ExpiresAt :: time
  ses_AbsoluteExpires :: time
  ses_AuthMethod :: string
  ses_AuthSubject :: string

definition randomToken :: "rand \<Rightarrow> auth_db \<Rightarrow> string \<times> auth_db" where
  "randomToken rnd d = (case rand_read rnd 32 d of (b, d) \<Rightarrow> (base64url_encode b, d))"

definition NewCSRFToken :: "rand \<Rightarrow> auth_db \<Rightarrow> string \<times> auth_db" where
  "NewCSRFToken rnd d = (case rand_read rnd 32 d of (b, d) \<Rightarrow> (base64url_encode b, d))"

definition tokenHash :: "crypto \<Rightarrow> string \<Rightarrow> string" where
  "tokenHash c token = base64_encode (sha256 c token)"

definition minTime :: "time \<Rightarrow> time \<Rightarrow> time" where
  "minTime a b = (if a < b then a else b)"

definition fingerprint :: "crypto \<Rightarrow> string \<Rightarrow> string" where
  "fingerprint c value = (if value = [] then [] else base64_encode (sha256 c value))"

definition nullFingerprint :: "string \<Rightarrow> string option" where
  "nullFingerprint value = (if value = [] then None else Some value)"

definition session_columns :: "crypto \<Rightarrow> string \<Rightarrow> string \<Rightarrow> string \<Rightarrow> string \<Rightarrow> Session \<Rightarrow> session_row" where
  "session_columns c token csrf userAgentHash ipPrefixHash s =
    \<lparr>se_id_hash = tokenHash c token, se_user_id = ses_UserID s, se_created_at = unix_milli (ses_CreatedAt s),
     se_last_seen_at = unix_milli (ses_LastSeenAt s), se_expires_at = unix_milli (ses_ExpiresAt s),
     se_absolute_expires_at = unix_milli (ses_AbsoluteExpires s), se_revoked_at = None,
     se_csrf_hash = Some (CSRFHash c csrf), se_user_agent_hash = nullFingerprint userAgentHash,
     se_ip_prefix_hash = nullFingerprint ipPrefixHash, se_auth_method = ses_AuthMethod s,
     se_auth_subject = nullFingerprint (ses_AuthSubject s)\<rparr>"

definition issue ::
  "crypto \<Rightarrow> rand \<Rightarrow> time \<Rightarrow> SessionConfig \<Rightarrow> string \<Rightarrow> string \<Rightarrow> string \<Rightarrow> string \<Rightarrow> string \<Rightarrow> auth_db \<Rightarrow>
   ((string \<times> string \<times> Session) \<times> auth_db) result" where
  "issue c rnd now cfg userID userAgentHash ipPrefixHash authMethod authSubject d =
    (if userID = [] then Inl ErrSessionInvalid
     else if \<not> valid_config cfg then Inl ErrSessionInvalid
     else
       let (token, d) = randomToken rnd d;
           (csrf, d) = NewCSRFToken rnd d;
           absolute = now + AbsoluteLifetime cfg
       in if authMethod \<noteq> ''local'' \<and> authMethod \<noteq> ''proxy'' then Inl ErrSessionInvalid
          else
            let session = \<lparr>ses_UserID = userID, ses_CreatedAt = now, ses_LastSeenAt = now,
                  ses_ExpiresAt = minTime (now + IdleTimeout cfg) absolute, ses_AbsoluteExpires = absolute,
                  ses_AuthMethod = authMethod, ses_AuthSubject = authSubject\<rparr>;
                row = session_columns c token csrf userAgentHash ipPrefixHash session
            in if list_ex (\<lambda>r. se_id_hash r = se_id_hash row) (sessions d) then Inl (ErrConstraint ''sessions.id_hash'')
               else Inr ((token, csrf, session), d\<lparr>sessions := sessions d @ [row]\<rparr>))"

definition Issue :: "crypto \<Rightarrow> rand \<Rightarrow> time \<Rightarrow> SessionConfig \<Rightarrow> string \<Rightarrow> auth_db \<Rightarrow> ((string \<times> string \<times> Session) \<times> auth_db) result" where
  "Issue c rnd now cfg userID d = issue c rnd now cfg userID [] [] ''local'' [] d"

definition IssueForRequest ::
  "crypto \<Rightarrow> net_lib \<Rightarrow> rand \<Rightarrow> time \<Rightarrow> SessionConfig \<Rightarrow> string \<Rightarrow> server_request \<Rightarrow> TrustedProxies \<Rightarrow> auth_db \<Rightarrow>
   ((string \<times> string \<times> Session) \<times> auth_db) result" where
  "IssueForRequest c net rnd now cfg userID r proxies d =
    issue c rnd now cfg userID (fingerprint c (header_get r ''User-Agent'')) (fingerprint c (ClientPrefix net proxies r)) ''local'' [] d"

definition IssueForProxyRequest ::
  "crypto \<Rightarrow> net_lib \<Rightarrow> rand \<Rightarrow> time \<Rightarrow> SessionConfig \<Rightarrow> string \<Rightarrow> string \<Rightarrow> server_request \<Rightarrow> TrustedProxies \<Rightarrow> auth_db \<Rightarrow>
   ((string \<times> string \<times> Session) \<times> auth_db) result" where
  "IssueForProxyRequest c net rnd now cfg userID subject r proxies d =
    issue c rnd now cfg userID (fingerprint c (header_get r ''User-Agent'')) (fingerprint c (ClientPrefix net proxies r)) ''proxy'' subject d"

text \<open>The bearer header and the session cookie exclude each other.\<close>

definition TokenFromRequest :: "server_request \<Rightarrow> string" where
  "TokenFromRequest r =
    (if header_get r ''Authorization'' \<noteq> [] then []
     else case req_cookie r SessionCookieName of None \<Rightarrow> [] | Some v \<Rightarrow> v)"

definition revoke_where :: "(session_row \<Rightarrow> bool) \<Rightarrow> time \<Rightarrow> auth_db \<Rightarrow> auth_db" where
  "revoke_where p now d =
    d\<lparr>sessions := upd_where p
       (\<lambda>r. r\<lparr>se_revoked_at := (case se_revoked_at r of None \<Rightarrow> Some (unix_milli now) | Some t \<Rightarrow> Some t)\<rparr>) (sessions d)\<rparr>"

definition touch :: "string \<Rightarrow> time \<Rightarrow> time \<Rightarrow> session_row \<Rightarrow> session_row" where
  "touch hash now expires r =
    (if se_id_hash r = hash \<and> se_revoked_at r = None
     then r\<lparr>se_last_seen_at := unix_milli now, se_expires_at := unix_milli expires\<rparr> else r)"

definition Authenticate_session ::
  "crypto \<Rightarrow> time \<Rightarrow> SessionConfig \<Rightarrow> string \<Rightarrow> auth_db \<Rightarrow> Session result \<times> auth_db" where
  "Authenticate_session c now cfg token d =
    (if token = [] then (Inl ErrSessionInvalid, d)
     else if \<not> valid_config cfg then (Inl ErrSessionInvalid, d)
     else
       let hash = tokenHash c token
       in case find (\<lambda>r. se_id_hash r = hash) (sessions d) of
            None \<Rightarrow> (Inl ErrSessionInvalid, d)
          | Some r \<Rightarrow>
              if se_revoked_at r \<noteq> None then (Inl ErrSessionInvalid, d)
              else
                let expires = from_milli (se_expires_at r); absolute = from_milli (se_absolute_expires_at r)
                in if \<not> now < expires \<or> \<not> now < absolute
                   then (Inl ErrSessionInvalid, revoke_where (\<lambda>r. se_id_hash r = hash) now d)
                   else
                     let expires' = minTime (now + IdleTimeout cfg) absolute;
                         session = \<lparr>ses_UserID = se_user_id r, ses_CreatedAt = from_milli (se_created_at r),
                           ses_LastSeenAt = now, ses_ExpiresAt = expires', ses_AbsoluteExpires = absolute,
                           ses_AuthMethod = se_auth_method r, ses_AuthSubject = coalesce [] (se_auth_subject r)\<rparr>
                     in (Inr session, d\<lparr>sessions := map (touch hash now expires') (sessions d)\<rparr>))"

definition Authorize :: "crypto \<Rightarrow> time \<Rightarrow> SessionConfig \<Rightarrow> server_request \<Rightarrow> auth_db \<Rightarrow> bool \<times> auth_db" where
  "Authorize c now cfg r d =
    (case Authenticate_session c now cfg (TokenFromRequest r) d of (res, d) \<Rightarrow> (\<not> isl res, d))"

definition Actor :: "crypto \<Rightarrow> server_request \<Rightarrow> auth_db \<Rightarrow> string option" where
  "Actor c r d =
    (case find (\<lambda>s. se_id_hash s = tokenHash c (TokenFromRequest r) \<and> se_revoked_at s = None) (sessions d) of
       None \<Rightarrow> None
     | Some s \<Rightarrow>
         (case se_auth_subject s of
            Some subject \<Rightarrow> if se_auth_method s = ''proxy'' then Some (''proxy:'' @ subject) else Some (se_user_id s)
          | None \<Rightarrow> Some (se_user_id s)))"

definition ValidCSRF_session :: "crypto \<Rightarrow> net_lib \<Rightarrow> TrustedProxies \<Rightarrow> server_request \<Rightarrow> auth_db \<Rightarrow> bool" where
  "ValidCSRF_session c net proxies r d =
    (if \<not> SameOrigin net r proxies then False
     else let token = TokenFromRequest r
          in if token = [] then False
             else case find (\<lambda>s. se_id_hash s = tokenHash c token \<and> se_revoked_at s = None) (sessions d) of
                    None \<Rightarrow> False
                  | Some s \<Rightarrow> coalesce [] (se_csrf_hash s) \<noteq> [] \<and> ValidCSRF c r (coalesce [] (se_csrf_hash s)))"

definition Revoke_session :: "crypto \<Rightarrow> time \<Rightarrow> string \<Rightarrow> auth_db \<Rightarrow> auth_db result" where
  "Revoke_session c now token d =
    (if token = [] then Inl ErrSessionInvalid
     else Inr (revoke_where (\<lambda>r. se_id_hash r = tokenHash c token) now d))"

definition RevokeAll :: "time \<Rightarrow> string \<Rightarrow> auth_db \<Rightarrow> auth_db result" where
  "RevokeAll now userID d =
    (if userID = [] then Inl ErrSessionInvalid else Inr (revoke_where (\<lambda>r. se_user_id r = userID) now d))"

text \<open>\<open>Cleanup\<close> removes the first rows that are over, at most \<open>limit\<close>.\<close>

definition stale :: "int \<Rightarrow> session_row \<Rightarrow> bool" where
  "stale cutoff r =
    (se_expires_at r < cutoff \<or> se_absolute_expires_at r < cutoff \<or>
     (case se_revoked_at r of None \<Rightarrow> False | Some t \<Rightarrow> t < cutoff))"

fun del_first :: "('a \<Rightarrow> bool) \<Rightarrow> nat \<Rightarrow> 'a list \<Rightarrow> nat \<times> 'a list" where
  "del_first p n [] = (0, [])"
| "del_first p n (r # t) =
    (if p r \<and> 0 < n then (case del_first p (n - 1) t of (k, t') \<Rightarrow> (k + 1, t'))
     else case del_first p n t of (k, t') \<Rightarrow> (k, r # t'))"

definition Cleanup_sessions :: "time \<Rightarrow> int \<Rightarrow> auth_db \<Rightarrow> nat \<times> auth_db" where
  "Cleanup_sessions now limit d =
    (let limit = (if limit < 1 \<or> limit > 1000 then 500 else limit)
     in case del_first (stale (unix_milli now)) (nat limit) (sessions d) of
          (n, rows) \<Rightarrow> (n, d\<lparr>sessions := rows\<rparr>))"

text \<open>The rounds of one hourly tick; round \<open>i\<close> reads the clock as \<open>clock i\<close>.\<close>

lemma del_first_length: "fst (del_first p n t) + length (snd (del_first p n t)) = length t"
  by (induction p n t rule: del_first.induct) (auto split: prod.splits)

lemma Cleanup_sessions_length:
  "Cleanup_sessions now limit d = (n, d') \<Longrightarrow> n + length (sessions d') = length (sessions d)"
proof -
  assume c: "Cleanup_sessions now limit d = (n, d')"
  define k where "k = nat (if limit < 1 \<or> limit > 1000 then 500 else limit)"
  have "n = fst (del_first (stale (unix_milli now)) k (sessions d))"
    "sessions d' = snd (del_first (stale (unix_milli now)) k (sessions d))"
    using c unfolding Cleanup_sessions_def Let_def k_def [symmetric] by (auto split: prod.splits)
  then show ?thesis by (simp add: del_first_length)
qed

function cleanup_tick :: "(nat \<Rightarrow> time) \<Rightarrow> nat \<Rightarrow> auth_db \<Rightarrow> nat \<times> auth_db" where
  "cleanup_tick clock i d =
    (case Cleanup_sessions (clock i) 500 d of
       (n, d') \<Rightarrow> if n < 500 then (i + 1, d') else cleanup_tick clock (i + 1) d')"
  by pat_completeness auto

termination
  by (relation "measure (\<lambda>(clock, i, d). length (sessions d))") (auto dest: Cleanup_sessions_length [OF sym])

declare cleanup_tick.simps [simp del]

subsection \<open>API tokens\<close>

definition validScopes :: "string list" where
  "validScopes = [''server:read'', ''resources:read'', ''metrics:read'', ''events:read'', ''incidents:read'']"

definition ErrAPITokenInvalid :: go_error where
  "ErrAPITokenInvalid = ErrMsg ''API token is invalid''"

definition ErrAPIScopeInsufficient :: go_error where
  "ErrAPIScopeInsufficient = ErrMsg ''API token scope is insufficient''"

record APIToken =
  tok_ID :: string
  tok_Name :: string
  tok_Prefix :: string
  tok_Scopes :: "string list"
  tok_CreatedAt :: time
  tok_ExpiresAt :: "time option"
  tok_LastUsedAt :: "time option"
  tok_RevokedAt :: "time option"

fun check_scopes :: "string list \<Rightarrow> string list \<Rightarrow> go_error option" where
  "check_scopes seen [] = None"
| "check_scopes seen (s # ss) =
    (if s \<notin> set validScopes \<or> s \<in> set seen then Some (ErrMsg (''invalid API token scope '' @ s))
     else check_scopes (s # seen) ss)"

definition normalizeScopes :: "string list \<Rightarrow> string list result" where
  "normalizeScopes scopes =
    (if length scopes < 1 \<or> length scopes > length validScopes then Inl (ErrMsg ''one to five scopes are required'')
     else case check_scopes [] scopes of Some e \<Rightarrow> Inl e | None \<Rightarrow> Inr (sort scopes))"

definition apiTokenHash :: "crypto \<Rightarrow> string \<Rightarrow> string" where
  "apiTokenHash c value = hex_encode (sha256 c value)"

definition token_live :: "int \<Rightarrow> api_token_row \<Rightarrow> bool" where
  "token_live ms r = (at_revoked_at r = None \<and> (case at_expires_at r of None \<Rightarrow> True | Some e \<Rightarrow> e > ms))"

definition token_id :: "string \<Rightarrow> string" where
  "token_id idBytes = ''tok_'' @ hex_encode idBytes"

definition token_text :: "string \<Rightarrow> string \<Rightarrow> string" where
  "token_text idBytes secret = ''bnk_'' @ hex_encode idBytes @ ''_'' @ base64url_encode secret"

definition Create_token ::
  "crypto \<Rightarrow> rand \<Rightarrow> time \<Rightarrow> string \<Rightarrow> string \<Rightarrow> string list \<Rightarrow> time option \<Rightarrow> auth_db \<Rightarrow> ((APIToken \<times> string) \<times> auth_db) result" where
  "Create_token c rnd now userID name scopes expiresAt d =
    (let name = trim_space name
     in if length name < 1 \<or> length name > 64 then Inl (ErrMsg ''token name must be 1 to 64 characters'')
        else bind_result (normalizeScopes scopes) (\<lambda>scopes.
          if (case expiresAt of None \<Rightarrow> False | Some v \<Rightarrow> v < now + hours 1 \<or> v > now + hours (365 * 24))
          then Inl (ErrMsg ''token expiry must be between one hour and one year'')
          else if count_where (\<lambda>r. at_user_id r = userID \<and> token_live (unix_milli now) r) (api_tokens d) \<ge> 32
          then Inl (ErrMsg ''active API token limit reached'')
          else
            let (idBytes, d) = rand_read rnd 8 d;
                (secret, d) = rand_read rnd 32 d;
                tid = token_id idBytes;
                plaintext = token_text idBytes secret;
                pre = take 12 plaintext;
                hash = apiTokenHash c plaintext;
                row = \<lparr>at_id = tid, at_user_id = userID, at_name = name, at_prefix = pre, at_token_hash = hash,
                  at_scopes = scopes, at_created_at = unix_milli now, at_expires_at = map_option unix_milli expiresAt,
                  at_last_used_at = None, at_revoked_at = None\<rparr>
            in if list_ex (\<lambda>r. at_id r = tid \<or> at_prefix r = pre \<or> at_token_hash r = hash) (api_tokens d) \<or>
                  \<not> list_ex (\<lambda>u. us_id u = userID) (users d)
               then Inl (ErrConstraint ''api_tokens'')
               else Inr ((\<lparr>tok_ID = tid, tok_Name = name, tok_Prefix = pre, tok_Scopes = scopes, tok_CreatedAt = now,
                           tok_ExpiresAt = expiresAt, tok_LastUsedAt = None, tok_RevokedAt = None\<rparr>, plaintext),
                         d\<lparr>api_tokens := api_tokens d @ [row]\<rparr>)))"

definition timePtr :: "int option \<Rightarrow> time option" where
  "timePtr value = map_option from_milli value"

definition List_tokens :: "string \<Rightarrow> auth_db \<Rightarrow> APIToken list" where
  "List_tokens userID d =
    map (\<lambda>r. \<lparr>tok_ID = at_id r, tok_Name = at_name r, tok_Prefix = at_prefix r, tok_Scopes = at_scopes r,
              tok_CreatedAt = from_milli (at_created_at r), tok_ExpiresAt = timePtr (at_expires_at r),
              tok_LastUsedAt = timePtr (at_last_used_at r), tok_RevokedAt = timePtr (at_revoked_at r)\<rparr>)
        (sort_key (\<lambda>r. - at_created_at r) (filter (\<lambda>r. at_user_id r = userID) (api_tokens d)))"

definition Revoke_token :: "time \<Rightarrow> string \<Rightarrow> string \<Rightarrow> auth_db \<Rightarrow> auth_db result" where
  "Revoke_token now userID tid d =
    (if count_where (\<lambda>r. at_id r = tid \<and> at_user_id r = userID) (api_tokens d) \<noteq> 1 then Inl ErrNoRows
     else Inr (d\<lparr>api_tokens := upd_where (\<lambda>r. at_id r = tid \<and> at_user_id r = userID)
            (\<lambda>r. r\<lparr>at_revoked_at := (case at_revoked_at r of None \<Rightarrow> Some (unix_milli now) | Some t \<Rightarrow> Some t)\<rparr>) (api_tokens d)\<rparr>))"

text \<open>The clock is read for the expiry and again for the time of use.\<close>

definition Authenticate_token ::
  "crypto \<Rightarrow> time \<Rightarrow> time \<Rightarrow> string \<Rightarrow> string \<Rightarrow> auth_db \<Rightarrow> go_error option \<times> auth_db" where
  "Authenticate_token c now1 now2 plaintext required d =
    (if \<not> has_prefix plaintext ''bnk_'' \<or> length plaintext > 128 then (Some ErrAPITokenInvalid, d)
     else case find (\<lambda>r. at_token_hash r = apiTokenHash c plaintext) (api_tokens d) of
            None \<Rightarrow> (Some ErrAPITokenInvalid, d)
          | Some r \<Rightarrow>
              if at_revoked_at r \<noteq> None \<or> (case at_expires_at r of None \<Rightarrow> False | Some e \<Rightarrow> e \<le> unix_milli now1)
              then (Some ErrAPITokenInvalid, d)
              else if \<not> list_ex (\<lambda>scope. scope = required) (at_scopes r) then (Some ErrAPIScopeInsufficient, d)
              else
                let hourAgo = unix_milli (now2 - hours 1);
                    old = (\<lambda>l. case l of None \<Rightarrow> True | Some t \<Rightarrow> t < hourAgo)
                in (None,
                    if old (at_last_used_at r)
                    then d\<lparr>api_tokens := upd_where (\<lambda>r. at_token_hash r = apiTokenHash c plaintext \<and> old (at_last_used_at r))
                             (\<lambda>r. r\<lparr>at_last_used_at := Some (unix_milli now2)\<rparr>) (api_tokens d)\<rparr>
                    else d))"

end
