(* ===== verification/Auth_MFA.thy ===== *)
theory Auth_MFA
  imports Auth_Sessions "HOL-Library.AList"
begin

section \<open>One-time passwords and recovery codes\<close>

text \<open>
  \<^verbatim>\<open>internal/auth/totp.go\<close>. The enrolments that wait for their first code live in memory, one
  per user. \<open>clock i\<close> is the \<open>i\<close>-th reading of the clock within one call. The two critical
  sections of \<open>Confirm\<close> follow each other without another enrolment of the same user between them.
\<close>

definition TOTPPeriod :: duration where
  "TOTPPeriod = seconds 30"

definition pendingEnrollmentTTL :: duration where
  "pendingEnrollmentTTL = minutes 10"

definition maxPendingEnrollments :: nat where
  "maxPendingEnrollments = 64"

definition ErrMFAInvalid :: go_error where
  "ErrMFAInvalid = ErrMsg ''authentication code is invalid''"

record Enrollment =
  enr_Seed :: string
  enr_URI :: string
  enr_ExpiresAt :: time

record pendingEnrollment =
  pe_seed :: string
  pe_expires :: time

type_synonym pending = "(string \<times> pendingEnrollment) list"

subsection \<open>Codes\<close>

text \<open>\<open>binary.BigEndian.PutUint64\<close> of the number of periods since 1970.\<close>

definition be_bytes :: "int \<Rightarrow> string" where
  "be_bytes n = map (\<lambda>k. char_of (nat (n div 256 ^ k mod 256))) [7, 6, 5, 4, 3, 2, 1, 0]"

definition pad6 :: "nat \<Rightarrow> string" where
  "pad6 n = (let s = show_nat n in replicate (6 - length s) CHR ''0'' @ s)"

text \<open>The masked bytes occupy different bits, so their bitwise or is their sum.\<close>

definition TOTP :: "crypto \<Rightarrow> string \<Rightarrow> time \<Rightarrow> string" where
  "TOTP c seed at_time =
    (let counter = trunc_div (unix at_time) 30 mod 2 ^ 64;
         total = hmac_sha1 c seed (be_bytes counter);
         byte = (\<lambda>i. of_char (total ! i) :: nat);
         offset = byte (length total - 1) mod 16;
         code = (byte offset mod 128) * 2 ^ 24 + byte (offset + 1) * 2 ^ 16 + byte (offset + 2) * 2 ^ 8 + byte (offset + 3)
     in pad6 (code mod 1000000))"

definition VerifyTOTP :: "crypto \<Rightarrow> string \<Rightarrow> string \<Rightarrow> time \<Rightarrow> bool" where
  "VerifyTOTP c seed code at_time =
    (if length code \<noteq> 6 then False
     else if atoi code = None then False
     else list_ex (\<lambda>step. TOTP c seed (at_time + step * TOTPPeriod) = code) [-1, 0, 1])"

definition normalize_code :: "string \<Rightarrow> string" where
  "normalize_code code = to_upper (filter (\<lambda>ch. ch \<noteq> CHR ''-'' \<and> ch \<noteq> CHR '' '') (trim_space code))"

definition recoveryHash :: "crypto \<Rightarrow> string \<Rightarrow> string" where
  "recoveryHash c code =
    (let normalized = normalize_code code
     in if length normalized \<noteq> 16 then []
        else if base32_decode normalized = None then []
        else hex_encode (sha256 c normalized))"

definition recovery_code :: "string \<Rightarrow> string" where
  "recovery_code raw =
    (let encoded = base32_encode raw
     in take 4 encoded @ ''-'' @ take 4 (drop 4 encoded) @ ''-'' @ take 4 (drop 8 encoded) @ ''-'' @ drop 12 encoded)"

fun draw_codes :: "rand \<Rightarrow> nat \<Rightarrow> auth_db \<Rightarrow> string list \<times> auth_db" where
  "draw_codes rnd 0 d = ([], d)"
| "draw_codes rnd (Suc n) d =
    (let (raw, d) = rand_read rnd 10 d; (codes, d) = draw_codes rnd n d in (recovery_code raw # codes, d))"

definition newRecoveryCodes :: "crypto \<Rightarrow> rand \<Rightarrow> auth_db \<Rightarrow> (string list \<times> string list) \<times> auth_db" where
  "newRecoveryCodes c rnd d = (let (codes, d) = draw_codes rnd 10 d in ((codes, map (recoveryHash c) codes), d))"

subsection \<open>Enrolment\<close>

definition Enabled :: "string \<Rightarrow> auth_db \<Rightarrow> bool result" where
  "Enabled userID d = (case find (\<lambda>u. us_id u = userID) (users d) of None \<Rightarrow> Inl ErrNoRows | Some u \<Rightarrow> Inr (us_totp_enabled u))"

definition ValidateAdvancedAuthState :: "bool \<Rightarrow> auth_db \<Rightarrow> go_error option" where
  "ValidateAdvancedAuthState enabled d =
    (if enabled then None
     else if list_ex us_totp_enabled (users d)
     then Some (ErrMsg ''features.advanced_auth must be enabled while TOTP enrollment exists'')
     else None)"

definition totp_uri :: "string \<Rightarrow> string \<Rightarrow> string" where
  "totp_uri username encoded =
    ''otpauth://totp/Binnacle:'' @ username @
    ''?algorithm=SHA1&digits=6&issuer=Binnacle&period=30&secret='' @ encoded"

definition Begin ::
  "crypto \<Rightarrow> SecretStore \<Rightarrow> rand \<Rightarrow> time \<Rightarrow> User \<Rightarrow> string \<Rightarrow> pending \<times> auth_db \<Rightarrow> Enrollment result \<times> pending \<times> auth_db" where
  "Begin c s rnd now user password = (\<lambda>(pend, d).
    if \<not> Available_secrets s then (Inl ErrMasterKeyMissing, pend, d)
    else case Authenticate_user c (user_Username user) password d of
           Inl _ \<Rightarrow> (Inl ErrInvalidCredentials, pend, d)
         | Inr _ \<Rightarrow>
             let (seed, d) = rand_read rnd 20 d;
                 pend = filter (\<lambda>(_, v). now < pe_expires v) pend
             in if map_of pend (user_ID user) = None \<and> length pend \<ge> maxPendingEnrollments
                then (Inl (ErrMsg ''too many pending MFA enrollments''), pend, d)
                else
                  let expires = now + pendingEnrollmentTTL; encoded = base32_encode seed
                  in (Inr \<lparr>enr_Seed = encoded, enr_URI = totp_uri (user_Username user) encoded, enr_ExpiresAt = expires\<rparr>,
                      AList.update (user_ID user) \<lparr>pe_seed = seed, pe_expires = expires\<rparr> pend, d))"

text \<open>The statements of the transaction of \<open>Confirm\<close>.\<close>

definition insert_code :: "string \<Rightarrow> time \<Rightarrow> string \<Rightarrow> auth_db \<Rightarrow> auth_db result" where
  "insert_code userID now hash d =
    (if list_ex (\<lambda>r. rc_user_id r = userID \<and> rc_code_hash r = hash) (recovery_codes d) \<or>
        \<not> list_ex (\<lambda>u. us_id u = userID) (users d)
     then Inl (ErrConstraint ''recovery_codes'')
     else Inr (d\<lparr>recovery_codes := recovery_codes d @
            [\<lparr>rc_user_id = userID, rc_code_hash = hash, rc_created_at = unix_milli now, rc_used_at = None\<rparr>]\<rparr>))"

definition store_enrollment :: "string \<Rightarrow> string \<Rightarrow> time \<Rightarrow> string list \<Rightarrow> auth_db \<Rightarrow> auth_db result" where
  "store_enrollment userID key now hashes d =
    (let d = d\<lparr>recovery_codes := del_where (\<lambda>r. rc_user_id r = userID) (recovery_codes d)\<rparr>
     in bind_result (fold_result (insert_code userID now) hashes d) (\<lambda>d.
          Inr (d\<lparr>users := upd_where (\<lambda>u. us_id u = userID)
                  (\<lambda>u. u\<lparr>us_totp_enabled := True, us_totp_secret_key := Some key,
                         us_mfa_changed_at := Some (unix_milli now), us_updated_at := unix_milli now\<rparr>) (users d)\<rparr>)))"

definition revoke_all_of :: "time \<Rightarrow> string \<Rightarrow> auth_db \<Rightarrow> auth_db" where
  "revoke_all_of now userID d = (case RevokeAll now userID d of Inl _ \<Rightarrow> d | Inr d \<Rightarrow> d)"

definition totp_key :: "string \<Rightarrow> string" where
  "totp_key userID = ''totp.'' @ userID"

definition Confirm ::
  "crypto \<Rightarrow> SecretStore \<Rightarrow> rand \<Rightarrow> (nat \<Rightarrow> time) \<Rightarrow> string \<Rightarrow> string \<Rightarrow> pending \<times> auth_db \<Rightarrow> string list result \<times> pending \<times> auth_db" where
  "Confirm c s rnd clock userID code = (\<lambda>(pend, d).
    case map_of pend userID of
      None \<Rightarrow> (Inl ErrMFAInvalid, AList.delete userID pend, d)
    | Some p \<Rightarrow>
        if \<not> clock 0 < pe_expires p then (Inl ErrMFAInvalid, AList.delete userID pend, d)
        else if \<not> VerifyTOTP c (pe_seed p) code (clock 1) then (Inl ErrMFAInvalid, pend, d)
        else if \<not> clock 2 < pe_expires p then (Inl ErrMFAInvalid, pend, d)
        else
          let pend = AList.delete userID pend;
              ((codes, hashes), d) = newRecoveryCodes c rnd d;
              key = totp_key userID
          in case Put_secret c s rnd (clock 3) key (pe_seed p) d of
               Inl e \<Rightarrow> (Inl e, pend, d)
             | Inr d \<Rightarrow>
                 (case store_enrollment userID key (clock 4) hashes d of
                    Inl e \<Rightarrow> (Inl e, pend, Delete_secret key d)
                  | Inr d \<Rightarrow> (Inr codes, pend, revoke_all_of (clock 5) userID d)))"

subsection \<open>Verification\<close>

definition use_code :: "string \<Rightarrow> string \<Rightarrow> time \<Rightarrow> auth_db \<Rightarrow> go_error option \<times> auth_db" where
  "use_code userID hash now d =
    (let unused = (\<lambda>r. rc_user_id r = userID \<and> rc_code_hash r = hash \<and> rc_used_at r = None)
     in if count_where unused (recovery_codes d) \<noteq> 1 then (Some ErrMFAInvalid, d)
        else (None, d\<lparr>recovery_codes := upd_where unused (\<lambda>r. r\<lparr>rc_used_at := Some (unix_milli now)\<rparr>) (recovery_codes d)\<rparr>))"

definition Verify_mfa ::
  "crypto \<Rightarrow> SecretStore \<Rightarrow> (nat \<Rightarrow> time) \<Rightarrow> string \<Rightarrow> string \<Rightarrow> auth_db \<Rightarrow> go_error option \<times> auth_db" where
  "Verify_mfa c s clock userID code d =
    (case find (\<lambda>u. us_id u = userID) (users d) of
       None \<Rightarrow> (Some ErrMFAInvalid, d)
     | Some u \<Rightarrow>
         if \<not> us_totp_enabled u then (None, d)
         else
           let key = coalesce [] (us_totp_secret_key u)
           in if key = [] then (Some ErrMFAInvalid, d)
              else if (case Get_secret c s key d of Inl _ \<Rightarrow> False | Inr seed \<Rightarrow> VerifyTOTP c seed code (clock 0))
              then (None, d)
              else let hash = recoveryHash c code
                   in if hash = [] then (Some ErrMFAInvalid, d) else use_code userID hash (clock 1) d)"

definition Disable_mfa ::
  "crypto \<Rightarrow> SecretStore \<Rightarrow> (nat \<Rightarrow> time) \<Rightarrow> User \<Rightarrow> string \<Rightarrow> string \<Rightarrow> auth_db \<Rightarrow> go_error option \<times> auth_db" where
  "Disable_mfa c s clock user password code d =
    (case Authenticate_user c (user_Username user) password d of
       Inl _ \<Rightarrow> (Some ErrInvalidCredentials, d)
     | Inr _ \<Rightarrow>
         (case Verify_mfa c s clock (user_ID user) code d of
            (Some _, d) \<Rightarrow> (Some ErrMFAInvalid, d)
          | (None, d) \<Rightarrow>
              (case find (\<lambda>u. us_id u = user_ID user) (users d) of
                 None \<Rightarrow> (Some ErrNoRows, d)
               | Some u \<Rightarrow>
                   let now = unix_milli (clock 2);
                       d = d\<lparr>recovery_codes := del_where (\<lambda>r. rc_user_id r = user_ID user) (recovery_codes d),
                             users := upd_where (\<lambda>u. us_id u = user_ID user)
                               (\<lambda>u. u\<lparr>us_totp_enabled := False, us_totp_secret_key := None,
                                      us_mfa_changed_at := Some now, us_updated_at := now\<rparr>) (users d)\<rparr>;
                       d = (case us_totp_secret_key u of None \<Rightarrow> d | Some key \<Rightarrow> Delete_secret key d)
                   in (None, revoke_all_of (clock 3) (user_ID user) d))))"

end
