(* ===== verification/Auth_System.thy ===== *)
theory Auth_System
  imports Auth_MFA
begin

section \<open>The authentication database over time\<close>

text \<open>
  Every operation of \<^verbatim>\<open>internal/auth\<close> that writes is a step on the enrolments in memory and the
  tables. \<open>auth_evolves\<close> is the contract the steps share: accounts are not replaced, a claimed
  setup stays claimed, sessions keep their identity and lifetime and are not revived, and used
  recovery codes stay used.
\<close>

subsection \<open>The contract\<close>

definition same_session :: "session_row \<Rightarrow> session_row \<Rightarrow> bool" where
  "same_session r r' =
    (se_id_hash r' = se_id_hash r \<and> se_user_id r' = se_user_id r \<and> se_created_at r' = se_created_at r \<and>
     se_absolute_expires_at r' = se_absolute_expires_at r \<and>
     (se_revoked_at r \<noteq> None \<longrightarrow> se_revoked_at r' = se_revoked_at r))"

definition same_code :: "recovery_row \<Rightarrow> recovery_row \<Rightarrow> bool" where
  "same_code r r' =
    (rc_user_id r' = rc_user_id r \<and> rc_code_hash r' = rc_code_hash r \<and>
     (rc_used_at r \<noteq> None \<longrightarrow> rc_used_at r' = rc_used_at r))"

definition rows_evolve :: "('r \<Rightarrow> 'r \<Rightarrow> bool) \<Rightarrow> ('r \<Rightarrow> nat \<Rightarrow> bool) \<Rightarrow> nat \<times> nat \<Rightarrow> 'r list \<Rightarrow> 'r list \<Rightarrow> bool" where
  "rows_evolve same fresh w t t' =
    (\<forall>r' \<in> set t'. (\<exists>r \<in> set t. same r r') \<or> (\<exists>i. fst w \<le> i \<and> i < snd w \<and> fresh r' i))"

definition session_drawn :: "crypto \<Rightarrow> rand \<Rightarrow> session_row \<Rightarrow> nat \<Rightarrow> bool" where
  "session_drawn c rnd r i = (se_id_hash r = tokenHash c (base64url_encode (rnd i 32)))"

definition code_drawn :: "crypto \<Rightarrow> rand \<Rightarrow> recovery_row \<Rightarrow> nat \<Rightarrow> bool" where
  "code_drawn c rnd r i = (rc_code_hash r = recoveryHash c (recovery_code (rnd i 10)))"

definition users_evolve :: "auth_db \<Rightarrow> auth_db \<Rightarrow> bool" where
  "users_evolve d d' = (if users d = [] then length (users d') \<le> 1 else map us_id (users d') = map us_id (users d))"

definition setup_done :: "auth_db \<Rightarrow> bool" where
  "setup_done d = (case setup_state d of None \<Rightarrow> False | Some r \<Rightarrow> su_claimed_at r \<noteq> None \<and> su_token_hash r = None)"

definition auth_evolves :: "crypto \<Rightarrow> rand \<Rightarrow> auth_db \<Rightarrow> auth_db \<Rightarrow> bool" where
  "auth_evolves c rnd d d' =
    (reads d \<le> reads d' \<and> users_evolve d d' \<and> (setup_done d \<longrightarrow> setup_done d') \<and>
     rows_evolve same_session (session_drawn c rnd) (reads d, reads d') (sessions d) (sessions d') \<and>
     rows_evolve same_code (code_drawn c rnd) (reads d, reads d') (recovery_codes d) (recovery_codes d'))"

lemma same_session_trans: "same_session r s \<Longrightarrow> same_session s t \<Longrightarrow> same_session r t"
  by (simp add: same_session_def)

lemma same_code_trans: "same_code r s \<Longrightarrow> same_code s t \<Longrightarrow> same_code r t"
  by (simp add: same_code_def)

lemma same_refl [simp]: "same_session r r" "same_code q q"
  by (simp_all add: same_session_def same_code_def)

lemma rows_evolve_sub: "(\<And>r. same r r) \<Longrightarrow> set t' \<subseteq> set t \<Longrightarrow> rows_evolve same fresh w t t'"
  unfolding rows_evolve_def by blast

lemma rows_evolve_upd:
  assumes "\<And>r. same r r" "\<And>r. p r \<Longrightarrow> same r (f r)"
  shows "rows_evolve same fresh w t (upd_where p f t)"
  unfolding rows_evolve_def
proof
  fix r' assume "r' \<in> set (upd_where p f t)"
  then obtain r where "r \<in> set t" "r' = (if p r then f r else r)" by (rule upd_whereE)
  then show "(\<exists>r \<in> set t. same r r') \<or> (\<exists>i. fst w \<le> i \<and> i < snd w \<and> fresh r' i)" using assms by auto
qed

lemma rows_evolve_map:
  assumes "\<And>r. same r (f r)" shows "rows_evolve same fresh w t (map f t)"
  using assms unfolding rows_evolve_def by auto

lemma rows_evolve_snoc:
  assumes "\<And>r. same r r" "fst w \<le> i" "i < snd w" "fresh row i"
  shows "rows_evolve same fresh w t (t @ [row])"
  using assms unfolding rows_evolve_def by auto

lemma rows_evolve_trans:
  assumes "rows_evolve same fresh (a, b) t u" "rows_evolve same fresh (b, e) u v" "a \<le> b" "b \<le> e"
    and trans: "\<And>r s t. same r s \<Longrightarrow> same s t \<Longrightarrow> same r t"
    and keep: "\<And>r s i. same r s \<Longrightarrow> fresh r i \<Longrightarrow> fresh s i"
  shows "rows_evolve same fresh (a, e) t v"
  unfolding rows_evolve_def
proof
  fix x assume "x \<in> set v"
  then consider r where "r \<in> set u" "same r x" | i where "b \<le> i" "i < e" "fresh x i"
    using assms(2) unfolding rows_evolve_def by auto
  then show "(\<exists>r \<in> set t. same r x) \<or> (\<exists>i. fst (a, e) \<le> i \<and> i < snd (a, e) \<and> fresh x i)"
  proof cases
    case 1
    then consider q where "q \<in> set t" "same q r" | i where "a \<le> i" "i < b" "fresh r i"
      using assms(1) unfolding rows_evolve_def by auto
    then show ?thesis
    proof cases
      case a: 1
      then show ?thesis using trans [OF a(2) 1(2)] by blast
    next
      case b: 2
      then have "i < e" using assms(4) by simp
      then show ?thesis using b keep [OF 1(2) b(3)] by auto
    qed
  next
    case 2
    then show ?thesis using assms(3) by (metis fst_conv snd_conv le_trans)
  qed
qed

lemma auth_evolves_refl: "auth_evolves c rnd d d"
  unfolding auth_evolves_def users_evolve_def by (auto intro: rows_evolve_sub)

lemma auth_evolves_trans:
  assumes "auth_evolves c rnd d e" "auth_evolves c rnd e f"
  shows "auth_evolves c rnd d f"
proof -
  have r: "reads d \<le> reads e" "reads e \<le> reads f" using assms by (simp_all add: auth_evolves_def)
  have s: "rows_evolve same_session (session_drawn c rnd) (reads d, reads f) (sessions d) (sessions f)"
  proof (rule rows_evolve_trans)
    show "rows_evolve same_session (session_drawn c rnd) (reads d, reads e) (sessions d) (sessions e)"
      "rows_evolve same_session (session_drawn c rnd) (reads e, reads f) (sessions e) (sessions f)"
      using assms by (simp_all add: auth_evolves_def)
    show "same_session x z" if "same_session x y" "same_session y z" for x y z by (rule same_session_trans [OF that])
    show "session_drawn c rnd y i" if "same_session x y" "session_drawn c rnd x i" for x y i
      using that by (simp add: same_session_def session_drawn_def)
  qed (rule r)+
  have k: "rows_evolve same_code (code_drawn c rnd) (reads d, reads f) (recovery_codes d) (recovery_codes f)"
  proof (rule rows_evolve_trans)
    show "rows_evolve same_code (code_drawn c rnd) (reads d, reads e) (recovery_codes d) (recovery_codes e)"
      "rows_evolve same_code (code_drawn c rnd) (reads e, reads f) (recovery_codes e) (recovery_codes f)"
      using assms by (simp_all add: auth_evolves_def)
    show "same_code x z" if "same_code x y" "same_code y z" for x y z by (rule same_code_trans [OF that])
    show "code_drawn c rnd y i" if "same_code x y" "code_drawn c rnd x i" for x y i
      using that by (simp add: same_code_def code_drawn_def)
  qed (rule r)+
  have u: "users_evolve d f"
  proof (cases "users d = []")
    case True
    then have "length (users e) \<le> 1" using assms(1) by (simp add: auth_evolves_def users_evolve_def)
    then have "length (users f) \<le> 1" using assms(2)
      by (cases "users e = []") (auto simp: auth_evolves_def users_evolve_def dest: map_eq_imp_length_eq)
    then show ?thesis using True by (simp add: users_evolve_def)
  next
    case False
    then have e: "map us_id (users e) = map us_id (users d)" using assms(1) by (simp add: auth_evolves_def users_evolve_def)
    then have "users e \<noteq> []" using False by auto
    then have "map us_id (users f) = map us_id (users e)" using assms(2) by (simp add: auth_evolves_def users_evolve_def)
    then show ?thesis using e False by (simp add: users_evolve_def)
  qed
  show ?thesis using r s k u assms by (simp add: auth_evolves_def)
qed

text \<open>An operation that leaves the four tables alone and only draws random bytes.\<close>

lemma auth_evolves_frame:
  assumes "users d' = users d" "setup_state d' = setup_state d" "sessions d' = sessions d"
    "recovery_codes d' = recovery_codes d" "reads d \<le> reads d'"
  shows "auth_evolves c rnd d d'"
  using assms by (auto simp: auth_evolves_def users_evolve_def setup_done_def intro: rows_evolve_sub)

lemma auth_evolves_sessions:
  assumes "users d' = users d" "setup_state d' = setup_state d" "recovery_codes d' = recovery_codes d" "reads d \<le> reads d'"
    "rows_evolve same_session (session_drawn c rnd) (reads d, reads d') (sessions d) (sessions d')"
  shows "auth_evolves c rnd d d'"
  using assms by (auto simp: auth_evolves_def users_evolve_def setup_done_def intro: rows_evolve_sub)

subsection \<open>Every operation keeps the contract\<close>

lemma HashPassword_Inr: "HashPassword c procs rnd password d = Inr (hash, d') \<Longrightarrow> d' = d\<lparr>reads := Suc (reads d)\<rparr>"
  by (auto simp: HashPassword_def rand_read_def Let_def split: option.splits)

lemma randomID_snd: "snd (randomID rnd d) = d\<lparr>reads := Suc (reads d)\<rparr>"
  by (simp add: randomID_def rand_read_def)

lemma insert_user_Inr: "insert_user uid username hash now d = Inr d' \<Longrightarrow> \<exists>u. d' = d\<lparr>users := users d @ [u]\<rparr>"
  by (auto simp: insert_user_def split: if_splits)

lemma CreateAdmin_Inr:
  assumes "CreateAdmin c procs rnd now username password d = Inr (u, d')"
  shows "users d = []" "\<exists>r. d' = d\<lparr>reads := reads d + 2, users := [r]\<rparr>"
proof -
  obtain name hash d1 where "ValidateUsername username = Inr name" "HashPassword c procs rnd password d = Inr (hash, d1)"
    and r: "(if length (users d1) \<noteq> 0 then Inl ErrAdminExists
       else let (uid, d) = randomID rnd d1
            in case insert_user uid name hash now d of
                 Inl _ \<Rightarrow> Inl ErrAdminExists
               | Inr d \<Rightarrow> Inr (\<lparr>user_ID = uid, user_Username = name, user_CreatedAt = now\<rparr>, d)) = Inr (u, d')"
    using assms unfolding CreateAdmin_def bind_result_Inr by auto
  then have d1: "d1 = d\<lparr>reads := Suc (reads d)\<rparr>" using HashPassword_Inr by blast
  show e: "users d = []" using r by (auto simp: d1 split: if_splits)
  obtain uid d2 where d2: "randomID rnd d1 = (uid, d2)" by force
  then have "d2 = d1\<lparr>reads := Suc (reads d1)\<rparr>" using randomID_snd [of rnd d1] by simp
  moreover have "insert_user uid name hash now d2 = Inr d'" using r d2 by (auto simp: split: if_splits sum.splits)
  ultimately show "\<exists>r. d' = d\<lparr>reads := reads d + 2, users := [r]\<rparr>"
    using insert_user_Inr [of uid name hash now d2 d'] by (auto simp: d1 e intro!: exI)
qed

lemma Claim_Inr:
  assumes "Claim c procs rnd now token username password d = Inr (u, d')"
  shows "users d = []" "\<exists>r s. d' = d\<lparr>reads := reads d + 2, users := [r], setup_state := Some s\<rparr> \<and> su_claimed_at s \<noteq> None \<and> su_token_hash s = None"
proof -
  obtain name hash d1 where "HashPassword c procs rnd password d = Inr (hash, d1)"
    and r: "(case setup_state d1 of
              None \<Rightarrow> Inl ErrSetupUnavailable
            | Some r \<Rightarrow>
                if \<not> setup_token_ok c now token r then Inl ErrSetupToken
                else if length (users d1) \<noteq> 0 then Inl ErrAdminExists
                else let (uid, d) = randomID rnd d1
                     in bind_result (insert_user uid name hash now d) (\<lambda>d.
                          if su_claimed_at r \<noteq> None then Inl ErrSetupUnavailable
                          else Inr (\<lparr>user_ID = uid, user_Username = name, user_CreatedAt = now\<rparr>,
                                    d\<lparr>setup_state := Some (r\<lparr>su_claimed_at := Some (unix_milli now), su_token_hash := None\<rparr>)\<rparr>))) = Inr (u, d')"
    using assms unfolding Claim_def bind_result_Inr by (auto split: option.splits simp: bind_result_Inr)
  then have d1: "d1 = d\<lparr>reads := Suc (reads d)\<rparr>" using HashPassword_Inr by blast
  obtain s where s: "setup_state d1 = Some s" using r by (cases "setup_state d1") auto
  show e: "users d = []" using r s by (auto simp: d1 split: if_splits)
  obtain uid d2 where d2: "randomID rnd d1 = (uid, d2)" by force
  then have d2': "d2 = d1\<lparr>reads := Suc (reads d1)\<rparr>" using randomID_snd [of rnd d1] by simp
  obtain d3 where d3: "insert_user uid name hash now d2 = Inr d3"
      "d' = d3\<lparr>setup_state := Some (s\<lparr>su_claimed_at := Some (unix_milli now), su_token_hash := None\<rparr>)\<rparr>"
    using r d2 s by (auto simp: bind_result_Inr split: if_splits)
  obtain v where "d3 = d2\<lparr>users := users d2 @ [v]\<rparr>" using insert_user_Inr [OF d3(1)] by blast
  then show "\<exists>r s. d' = d\<lparr>reads := reads d + 2, users := [r], setup_state := Some s\<rparr> \<and> su_claimed_at s \<noteq> None \<and> su_token_hash s = None"
    using d3(2) by (auto simp: d2' d1 e intro!: exI)
qed

lemma Disable_setup_evolves: "auth_evolves c rnd d (Disable_setup now d)"
  by (auto simp: auth_evolves_def users_evolve_def setup_done_def Disable_setup_def intro: rows_evolve_sub split: option.splits)

lemma CreateAdmin_evolves: "CreateAdmin c procs rnd now username password d = Inr (u, d') \<Longrightarrow> auth_evolves c rnd d d'"
  using CreateAdmin_Inr [of c procs rnd now username password d u d']
  by (auto simp: auth_evolves_def users_evolve_def setup_done_def intro: rows_evolve_sub)

lemma Claim_evolves: "Claim c procs rnd now token username password d = Inr (u, d') \<Longrightarrow> auth_evolves c rnd d d'"
  using Claim_Inr [of c procs rnd now token username password d u d']
  by (auto simp: auth_evolves_def users_evolve_def setup_done_def intro: rows_evolve_sub)

lemma Initialize_evolves: "Initialize c net rnd now listen configured d = Inr (g, d') \<Longrightarrow> auth_evolves c rnd d d'"
  by (auto simp: Initialize_def Let_def rand_read_def auth_evolves_def users_evolve_def setup_done_def
      intro: rows_evolve_sub split: if_splits option.splits)

lemma BootstrapAdmin_evolves:
  assumes "BootstrapAdmin c procs rnd now getenv readFile d = Inr (b, d')"
  shows "auth_evolves c rnd d d'"
proof -
  consider "d' = d" | username password u d1 where "CreateAdmin c procs rnd now username password d = Inr (u, d1)" "d' = Disable_setup now d1"
    using assms by (auto simp: BootstrapAdmin_def bind_result_Inr split: if_splits)
  then show ?thesis
  proof cases
    case 1
    then show ?thesis by (simp add: auth_evolves_refl)
  next
    case 2
    show ?thesis unfolding 2(2) by (rule auth_evolves_trans [OF CreateAdmin_evolves [OF 2(1)] Disable_setup_evolves])
  qed
qed

lemma Put_secret_evolves:
  assumes "Put_secret c s rnd now key text d = Inr d'" shows "auth_evolves c rnd d d'"
  using assms
  by (intro auth_evolves_frame) (auto simp: Put_secret_def rand_read_def Let_def split: option.splits if_splits)

lemma Delete_secret_evolves: "auth_evolves c rnd d (Delete_secret key d)"
  by (rule auth_evolves_frame) (simp_all add: Delete_secret_def)

lemma issue_Inr:
  assumes "issue c rnd now cfg userID ua ip m subject d = Inr ((token, csrf, session), d')"
  shows "d' = d\<lparr>reads := reads d + 2, sessions := sessions d @ [session_columns c token csrf ua ip session]\<rparr>"
    and "token = base64url_encode (rnd (reads d) 32)"
    and "valid_config cfg" "ses_AbsoluteExpires session = now + AbsoluteLifetime cfg"
    and "ses_ExpiresAt session = minTime (now + IdleTimeout cfg) (now + AbsoluteLifetime cfg)"
  using assms
  by (auto simp: issue_def randomToken_def NewCSRFToken_def rand_read_def Let_def split: if_splits)

lemma issue_evolves:
  assumes "issue c rnd now cfg userID ua ip m subject d = Inr (x, d')" shows "auth_evolves c rnd d d'"
proof -
  obtain token csrf session where "x = (token, csrf, session)" by (cases x)
  then have i: "issue c rnd now cfg userID ua ip m subject d = Inr ((token, csrf, session), d')" using assms by simp
  define row where "row = session_columns c token csrf ua ip session"
  have d': "d' = d\<lparr>reads := reads d + 2, sessions := sessions d @ [row]\<rparr>" unfolding row_def by (rule issue_Inr(1) [OF i])
  have f: "session_drawn c rnd row (reads d)" by (simp add: session_drawn_def row_def session_columns_def issue_Inr(2) [OF i])
  have "rows_evolve same_session (session_drawn c rnd) (reads d, reads d') (sessions d) (sessions d @ [row])"
    by (rule rows_evolve_snoc [where i = "reads d"]) (use f in \<open>simp_all add: d'\<close>)
  then show ?thesis by (intro auth_evolves_sessions) (simp_all add: d')
qed

lemma revoke_where_evolves: "auth_evolves c rnd d (revoke_where p now d)"
proof (rule auth_evolves_sessions)
  show "rows_evolve same_session (session_drawn c rnd) (reads d, reads (revoke_where p now d)) (sessions d) (sessions (revoke_where p now d))"
    unfolding revoke_where_def
    by (simp, rule rows_evolve_upd) (auto simp: same_session_def)
qed (simp_all add: revoke_where_def)

lemma Authenticate_session_evolves: "auth_evolves c rnd d (snd (Authenticate_session c now cfg token d))"
proof -
  have t: "auth_evolves c rnd d (d\<lparr>sessions := map (touch h n e) (sessions d)\<rparr>)" for h n e
    by (rule auth_evolves_sessions) (simp_all, rule rows_evolve_map, simp add: touch_def same_session_def)
  show ?thesis
    by (auto simp: Authenticate_session_def Let_def auth_evolves_refl revoke_where_evolves t split: option.splits)
qed

lemma del_first_subset: "set (snd (del_first p n t)) \<subseteq> set t"
  by (induction p n t rule: del_first.induct) (auto split: prod.splits)

definition cleanup_limit :: "int \<Rightarrow> nat" where
  "cleanup_limit limit = nat (if limit < 1 \<or> limit > 1000 then 500 else limit)"

lemma Cleanup_sessions_eq:
  "Cleanup_sessions now limit d =
    (fst (del_first (stale (unix_milli now)) (cleanup_limit limit) (sessions d)),
     d\<lparr>sessions := snd (del_first (stale (unix_milli now)) (cleanup_limit limit) (sessions d))\<rparr>)"
  by (simp add: Cleanup_sessions_def cleanup_limit_def Let_def split_beta)

lemma Cleanup_sessions_evolves: "auth_evolves c rnd d (snd (Cleanup_sessions now limit d))"
  unfolding Cleanup_sessions_eq
  by (rule auth_evolves_sessions) (simp_all add: rows_evolve_sub del_first_subset)

lemma Create_token_evolves:
  assumes "Create_token c rnd now userID name scopes expires d = Inr (x, d')" shows "auth_evolves c rnd d d'"
  using assms
  by (intro auth_evolves_frame) (auto simp: Create_token_def Let_def rand_read_def bind_result_Inr split: if_splits)

lemma Revoke_token_evolves: "Revoke_token now userID tid d = Inr d' \<Longrightarrow> auth_evolves c rnd d d'"
  by (rule auth_evolves_frame) (auto simp: Revoke_token_def split: if_splits)

lemma Authenticate_token_evolves: "auth_evolves c rnd d (snd (Authenticate_token c' now1 now2 plaintext required d))"
  by (rule auth_evolves_frame) (auto simp: Authenticate_token_def Let_def split: option.splits)

lemma revoke_all_of_evolves: "auth_evolves c rnd d (revoke_all_of now userID d)"
  by (simp add: revoke_all_of_def RevokeAll_def auth_evolves_refl revoke_where_evolves)

lemma draw_codes_reads:
  "draw_codes rnd n d = (codes, d') \<Longrightarrow>
    d' = d\<lparr>reads := reads d + n\<rparr> \<and> codes = map (\<lambda>i. recovery_code (rnd i 10)) [reads d ..< reads d + n]"
proof (induction n arbitrary: d codes)
  case 0
  then show ?case by simp
next
  case (Suc n)
  obtain codes' where r: "draw_codes rnd n (d\<lparr>reads := Suc (reads d)\<rparr>) = (codes', d')" "codes = recovery_code (rnd (reads d) 10) # codes'"
    using Suc.prems by (auto simp: rand_read_def Let_def split: prod.splits)
  have "[reads d ..< reads d + Suc n] = reads d # [Suc (reads d) ..< Suc (reads d) + n]" by (simp add: upt_conv_Cons)
  then show ?case using Suc.IH [OF r(1)] r(2) by simp
qed

lemma newRecoveryCodes_eq:
  "newRecoveryCodes c rnd d =
    ((map (\<lambda>i. recovery_code (rnd i 10)) [reads d ..< reads d + 10], map (\<lambda>i. recoveryHash c (recovery_code (rnd i 10))) [reads d ..< reads d + 10]),
     d\<lparr>reads := reads d + 10\<rparr>)"
proof -
  obtain codes d' where "draw_codes rnd 10 d = (codes, d')" by force
  then show ?thesis using draw_codes_reads by (fastforce simp: newRecoveryCodes_def)
qed

lemma insert_codes_rows:
  "fold_result (insert_code userID now) hashes d = Inr d' \<Longrightarrow>
    d' = d\<lparr>recovery_codes := recovery_codes d @ map (\<lambda>h. \<lparr>rc_user_id = userID, rc_code_hash = h, rc_created_at = unix_milli now, rc_used_at = None\<rparr>) hashes\<rparr>"
proof (induction hashes arbitrary: d)
  case Nil
  then show ?case by simp
next
  case (Cons h hs)
  obtain e where e: "insert_code userID now h d = Inr e" "fold_result (insert_code userID now) hs e = Inr d'"
    using Cons.prems by (auto simp: bind_result_Inr)
  have "e = d\<lparr>recovery_codes := recovery_codes d @ [\<lparr>rc_user_id = userID, rc_code_hash = h, rc_created_at = unix_milli now, rc_used_at = None\<rparr>]\<rparr>"
    using e(1) by (auto simp: insert_code_def split: if_splits)
  then show ?case using Cons.IH [OF e(2)] by simp
qed

text \<open>The codes of an enrolment were drawn since \<open>d\<close>.\<close>

lemma store_enrollment_evolves:
  assumes "store_enrollment userID key now (map (\<lambda>i. recoveryHash c (recovery_code (rnd i 10))) [n ..< m]) e = Inr e'"
    "auth_evolves c rnd d e" "recovery_codes e = recovery_codes d" "reads d \<le> n" "m \<le> reads e"
  shows "auth_evolves c rnd d e'"
proof -
  define hashes where "hashes = map (\<lambda>i. recoveryHash c (recovery_code (rnd i 10))) [n ..< m]"
  define rows where "rows = map (\<lambda>h. \<lparr>rc_user_id = userID, rc_code_hash = h, rc_created_at = unix_milli now, rc_used_at = None\<rparr>) hashes"
  define e1 where "e1 = e\<lparr>recovery_codes := del_where (\<lambda>r. rc_user_id r = userID) (recovery_codes e)\<rparr>"
  obtain e2 where e2: "fold_result (insert_code userID now) hashes e1 = Inr e2"
    and e': "e' = e2\<lparr>users := upd_where (\<lambda>u. us_id u = userID)
        (\<lambda>u. u\<lparr>us_totp_enabled := True, us_totp_secret_key := Some key,
               us_mfa_changed_at := Some (unix_milli now), us_updated_at := unix_milli now\<rparr>) (users e2)\<rparr>"
    using assms(1) unfolding hashes_def [symmetric] store_enrollment_def Let_def e1_def [symmetric] bind_result_Inr by auto
  have e2': "e2 = e1\<lparr>recovery_codes := recovery_codes e1 @ rows\<rparr>" unfolding rows_def by (rule insert_codes_rows [OF e2])
  have codes: "recovery_codes e' = del_where (\<lambda>r. rc_user_id r = userID) (recovery_codes d) @ rows"
    by (simp add: e' e2' e1_def assms(3))
  have same: "sessions e' = sessions e" "setup_state e' = setup_state e" "reads e' = reads e" "map us_id (users e') = map us_id (users e)"
    by (simp_all add: e' e2' e1_def map_upd_where)
  have "rows_evolve same_code (code_drawn c rnd) (reads d, reads e') (recovery_codes d) (recovery_codes e')"
    unfolding rows_evolve_def
  proof
    fix r assume "r \<in> set (recovery_codes e')"
    then consider "r \<in> set (recovery_codes d)" | i where "n \<le> i" "i < m" "rc_code_hash r = recoveryHash c (recovery_code (rnd i 10))"
      unfolding codes rows_def hashes_def by auto
    then show "(\<exists>q \<in> set (recovery_codes d). same_code q r) \<or>
        (\<exists>i. fst (reads d, reads e') \<le> i \<and> i < snd (reads d, reads e') \<and> code_drawn c rnd r i)"
    proof cases
      case 1
      then show ?thesis using same_refl(2) by blast
    next
      case 2
      then show ?thesis using assms(4,5) same(3) unfolding code_drawn_def
        by (metis fst_conv snd_conv le_trans less_le_trans)
    qed
  qed
  moreover have "users_evolve d e'"
    using assms(2) same(4) map_eq_imp_length_eq [OF same(4)] by (auto simp: auth_evolves_def users_evolve_def)
  ultimately show ?thesis using assms(2) same by (simp add: auth_evolves_def setup_done_def)
qed

lemma Begin_evolves: "auth_evolves c rnd d (snd (snd (Begin c s rnd now user password (pend, d))))"
  by (rule auth_evolves_frame)
    (auto simp: Begin_def rand_read_def Let_def split: sum.splits)

lemma Confirm_evolves: "auth_evolves c rnd d (snd (snd (Confirm c s rnd clock userID code (pend, d))))"
proof -
  define hashes where "hashes = map (\<lambda>i. recoveryHash c (recovery_code (rnd i 10))) [reads d ..< reads d + 10]"
  define d1 where "d1 = d\<lparr>reads := reads d + 10\<rparr>"
  have d1: "auth_evolves c rnd d d1" by (rule auth_evolves_frame) (simp_all add: d1_def)
  define seed where "seed = pe_seed (the (map_of pend userID))"
  define key where "key = totp_key userID"
  have stored: "auth_evolves c rnd d (Delete_secret key d2)" "store_enrollment userID key (clock 4) hashes d2 = Inr d3 \<Longrightarrow> auth_evolves c rnd d (revoke_all_of (clock 5) userID d3)"
    if put: "Put_secret c s rnd (clock 3) key seed d1 = Inr d2" for d2 d3
  proof -
    have d2: "auth_evolves c rnd d d2" by (rule auth_evolves_trans [OF d1 Put_secret_evolves [OF put]])
    show "auth_evolves c rnd d (Delete_secret key d2)" by (rule auth_evolves_trans [OF d2 Delete_secret_evolves])
    assume st: "store_enrollment userID key (clock 4) hashes d2 = Inr d3"
    have "recovery_codes d2 = recovery_codes d" "reads d + 10 \<le> reads d2"
      using put by (auto simp: Put_secret_def rand_read_def Let_def d1_def split: option.splits if_splits)
    then have "auth_evolves c rnd d d3"
      using store_enrollment_evolves [OF st [unfolded hashes_def] d2] by simp
    then show "auth_evolves c rnd d (revoke_all_of (clock 5) userID d3)" by (rule auth_evolves_trans [OF _ revoke_all_of_evolves])
  qed
  show ?thesis
  proof (cases "map_of pend userID")
    case None
    then show ?thesis by (simp add: Confirm_def auth_evolves_refl)
  next
    case (Some p)
    then have p: "pe_seed p = seed" by (simp add: seed_def)
    show ?thesis using Some stored d1
      by (simp add: Confirm_def newRecoveryCodes_eq p d1_def [symmetric] key_def [symmetric] hashes_def [symmetric] auth_evolves_refl Let_def split: sum.splits)
  qed
qed

lemma use_code_evolves: "auth_evolves c rnd d (snd (use_code userID hash now d))"
proof -
  have "rows_evolve same_code (code_drawn c rnd) (n, m) t
      (upd_where (\<lambda>r. rc_user_id r = userID \<and> rc_code_hash r = hash \<and> rc_used_at r = None) (\<lambda>r. r\<lparr>rc_used_at := Some x\<rparr>) t)" for n m t x
    by (rule rows_evolve_upd) (auto simp: same_code_def)
  then show ?thesis
    by (simp add: use_code_def Let_def auth_evolves_refl) (simp add: auth_evolves_def users_evolve_def setup_done_def rows_evolve_sub)
qed

lemma Verify_mfa_evolves: "auth_evolves c rnd d (snd (Verify_mfa c s clock userID code d))"
  by (simp add: Verify_mfa_def Let_def auth_evolves_refl use_code_evolves split: option.splits)

definition mfa_off :: "string \<Rightarrow> int \<Rightarrow> auth_db \<Rightarrow> auth_db" where
  "mfa_off userID now d =
    d\<lparr>recovery_codes := del_where (\<lambda>r. rc_user_id r = userID) (recovery_codes d),
      users := upd_where (\<lambda>u. us_id u = userID)
        (\<lambda>u. u\<lparr>us_totp_enabled := False, us_totp_secret_key := None,
               us_mfa_changed_at := Some now, us_updated_at := now\<rparr>) (users d)\<rparr>"

lemma mfa_off_evolves: "auth_evolves c rnd d (mfa_off userID now d)"
proof -
  have m: "map us_id (users (mfa_off userID now d)) = map us_id (users d)" by (simp add: mfa_off_def map_upd_where)
  have "users_evolve d (mfa_off userID now d)" using m map_eq_imp_length_eq [OF m] by (auto simp: users_evolve_def)
  then show ?thesis by (simp add: auth_evolves_def) (simp add: mfa_off_def setup_done_def rows_evolve_sub del_where_subset)
qed

lemma Disable_mfa_evolves: "auth_evolves c rnd d (snd (Disable_mfa c s clock user password code d))"
proof -
  define v where "v = Verify_mfa c s clock (user_ID user) code d"
  have v: "auth_evolves c rnd d (snd v)" unfolding v_def by (rule Verify_mfa_evolves)
  have off: "auth_evolves c rnd d (revoke_all_of t u (mfa_off w n (snd v)))" for t u w n
    by (rule auth_evolves_trans [OF auth_evolves_trans [OF v mfa_off_evolves] revoke_all_of_evolves])
  have del: "auth_evolves c rnd d (revoke_all_of t u (Delete_secret k (mfa_off w n (snd v))))" for t u w n k
    by (rule auth_evolves_trans [OF auth_evolves_trans [OF auth_evolves_trans [OF v mfa_off_evolves] Delete_secret_evolves] revoke_all_of_evolves])
  obtain e d1 where e: "v = (e, d1)" by force
  show ?thesis
    unfolding Disable_mfa_def v_def [symmetric] e Let_def mfa_off_def [symmetric]
    using v off del by (simp add: e auth_evolves_refl split: sum.splits option.splits)
qed

subsection \<open>Steps\<close>

text \<open>
  One step is one call of an operation that writes, by any client, with any arguments and at any
  time. Secrets of other components are kept in the same table under other names.
\<close>

inductive auth_step :: "crypto \<Rightarrow> rand \<Rightarrow> pending \<times> auth_db \<Rightarrow> pending \<times> auth_db \<Rightarrow> bool" for c rnd where
  as_create: "CreateAdmin c procs rnd now username password d = Inr (u, d') \<Longrightarrow> auth_step c rnd (p, d) (p, d')"
| as_bootstrap: "BootstrapAdmin c procs rnd now getenv readFile d = Inr (b, d') \<Longrightarrow> auth_step c rnd (p, d) (p, d')"
| as_initialize: "Initialize c net rnd now listen configured d = Inr (g, d') \<Longrightarrow> auth_step c rnd (p, d) (p, d')"
| as_claim: "Claim c procs rnd now token username password d = Inr (u, d') \<Longrightarrow> auth_step c rnd (p, d) (p, d')"
| as_disable_setup: "auth_step c rnd (p, d) (p, Disable_setup now d)"
| as_put: "Put_secret c s rnd now key text d = Inr d' \<Longrightarrow> auth_step c rnd (p, d) (p, d')"
| as_delete: "auth_step c rnd (p, d) (p, Delete_secret key d)"
| as_issue: "issue c rnd now cfg userID ua ip m subject d = Inr (x, d') \<Longrightarrow> auth_step c rnd (p, d) (p, d')"
| as_authenticate: "auth_step c rnd (p, d) (p, snd (Authenticate_session c now cfg token d))"
| as_revoke: "Revoke_session c now token d = Inr d' \<Longrightarrow> auth_step c rnd (p, d) (p, d')"
| as_revoke_all: "RevokeAll now userID d = Inr d' \<Longrightarrow> auth_step c rnd (p, d) (p, d')"
| as_cleanup: "auth_step c rnd (p, d) (p, snd (Cleanup_sessions now limit d))"
| as_begin: "auth_step c rnd (p, d) (snd (Begin c s rnd now user password (p, d)))"
| as_confirm: "auth_step c rnd (p, d) (snd (Confirm c s rnd clock userID code (p, d)))"
| as_verify: "auth_step c rnd (p, d) (p, snd (Verify_mfa c s clock userID code d))"
| as_disable_mfa: "auth_step c rnd (p, d) (p, snd (Disable_mfa c s clock user password code d))"
| as_token: "Create_token c rnd now userID name scopes expires d = Inr (y, d') \<Longrightarrow> auth_step c rnd (p, d) (p, d')"
| as_revoke_token: "Revoke_token now userID tid d = Inr d' \<Longrightarrow> auth_step c rnd (p, d) (p, d')"
| as_use_token: "auth_step c rnd (p, d) (p, snd (Authenticate_token c now1 now2 plaintext required d))"

lemma auth_step_evolves: "auth_step c rnd x y \<Longrightarrow> auth_evolves c rnd (snd x) (snd y)"
proof (induction rule: auth_step.induct)
  case (as_revoke now token d d' p)
  then show ?case by (auto simp: Revoke_session_def revoke_where_evolves split: if_splits)
next
  case (as_revoke_all now userID d d' p)
  then show ?case by (auto simp: RevokeAll_def revoke_where_evolves split: if_splits)
qed (simp_all add: CreateAdmin_evolves BootstrapAdmin_evolves Initialize_evolves Claim_evolves Disable_setup_evolves
  Put_secret_evolves Delete_secret_evolves issue_evolves Authenticate_session_evolves Cleanup_sessions_evolves
  Begin_evolves Confirm_evolves Verify_mfa_evolves Disable_mfa_evolves Create_token_evolves Revoke_token_evolves
  Authenticate_token_evolves)

text \<open>A state that evolves by a contract with every step evolves by it over any number of steps.\<close>

locale evolving =
  fixes step :: "'s \<Rightarrow> 's \<Rightarrow> bool" and view :: "'s \<Rightarrow> 'd" and ev :: "'d \<Rightarrow> 'd \<Rightarrow> bool"
  assumes ev_refl: "ev d d" and ev_trans: "ev d e \<Longrightarrow> ev e f \<Longrightarrow> ev d f"
    and ev_step: "step x y \<Longrightarrow> ev (view x) (view y)"
begin

lemma steps_evolve: "step\<^sup>*\<^sup>* x y \<Longrightarrow> ev (view x) (view y)"
  by (induction rule: rtranclp_induct) (auto intro: ev_refl ev_trans ev_step)

end

interpretation auth: evolving "auth_step c rnd" snd "auth_evolves c rnd" for c rnd
  by unfold_locales (auto intro: auth_evolves_refl auth_evolves_trans auth_step_evolves)

text \<open>
  Credentials that are stored as hashes: whatever is accepted has a stored hash, so that without
  a collision it is one of the credentials that were handed out.
\<close>

locale hashed_credentials =
  fixes hash :: "string \<Rightarrow> string" and stored :: "'d \<Rightarrow> string set" and accepts :: "'d \<Rightarrow> string \<Rightarrow> bool"
  assumes accepted_stored: "accepts d t \<Longrightarrow> hash t \<in> stored d"
begin

lemma no_forgery:
  assumes "accepts d t" "stored d \<subseteq> hash ` issued" "\<And>u. u \<in> issued \<Longrightarrow> hash t = hash u \<Longrightarrow> t = u"
  shows "t \<in> issued"
  using accepted_stored [OF assms(1)] assms(2,3) by blast

end

definition session_accepts :: "crypto \<Rightarrow> time \<Rightarrow> SessionConfig \<Rightarrow> auth_db \<Rightarrow> string \<Rightarrow> bool" where
  "session_accepts c now cfg d t = (\<not> isl (fst (Authenticate_session c now cfg t d)))"

definition token_accepts :: "crypto \<Rightarrow> time \<Rightarrow> time \<Rightarrow> string \<Rightarrow> auth_db \<Rightarrow> string \<Rightarrow> bool" where
  "token_accepts c now1 now2 required d t = (fst (Authenticate_token c now1 now2 t required d) = None)"

interpretation session_tokens: hashed_credentials "tokenHash c" "\<lambda>d. se_id_hash ` set (sessions d)" "session_accepts c now cfg" for c now cfg
proof
  fix d t assume "session_accepts c now cfg d t"
  then obtain r where r: "find (\<lambda>r. se_id_hash r = tokenHash c t) (sessions d) = Some r"
    by (cases "find (\<lambda>r. se_id_hash r = tokenHash c t) (sessions d)") (auto simp: session_accepts_def Authenticate_session_def Let_def split: if_splits)
  show "tokenHash c t \<in> se_id_hash ` set (sessions d)"
    using find_Some_in [OF r] unfolding image_iff by (intro bexI [of _ r]) simp_all
qed

interpretation bearer_tokens: hashed_credentials "apiTokenHash c" "\<lambda>d. at_token_hash ` set (api_tokens d)" "token_accepts c now1 now2 required" for c now1 now2 required
proof
  fix d t assume "token_accepts c now1 now2 required d t"
  then obtain r where r: "find (\<lambda>r. at_token_hash r = apiTokenHash c t) (api_tokens d) = Some r"
    by (cases "find (\<lambda>r. at_token_hash r = apiTokenHash c t) (api_tokens d)") (auto simp: token_accepts_def Authenticate_token_def split: if_splits)
  show "apiTokenHash c t \<in> at_token_hash ` set (api_tokens d)"
    using find_Some_in [OF r] unfolding image_iff by (intro bexI [of _ r]) simp_all
qed

subsection \<open>Properties\<close>

text \<open>
  C15. There is never more than one administrator: in every state the operations lead to, the
  table of users has at most one row, and once it has one neither the browser setup nor the
  bootstrap creates another.
\<close>

theorem single_administrator:
  assumes "(auth_step c rnd)\<^sup>*\<^sup>* ([], empty_auth) (p, d)"
  shows "length (users d) \<le> 1 \<and>
    (users d = [] \<or> (isl (CreateAdmin c procs rnd now username password d) \<and> isl (Claim c procs rnd now token username password d)))"
proof -
  have "auth_evolves c rnd empty_auth d" using auth.steps_evolve [OF assms] by simp
  then have one: "length (users d) \<le> 1" by (simp add: auth_evolves_def users_evolve_def empty_auth_def)
  have "isl (CreateAdmin c procs rnd now username password d)" if "users d \<noteq> []"
    using that CreateAdmin_Inr(1) by (metis isl_def sum.exhaust surj_pair)
  moreover have "isl (Claim c procs rnd now token username password d)" if "users d \<noteq> []"
    using that Claim_Inr(1) by (metis isl_def sum.exhaust surj_pair)
  ultimately show ?thesis using one by blast
qed

text \<open>
  C16. The setup token works once: after a claim no token is accepted any more, whatever the
  operations that follow.
\<close>

theorem setup_token_once:
  assumes "Claim c procs rnd now token username password d = Inr (u, d1)"
    and "(auth_step c rnd)\<^sup>*\<^sup>* (p1, d1) (p2, d2)"
  shows "Verify_setup c now' token' d2 = Some ErrSetupToken \<and> \<not> Available_setup now' d2 \<and>
    isl (Claim c procs' rnd now' token' username' password' d2)"
proof -
  have "setup_done d1" using Claim_Inr(2) [OF assms(1)] by (auto simp: setup_done_def)
  then have d2: "setup_done d2" using auth.steps_evolve [OF assms(2)] by (simp add: auth_evolves_def)
  then obtain r where r: "setup_state d2 = Some r" "su_claimed_at r \<noteq> None"
    by (auto simp: setup_done_def split: option.splits)
  have "users d2 \<noteq> []"
    using Claim_Inr(2) [OF assms(1)] auth.steps_evolve [OF assms(2)] by (auto simp: auth_evolves_def users_evolve_def)
  then have "isl (Claim c procs' rnd now' token' username' password' d2)"
    using Claim_Inr(1) by (metis isl_def sum.exhaust surj_pair)
  then show ?thesis using r by (auto simp: Verify_setup_def Available_setup_def setup_token_ok_def Let_def)
qed

text \<open>
  C17. Only session tokens that were drawn are accepted: in every state the operations lead to, a
  token that authenticates is one of the random tokens drawn so far, unless the hash collides.
\<close>

theorem session_unforgeable:
  assumes "(auth_step c rnd)\<^sup>*\<^sup>* ([], empty_auth) (p, d)"
    and "\<not> isl (fst (Authenticate_session c now cfg token d))"
    and "\<And>i. sha256 c token = sha256 c (base64url_encode (rnd i 32)) \<Longrightarrow> token = base64url_encode (rnd i 32)"
  shows "\<exists>i < reads d. token = base64url_encode (rnd i 32)"
proof -
  define issued where "issued = (\<lambda>i. base64url_encode (rnd i 32)) ` {..< reads d}"
  have "auth_evolves c rnd empty_auth d" using auth.steps_evolve [OF assms(1)] by simp
  then have rows: "\<forall>r \<in> set (sessions d). \<exists>i. i < reads d \<and> session_drawn c rnd r i"
    by (simp add: auth_evolves_def rows_evolve_def empty_auth_def)
  have sub: "se_id_hash ` set (sessions d) \<subseteq> tokenHash c ` issued"
  proof
    fix h assume "h \<in> se_id_hash ` set (sessions d)"
    then obtain r where "r \<in> set (sessions d)" "h = se_id_hash r" by blast
    then obtain i where "i < reads d" "h = tokenHash c (base64url_encode (rnd i 32))"
      using rows by (auto simp: session_drawn_def)
    then show "h \<in> tokenHash c ` issued" unfolding issued_def by blast
  qed
  have acc: "session_accepts c now cfg d token" using assms(2) by (simp add: session_accepts_def)
  have free: "token = u" if u: "u \<in> issued" "tokenHash c token = tokenHash c u" for u
  proof -
    obtain i where i: "u = base64url_encode (rnd i 32)" using u(1) by (auto simp: issued_def)
    have "sha256 c token = sha256 c u" using u(2) unfolding tokenHash_def by (rule base64_encode_inj)
    then show ?thesis using assms(3) [of i] i by simp
  qed
  have "token \<in> issued" by (rule session_tokens.no_forgery [OF acc sub free])
  then show ?thesis by (auto simp: issued_def)
qed

text \<open>The session of a token is over when each of its rows is revoked or past its absolute end.\<close>

definition session_over :: "crypto \<Rightarrow> string \<Rightarrow> time \<Rightarrow> auth_db \<Rightarrow> bool" where
  "session_over c token now d =
    list_all (\<lambda>r. se_id_hash r = tokenHash c token \<longrightarrow>
      se_revoked_at r \<noteq> None \<or> from_milli (se_absolute_expires_at r) \<le> now) (sessions d)"

lemma session_over_invalid:
  assumes "session_over c token now d" shows "fst (Authenticate_session c now cfg token d) = Inl ErrSessionInvalid"
proof (cases "find (\<lambda>r. se_id_hash r = tokenHash c token) (sessions d)")
  case None
  then show ?thesis by (simp add: Authenticate_session_def)
next
  case (Some r)
  then have "se_revoked_at r \<noteq> None \<or> from_milli (se_absolute_expires_at r) \<le> now"
    using find_Some_in [OF Some] assms by (auto simp: session_over_def list_all_iff)
  then show ?thesis using Some by (auto simp: Authenticate_session_def Let_def)
qed

text \<open>
  C18. A session that is over stays over: once it is revoked or has reached its absolute end, no
  operation brings it back, provided its token is not drawn again.
\<close>

theorem session_over_for_good:
  assumes "session_over c token now d" "now \<le> later" "(auth_step c rnd)\<^sup>*\<^sup>* (p, d) (p', d')"
    and "\<And>i. reads d \<le> i \<Longrightarrow> tokenHash c (base64url_encode (rnd i 32)) \<noteq> tokenHash c token"
  shows "fst (Authenticate_session c later cfg token d') = Inl ErrSessionInvalid"
proof -
  have ev: "rows_evolve same_session (session_drawn c rnd) (reads d, reads d') (sessions d) (sessions d')"
    using auth.steps_evolve [OF assms(3)] by (simp add: auth_evolves_def)
  have "session_over c token later d'" unfolding session_over_def list_all_iff
  proof (intro ballI impI)
    fix r' assume r': "r' \<in> set (sessions d')" "se_id_hash r' = tokenHash c token"
    then obtain r where r: "r \<in> set (sessions d)" "same_session r r'"
      using ev assms(4) unfolding rows_evolve_def session_drawn_def by fastforce
    then have "se_revoked_at r \<noteq> None \<or> from_milli (se_absolute_expires_at r) \<le> now"
      using assms(1) r'(2) by (auto simp: session_over_def list_all_iff same_session_def)
    then show "se_revoked_at r' \<noteq> None \<or> from_milli (se_absolute_expires_at r') \<le> later"
      using r(2) assms(2) by (auto simp: same_session_def)
  qed
  then show ?thesis by (rule session_over_invalid)
qed

text \<open>
  Revoking ends a session: after \<open>Revoke\<close> of its token, and after \<open>RevokeAll\<close> of its user, the
  session is over.
\<close>

theorem revoke_ends_session:
  "(Revoke_session c now token d = Inr d1 \<longrightarrow> session_over c token now d1) \<and>
   (RevokeAll now userID d = Inr d2 \<and> list_all (\<lambda>r. se_id_hash r = tokenHash c token \<longrightarrow> se_user_id r = userID) (sessions d) \<longrightarrow>
    session_over c token now d2)"
proof -
  have over: "session_over c token now (revoke_where q now d)"
    if "\<And>r. r \<in> set (sessions d) \<Longrightarrow> se_id_hash r = tokenHash c token \<Longrightarrow> q r" for q
    unfolding session_over_def list_all_iff
  proof (intro ballI impI)
    fix r' assume r': "r' \<in> set (sessions (revoke_where q now d))" "se_id_hash r' = tokenHash c token"
    from r'(1) have "r' \<in> set (upd_where q (\<lambda>r. r\<lparr>se_revoked_at := (case se_revoked_at r of None \<Rightarrow> Some (unix_milli now) | Some t \<Rightarrow> Some t)\<rparr>) (sessions d))"
      by (simp add: revoke_where_def)
    then obtain r where "r \<in> set (sessions d)" and r: "r' = (if q r then r\<lparr>se_revoked_at := (case se_revoked_at r of None \<Rightarrow> Some (unix_milli now) | Some t \<Rightarrow> Some t)\<rparr> else r)"
      by (rule upd_whereE)
    then have "q r" using that r'(2) by (simp split: if_splits)
    then show "se_revoked_at r' \<noteq> None \<or> from_milli (se_absolute_expires_at r') \<le> now"
      by (simp add: r split: option.splits)
  qed
  show ?thesis
  proof (intro conjI impI)
    assume "Revoke_session c now token d = Inr d1"
    then have "d1 = revoke_where (\<lambda>r. se_id_hash r = tokenHash c token) now d" by (simp add: Revoke_session_def split: if_splits)
    then show "session_over c token now d1" using over [of "\<lambda>r. se_id_hash r = tokenHash c token"] by simp
  next
    assume a: "RevokeAll now userID d = Inr d2 \<and> list_all (\<lambda>r. se_id_hash r = tokenHash c token \<longrightarrow> se_user_id r = userID) (sessions d)"
    then have "d2 = revoke_where (\<lambda>r. se_user_id r = userID) now d" by (simp add: RevokeAll_def split: if_splits)
    then show "session_over c token now d2" using over [of "\<lambda>r. se_user_id r = userID"] a by (simp add: list_all_iff)
  qed
qed

text \<open>
  C19. A recovery code works once: after \<open>Verify\<close> has accepted it, the same code is accepted again
  only where no second factor is asked for or the code is a current one-time password, unless a
  later enrolment draws it anew.
\<close>

theorem recovery_code_once:
  assumes "use_code userID (recoveryHash c code) now d = (None, d1)"
    and "(auth_step c rnd)\<^sup>*\<^sup>* (p1, d1) (p2, d2)"
    and "\<And>i. reads d1 \<le> i \<Longrightarrow> recoveryHash c (recovery_code (rnd i 10)) \<noteq> recoveryHash c code"
    and "fst (Verify_mfa c s clock userID code d2) = None"
  shows "Enabled userID d2 = Inr False \<or>
    (\<exists>key seed. Get_secret c s key d2 = Inr seed \<and> VerifyTOTP c seed code (clock 0))"
proof -
  define h where "h = recoveryHash c code"
  have d1: "recovery_codes d1 = upd_where (\<lambda>r. rc_user_id r = userID \<and> rc_code_hash r = h \<and> rc_used_at r = None)
      (\<lambda>r. r\<lparr>rc_used_at := Some (unix_milli now)\<rparr>) (recovery_codes d)"
    using assms(1) unfolding h_def [symmetric] by (auto simp: use_code_def Let_def split: if_splits)
  have used: "rc_used_at r \<noteq> None" if r: "r \<in> set (recovery_codes d1)" "rc_user_id r = userID" "rc_code_hash r = h" for r
    using r(1) unfolding d1
  proof (rule upd_whereE)
    fix n assume "r = (if rc_user_id n = userID \<and> rc_code_hash n = h \<and> rc_used_at n = None then n\<lparr>rc_used_at := Some (unix_milli now)\<rparr> else n)"
    then show ?thesis using r(2,3) by (simp split: if_splits)
  qed
  have ev: "rows_evolve same_code (code_drawn c rnd) (reads d1, reads d2) (recovery_codes d1) (recovery_codes d2)"
    using auth.steps_evolve [OF assms(2)] by (simp add: auth_evolves_def)
  have "rc_used_at r \<noteq> None" if r: "r \<in> set (recovery_codes d2)" "rc_user_id r = userID" "rc_code_hash r = h" for r
  proof -
    have "\<not> (reads d1 \<le> i \<and> code_drawn c rnd r i)" for i
      using assms(3) [of i] r(3) unfolding code_drawn_def h_def by auto
    then obtain q where q: "q \<in> set (recovery_codes d1)" "same_code q r" using ev r(1) unfolding rows_evolve_def by auto
    then have "rc_used_at q \<noteq> None" using r(2,3) by (intro used) (simp_all add: same_code_def)
    then show ?thesis using q(2) by (simp add: same_code_def)
  qed
  then have "\<forall>r \<in> set (recovery_codes d2). \<not> (rc_user_id r = userID \<and> rc_code_hash r = h \<and> rc_used_at r = None)" by blast
  then have "count_where (\<lambda>r. rc_user_id r = userID \<and> rc_code_hash r = h \<and> rc_used_at r = None) (recovery_codes d2) = 0"
    by (rule count_where_0_iff [THEN iffD2])
  then have spent: "fst (use_code userID h (clock 1) d2) \<noteq> None" by (simp add: use_code_def Let_def)
  obtain u where u: "find (\<lambda>u. us_id u = userID) (users d2) = Some u"
    using assms(4) by (cases "find (\<lambda>u. us_id u = userID) (users d2)") (simp_all add: Verify_mfa_def)
  show ?thesis
  proof (cases "us_totp_enabled u")
    case False
    then show ?thesis using u by (simp add: Enabled_def)
  next
    case True
    then have "case Get_secret c s (coalesce [] (us_totp_secret_key u)) d2 of Inl _ \<Rightarrow> False | Inr seed \<Rightarrow> VerifyTOTP c seed code (clock 0)"
      using assms(4) spent u unfolding Verify_mfa_def h_def [symmetric] Let_def by (simp split: if_splits)
    then show ?thesis by (auto split: sum.splits)
  qed
qed

end
