(* ===== verification/Auth_Properties.thy ===== *)
theory Auth_Properties
  imports Auth_System
begin

section \<open>Tokens, codes and the clean-up\<close>

text \<open>
  The hourly clean-up ends and is complete, an API token works for its scopes until it expires
  or is revoked, and a one-time password is accepted around its time.
\<close>

subsection \<open>The clean-up\<close>

lemma del_first_few: "fst (del_first p n t) < n \<Longrightarrow> r \<in> set (snd (del_first p n t)) \<Longrightarrow> \<not> p r"
  by (induction p n t rule: del_first.induct) (auto split: prod.splits if_splits)

lemma del_first_keep: "r \<in> set t \<Longrightarrow> \<not> p r \<Longrightarrow> r \<in> set (snd (del_first p n t))"
  by (induction p n t rule: del_first.induct) (auto split: prod.splits)

lemma stale_mono: "a \<le> b \<Longrightarrow> stale a r \<Longrightarrow> stale b r"
  by (auto simp: stale_def split: option.splits)

lemma cleanup_tick_step:
  "cleanup_tick clock i d =
    (let rows = snd (del_first (stale (unix_milli (clock i))) 500 (sessions d));
         n = fst (del_first (stale (unix_milli (clock i))) 500 (sessions d))
     in if n < 500 then (i + 1, d\<lparr>sessions := rows\<rparr>) else cleanup_tick clock (i + 1) (d\<lparr>sessions := rows\<rparr>))"
  by (subst cleanup_tick.simps) (simp add: Cleanup_sessions_eq cleanup_limit_def Let_def)

text \<open>
  C23. The clean-up of sessions ends: with a clock that does not go back, a tick makes at most one
  round per 500 sessions and one more, after it no session is left that was over when the tick
  began, and a session that is not over at any reading of the clock is kept.
\<close>

theorem cleanup_complete:
  assumes "\<And>j. clock j \<le> clock (Suc j)" and "cleanup_tick clock i d = (n, d')"
  shows "n \<le> i + 1 + length (sessions d) div 500
    \<and> set (sessions d') \<subseteq> {r \<in> set (sessions d). \<not> stale (unix_milli (clock i)) r}
    \<and> {r \<in> set (sessions d). \<forall>j. \<not> stale (unix_milli (clock j)) r} \<subseteq> set (sessions d')"
  using assms(2)
proof (induction "length (sessions d)" arbitrary: i d rule: less_induct)
  case less
  define p where "p = stale (unix_milli (clock i))"
  define k where "k = fst (del_first p 500 (sessions d))"
  define rows where "rows = snd (del_first p 500 (sessions d))"
  have len: "k + length rows = length (sessions d)" by (simp add: k_def rows_def del_first_length)
  have sub: "set rows \<subseteq> set (sessions d)" unfolding rows_def by (rule del_first_subset)
  have keep: "r \<in> set rows" if "r \<in> set (sessions d)" "\<not> p r" for r
    unfolding rows_def using that by (intro del_first_keep)
  have step: "cleanup_tick clock i d =
      (if k < 500 then (i + 1, d\<lparr>sessions := rows\<rparr>) else cleanup_tick clock (i + 1) (d\<lparr>sessions := rows\<rparr>))"
    by (subst cleanup_tick_step) (simp only: Let_def p_def k_def rows_def)
  show ?case
  proof (cases "k < 500")
    case True
    then have n: "n = i + 1" "sessions d' = rows" using less.prems by (auto simp: step)
    have "\<not> p r" if "r \<in> set rows" for r
      using del_first_few [of p 500 "sessions d"] True that by (simp add: k_def rows_def)
    then show ?thesis using n sub keep by (auto simp: p_def)
  next
    case False
    then have t: "cleanup_tick clock (i + 1) (d\<lparr>sessions := rows\<rparr>) = (n, d')" using less.prems by (simp add: step)
    have "length (sessions (d\<lparr>sessions := rows\<rparr>)) < length (sessions d)" using len False by simp
    note IH = less.hyps [OF this t, simplified]
    have "Suc (length rows div 500) = (length rows + 500) div 500" by simp
    also have "\<dots> \<le> length (sessions d) div 500" using len False by (intro div_le_mono) simp
    finally have "n \<le> i + 1 + length (sessions d) div 500" using IH by simp
    moreover have "\<not> p r" if "\<not> stale (unix_milli (clock (Suc i))) r" for r
      using that stale_mono [OF unix_milli_mono [OF assms(1)], of i r] unfolding p_def by blast
    ultimately show ?thesis using IH sub keep by (auto simp: p_def)
  qed
qed

subsection \<open>API tokens\<close>

lemma token_text_shape:
  assumes "\<And>i n. length (rnd i n) = n"
  shows "length (token_text (rnd i 8) (rnd j 32)) = 64" "has_prefix (token_text (rnd i 8) (rnd j 32)) ''bnk_''"
  using assms by (simp_all add: token_text_def hex_encode_def base64url_encode_def encode_with_length has_prefix_def)

lemma Create_token_Inr:
  assumes "Create_token c rnd now userID name scopes expires d = Inr ((tok, plain), d1)"
  shows "plain = token_text (rnd (reads d) 8) (rnd (Suc (reads d)) 32)"
    and "\<exists>row. api_tokens d1 = api_tokens d @ [row] \<and> at_token_hash row = apiTokenHash c plain \<and> at_id row = tok_ID tok \<and>
      at_user_id row = userID \<and> set (at_scopes row) = set scopes \<and> at_expires_at row = map_option unix_milli expires \<and>
      at_revoked_at row = None \<and> (\<forall>r \<in> set (api_tokens d). at_id r \<noteq> at_id row \<and> at_token_hash r \<noteq> at_token_hash row)"
proof -
  obtain sc where sc: "normalizeScopes scopes = Inr sc"
    using assms by (auto simp: Create_token_def Let_def bind_result_Inr split: if_splits)
  have set: "set sc = set scopes" using sc by (auto simp: normalizeScopes_def split: if_splits option.splits)
  show "plain = token_text (rnd (reads d) 8) (rnd (Suc (reads d)) 32)"
    using assms sc by (auto simp: Create_token_def rand_read_def Let_def split: if_splits)
  then show "\<exists>row. api_tokens d1 = api_tokens d @ [row] \<and> at_token_hash row = apiTokenHash c plain \<and> at_id row = tok_ID tok \<and>
      at_user_id row = userID \<and> set (at_scopes row) = set scopes \<and> at_expires_at row = map_option unix_milli expires \<and>
      at_revoked_at row = None \<and> (\<forall>r \<in> set (api_tokens d). at_id r \<noteq> at_id row \<and> at_token_hash r \<noteq> at_token_hash row)"
    using assms sc set by (auto simp: Create_token_def rand_read_def Let_def list_ex_iff split: if_splits)
qed

text \<open>
  An API token works as it was made: until it expires it is accepted for each of its scopes
  and refused for the others; its owner can revoke it, and then it is refused for good.
\<close>

theorem api_token_lifecycle:
  assumes "\<And>i n. length (rnd i n) = n"
    and "Create_token c rnd now userID name scopes expires d = Inr ((tok, plain), d1)"
    and "case expires of None \<Rightarrow> True | Some e \<Rightarrow> unix_milli now1 < unix_milli e"
  shows "fst (Authenticate_token c now1 now2 plain scope d1) = (if scope \<in> set scopes then None else Some ErrAPIScopeInsufficient)
    \<and> (case Revoke_token now3 userID (tok_ID tok) d1 of Inl _ \<Rightarrow> False
       | Inr d2 \<Rightarrow> fst (Authenticate_token c now4 now5 plain scope d2) = Some ErrAPITokenInvalid)"
proof -
  obtain row where row: "api_tokens d1 = api_tokens d @ [row]" "at_token_hash row = apiTokenHash c plain" "at_id row = tok_ID tok"
      "at_user_id row = userID" "set (at_scopes row) = set scopes" "at_expires_at row = map_option unix_milli expires"
      "at_revoked_at row = None" and fresh: "\<forall>r \<in> set (api_tokens d). at_id r \<noteq> at_id row \<and> at_token_hash r \<noteq> at_token_hash row"
    using Create_token_Inr(2) [OF assms(2)] by blast
  have plain: "has_prefix plain ''bnk_''" "length plain \<le> 128"
    using token_text_shape [where rnd = rnd, OF assms(1)] by (simp_all add: Create_token_Inr(1) [OF assms(2)])
  have none: "find (\<lambda>r. at_token_hash r = apiTokenHash c plain) (api_tokens d) = None" using fresh row(2) by (simp add: find_None)
  then have found: "find (\<lambda>r. at_token_hash r = apiTokenHash c plain) (api_tokens d1) = Some row"
    by (simp add: row(1,2) find_append)
  have live: "\<not> (case at_expires_at row of None \<Rightarrow> False | Some e \<Rightarrow> e \<le> unix_milli now1)"
    using assms(3) by (simp add: row(6) split: option.splits)
  have 1: "fst (Authenticate_token c now1 now2 plain scope d1) = (if scope \<in> set scopes then None else Some ErrAPIScopeInsufficient)"
    using plain live row(5,7) by (simp add: Authenticate_token_def found list_ex_iff Let_def)
  have others: "count_where (\<lambda>r. at_id r = tok_ID tok \<and> at_user_id r = userID) (api_tokens d) = 0"
    using fresh row(3) by (simp add: count_where_0_iff)
  have miss: "upd_where (\<lambda>r. at_id r = tok_ID tok \<and> at_user_id r = userID) f (api_tokens d) = api_tokens d" for f
    by (rule upd_where_none) (use fresh row(3) in auto)
  obtain d2 where d2: "Revoke_token now3 userID (tok_ID tok) d1 = Inr d2"
      "api_tokens d2 = api_tokens d @ [row\<lparr>at_revoked_at := Some (unix_milli now3)\<rparr>]"
    by (simp add: Revoke_token_def row(1,3,4,7) others miss)
  have "find (\<lambda>r. at_token_hash r = apiTokenHash c plain) (api_tokens d2) = Some (row\<lparr>at_revoked_at := Some (unix_milli now3)\<rparr>)"
    using none by (simp add: d2(2) row(2) find_append)
  then have "fst (Authenticate_token c now4 now5 plain scope d2) = Some ErrAPITokenInvalid" using plain by (simp add: Authenticate_token_def)
  then show ?thesis using 1 d2(1) by simp
qed

subsection \<open>One-time passwords\<close>

lemma show_nat_length: "n < 10 ^ k \<Longrightarrow> 0 < k \<Longrightarrow> length (show_nat n) \<le> k"
proof (induction k arbitrary: n)
  case 0
  then show ?case by simp
next
  case (Suc k)
  show ?case
  proof (cases "n < 10")
    case True
    then show ?thesis by (simp add: show_nat.simps)
  next
    case False
    then have k: "0 < k" using Suc.prems(1) by (cases k) auto
    have "n div 10 < 10 ^ k" using Suc.prems(1) by (simp add: less_mult_imp_div_less mult.commute)
    then show ?thesis using Suc.IH [OF _ k] False by (subst show_nat.simps) simp
  qed
qed

lemma pad6_digits:
  assumes "n < 1000000" shows "length (pad6 n) = 6" "list_all is_digit (pad6 n)" "nat_of_digits (pad6 n) = n"
proof -
  have l: "length (show_nat n) \<le> 6" using show_nat_length [of n 6] assms by simp
  have z: "nat_of_digits (replicate k CHR ''0'' @ s) = nat_of_digits s" for k s
    by (induction k) (simp_all add: nat_of_digits_def digit_val_def)
  show "length (pad6 n) = 6" using l by (simp add: pad6_def Let_def)
  show "list_all is_digit (pad6 n)" using show_nat_digits [of n] by (auto simp: pad6_def Let_def list_all_iff is_digit_def)
  show "nat_of_digits (pad6 n) = n" by (simp add: pad6_def Let_def z)
qed

lemma atoi_digits:
  assumes "s \<noteq> []" "list_all is_digit s" "in_int64 (int (nat_of_digits s))"
  shows "atoi s = Some (int (nat_of_digits s))"
proof -
  obtain ch cs where s: "s = ch # cs" using assms(1) by (cases s) auto
  have "is_digit ch" using assms(2) by (simp add: s)
  then have "ch \<noteq> CHR ''-''" "ch \<noteq> CHR ''+''" by (auto simp: is_digit_def)
  then have "atoi (ch # cs) = (case map_option int (parse_digits (ch # cs)) of Some i \<Rightarrow> if in_int64 i then Some i else None | None \<Rightarrow> None)"
    unfolding atoi_def Let_def by (auto split: char.splits bool.splits)
  then show ?thesis using assms by (simp add: s parse_digits_def)
qed

lemma TOTP_code: "length (TOTP c seed t) = 6" "list_all is_digit (TOTP c seed t)" "atoi (TOTP c seed t) \<noteq> None"
proof -
  obtain n where n: "TOTP c seed t = pad6 (n mod 1000000)" by (auto simp: TOTP_def Let_def)
  have m: "n mod 1000000 < 1000000" by simp
  note p = pad6_digits [OF m]
  show l: "length (TOTP c seed t) = 6" and d: "list_all is_digit (TOTP c seed t)" using p by (simp_all add: n)
  have "in_int64 (int (nat_of_digits (TOTP c seed t)))" using m by (simp add: n p(3) in_int64_def min_duration_def max_duration_def)
  moreover have "TOTP c seed t \<noteq> []" using l by auto
  ultimately show "atoi (TOTP c seed t) \<noteq> None" using atoi_digits d by simp
qed

lemma TOTP_period: "0 \<le> t \<Longrightarrow> 0 \<le> u \<Longrightarrow> t div seconds 30 = u div seconds 30 \<Longrightarrow> TOTP c seed t = TOTP c seed u"
proof -
  assume "0 \<le> t" "0 \<le> u" and e: "t div seconds 30 = u div seconds 30"
  then have "trunc_div (unix x) 30 = x div seconds 30" if "0 \<le> x" for x
    using that by (simp add: trunc_div_def unix_def seconds_def zdiv_zmult2_eq [symmetric] pos_imp_zdiv_nonneg_iff)
  then show ?thesis using \<open>0 \<le> t\<close> \<open>0 \<le> u\<close> e by (simp add: TOTP_def)
qed

text \<open>
  A one-time password has six digits and is accepted while the clocks of the server and of
  the device are at most 30 seconds apart; with any seed, what is accepted is the code of the
  present period or of one of its neighbours.
\<close>

theorem totp_window:
  "(seconds 30 \<le> server \<and> 0 \<le> device \<and> \<bar>server - device\<bar> \<le> seconds 30 \<longrightarrow> VerifyTOTP c seed (TOTP c seed device) server)
   \<and> (VerifyTOTP c seed code server \<longrightarrow>
       length code = 6 \<and> code \<in> {TOTP c seed (server - seconds 30), TOTP c seed server, TOTP c seed (server + seconds 30)})"
proof -
  have "VerifyTOTP c seed (TOTP c seed device) server"
    if a: "seconds 30 \<le> server" "0 \<le> device" "\<bar>server - device\<bar> \<le> seconds 30"
  proof -
    define P where "P = seconds 30"
    have P: "0 < P" by (simp add: P_def seconds_def)
    have "device div P = (server - P) div P \<or> device div P = server div P \<or> device div P = (server + P) div P"
    proof -
      have "server div P - 1 = (server - P) div P" "server div P + 1 = (server + P) div P"
        using P div_mult_self1 [of P server "- 1"] div_mult_self1 [of P server 1] by simp_all
      moreover have "(server - P) div P \<le> device div P" "device div P \<le> (server + P) div P"
        using a(3) P unfolding P_def by (intro zdiv_mono1; simp)+
      ultimately show ?thesis by linarith
    qed
    then consider "device div P = (server - P) div P" | "device div P = server div P" | "device div P = (server + P) div P"
      by blast
    then have "TOTP c seed device \<in> {TOTP c seed (server - P), TOTP c seed server, TOTP c seed (server + P)}"
    proof cases
      case 1
      then show ?thesis using TOTP_period [of device "server - P"] a unfolding P_def by simp
    next
      case 2
      then show ?thesis using TOTP_period [of device server] a P unfolding P_def by simp
    next
      case 3
      then show ?thesis using TOTP_period [of device "server + P"] a P unfolding P_def by simp
    qed
    then show ?thesis using TOTP_code [of c seed device] by (auto simp: VerifyTOTP_def TOTPPeriod_def P_def)
  qed
  then show ?thesis by (auto simp: VerifyTOTP_def TOTPPeriod_def split: if_splits)
qed

end
