(* ===== verification/Auth_Samples.thy ===== *)
theory Auth_Samples
  imports Auth_Properties
begin

section \<open>A small installation\<close>

text \<open>
  Concrete primitives that satisfy the laws assumed of the real ones, a limiter under load, an
  administrator with a session, a token and a recovery code: the theorems of the
  authentication theories applied to them.
\<close>

definition sample_seal :: "string \<Rightarrow> string \<Rightarrow> string \<Rightarrow> string \<Rightarrow> string" where
  "sample_seal mk nonce text name = replicate (length name) CHR 0x01 @ CHR 0x00 # name @ text"

definition sample_open :: "string \<Rightarrow> string \<Rightarrow> string \<Rightarrow> string \<Rightarrow> string option" where
  "sample_open mk nonce ct name =
    (let n = length (takeWhile (\<lambda>ch. ch = CHR 0x01) ct); rest = drop (Suc n) ct
     in if n = length name \<and> take n rest = name then Some (drop n rest) else None)"

definition sample_crypto :: crypto where
  "sample_crypto = \<lparr>sha256 = (\<lambda>s. s), hmac_sha1 = (\<lambda>seed msg. take 20 (msg @ seed @ replicate 20 CHR ''x'')),
     argon2id = (\<lambda>pw salt t m p n. take n (pw @ replicate n CHR ''x'')),
     gcm_seal = sample_seal, gcm_open = sample_open\<rparr>"

definition sample_rand :: rand where
  "sample_rand i n = replicate n (char_of (if i < 100 then 65 + i else 200))"

lemma sample_rand_length: "length (sample_rand i n) = n"
  by (simp add: sample_rand_def)

lemma sample_argon_length: "length (argon2id sample_crypto pw salt t m p n) = n"
  by (simp add: sample_crypto_def)

lemma sample_seal_ones: "takeWhile (\<lambda>ch. ch = CHR 0x01) (sample_seal mk nonce text name) = replicate (length name) CHR 0x01"
  by (simp add: sample_seal_def takeWhile_append)

lemma sample_open_seal:
  "gcm_open sample_crypto mk nonce (gcm_seal sample_crypto mk nonce text name) name = Some text"
  "name \<noteq> name' \<Longrightarrow> gcm_open sample_crypto mk nonce (gcm_seal sample_crypto mk nonce text name) name' = None"
proof -
  have o: "sample_open mk nonce (sample_seal mk nonce text name) n = (if length name = length n \<and> name = n then Some text else None)" for n
    unfolding sample_open_def Let_def sample_seal_ones by (simp add: sample_seal_def)
  show "gcm_open sample_crypto mk nonce (gcm_seal sample_crypto mk nonce text name) name = Some text"
    by (simp add: sample_crypto_def o)
  show "name \<noteq> name' \<Longrightarrow> gcm_open sample_crypto mk nonce (gcm_seal sample_crypto mk nonce text name) name' = None"
    by (simp add: sample_crypto_def o)
qed

subsection \<open>The limiter\<close>

definition slow :: BucketPolicy where
  "slow = \<lparr>Capacity = 1, Refill = seconds 10\<rparr>"

definition burst :: "attempt list" where
  "burst = [(''a'', slow, 0), (''b'', slow, 1), (''a'', slow, seconds 2), (''a'', slow, seconds 11)]"

theorem limiter_rate_witness:
  "admitted ''a'' burst (NewLimiter 2) = 2 \<and>
   (of_nat (admitted ''a'' burst (NewLimiter 2)) :: rat) \<le> 1 + of_int (seconds 11) * 1 / of_int (seconds 10)"
proof -
  have "of_nat (admitted ''a'' burst (NewLimiter 2)) \<le> Capacity slow + of_int (seconds 11 - 0) * Capacity slow / of_int (Refill slow)"
    by (rule limiter_rate) (simp_all add: slow_def burst_def seconds_def NewLimiter_def card_insert_if)
  moreover have "admitted ''a'' burst (NewLimiter 2) = 2" by code_simp
  ultimately show ?thesis by (simp add: slow_def)
qed

theorem limiter_retry_witness:
  "fst (Allow ''a'' slow 0 (snd (Allow ''a'' slow 0 (NewLimiter 1)))) = (False, seconds 10) \<and>
   fst (fst (Allow ''a'' slow (seconds 11) (snd (Allow ''a'' slow 0 (snd (Allow ''a'' slow 0 (NewLimiter 1)))))))"
proof -
  define l where "l = snd (Allow ''a'' slow 0 (NewLimiter 1))"
  have r: "fst (Allow ''a'' slow 0 l) = (False, seconds 10)" unfolding l_def by code_simp
  then have "Allow ''a'' slow 0 l = ((False, seconds 10), snd (Allow ''a'' slow 0 l))" by (metis prod.collapse)
  then have "fst (fst (Allow ''a'' slow (seconds 11) (snd (Allow ''a'' slow 0 l))))"
    by (rule limiter_retry [rotated 2]) (simp_all add: slow_def seconds_def in_int64_def min_duration_def max_duration_def)
  then show ?thesis using r by (simp add: l_def)
qed




subsection \<open>Accounts\<close>

definition sample_password :: string where
  "sample_password = ''correct horse battery''"

lemma sample_password_ok: "ValidatePassword sample_password = None"
  by (simp add: ValidatePassword_def sample_password_def rune_size_def in_bytes_def Let_def)

definition sample_hashed :: "(string \<times> auth_db) result" where
  "sample_hashed = HashPassword sample_crypto 2 sample_rand sample_password empty_auth"

theorem password_roundtrip_witness:
  "VerifyPassword sample_crypto (fst (projr sample_hashed)) sample_password \<and>
   \<not> VerifyPassword sample_crypto (fst (projr sample_hashed)) ''another password''"
proof -
  have ok: "\<not> isl sample_hashed" by (simp add: sample_hashed_def HashPassword_def sample_password_ok split_beta Let_def)
  then have h: "HashPassword sample_crypto 2 sample_rand sample_password empty_auth = Inr (fst (projr sample_hashed), snd (projr sample_hashed))"
    by (simp add: sample_hashed_def [symmetric])
  have "VerifyPassword sample_crypto (fst (projr sample_hashed)) sample_password \<and>
    VerifyPassword sample_crypto (fst (projr sample_hashed)) ''another password'' =
      (argon2id sample_crypto ''another password'' (sample_rand (reads empty_auth) 16) 3 65536 (parallelism 2) 32 =
       argon2id sample_crypto sample_password (sample_rand (reads empty_auth) 16) 3 65536 (parallelism 2) 32)"
    by (rule password_roundtrip [OF sample_argon_length sample_rand_length h])
  then show ?thesis by (simp add: sample_crypto_def sample_password_def)
qed

definition sample_put :: "auth_db result" where
  "sample_put = Put_secret sample_crypto (Some ''key'') sample_rand 0 ''totp.u'' ''seed'' empty_auth"

theorem secret_roundtrip_witness:
  "Get_secret sample_crypto (Some ''key'') ''totp.u'' (projr sample_put) = Inr ''seed'' \<and>
   Get_secret sample_crypto (Some ''key'') ''other'' (projr sample_put) = Inl ErrSecretNotFound"
proof -
  have "\<not> isl sample_put" by code_simp
  then have p: "Put_secret sample_crypto (Some ''key'') sample_rand 0 ''totp.u'' ''seed'' empty_auth = Inr (projr sample_put)"
    by (simp add: sample_put_def [symmetric])
  have "Get_secret sample_crypto (Some ''key'') ''other'' empty_auth = Inl ErrSecretNotFound" by code_simp
  then show ?thesis
    using secret_roundtrip [where k = "''other''", OF sample_open_seal p] by simp
qed

definition admin_created :: "(User \<times> auth_db) result" where
  "admin_created = CreateAdmin sample_crypto 2 sample_rand 0 ''admin'' sample_password empty_auth"

lemma admin_created_ok: "admin_created = Inr (fst (projr admin_created), snd (projr admin_created))"
proof -
  have "ValidateUsername ''admin'' = Inr ''admin''" by code_simp
  then have "\<not> isl admin_created"
    by (simp add: admin_created_def CreateAdmin_def HashPassword_def sample_password_ok rand_read_def randomID_def insert_user_def
        empty_auth_def Let_def)
  then show ?thesis by simp
qed

theorem single_administrator_witness:
  "length (users (snd (projr admin_created))) = 1 \<and>
   isl (CreateAdmin sample_crypto 2 sample_rand 5 ''second'' sample_password (snd (projr admin_created)))"
proof -
  define d where "d = snd (projr admin_created)"
  have c: "CreateAdmin sample_crypto 2 sample_rand 0 ''admin'' sample_password empty_auth = Inr (fst (projr admin_created), d)"
    using admin_created_ok by (simp add: d_def admin_created_def [symmetric])
  have r: "(auth_step sample_crypto sample_rand)\<^sup>*\<^sup>* ([], empty_auth) ([], d)"
    by (rule r_into_rtranclp, rule as_create [OF c])
  have "users d \<noteq> []" using CreateAdmin_Inr(2) [OF c] by auto
  then show ?thesis
    using single_administrator [OF r, where procs = 2 and now = 5 and username = "''second''" and password = sample_password and token = "[]"]
    unfolding d_def [symmetric] by (cases "users d") auto
qed

definition setup_pending :: auth_db where
  "setup_pending = empty_auth\<lparr>setup_state := Some \<lparr>su_token_hash = Some (setupHash sample_crypto ''an operator token of 32 letters!''),
     su_expires_at = Some 1000, su_claimed_at = None, su_created_at = 0\<rparr>\<rparr>"

definition setup_claimed :: "(User \<times> auth_db) result" where
  "setup_claimed = Claim sample_crypto 2 sample_rand 0 ''an operator token of 32 letters!'' ''admin'' sample_password setup_pending"

theorem setup_token_once_witness:
  "\<not> isl setup_claimed \<and>
   Verify_setup sample_crypto 7 ''an operator token of 32 letters!'' (Disable_setup 5 (snd (projr setup_claimed))) = Some ErrSetupToken"
proof -
  have "ValidateUsername ''admin'' = Inr ''admin''" by code_simp
  moreover have "base64_encode ''an operator token of 32 letters!'' \<noteq> []" by code_simp
  ultimately have ok: "\<not> isl setup_claimed"
    by (simp add: setup_claimed_def Claim_def HashPassword_def sample_password_ok rand_read_def randomID_def insert_user_def
        setup_pending_def empty_auth_def Let_def setup_token_ok_def coalesce_def unix_milli_def setupHash_def sample_crypto_def)
  then have c: "Claim sample_crypto 2 sample_rand 0 ''an operator token of 32 letters!'' ''admin'' sample_password setup_pending =
      Inr (fst (projr setup_claimed), snd (projr setup_claimed))"
    by (simp add: setup_claimed_def [symmetric])
  have r: "(auth_step sample_crypto sample_rand)\<^sup>*\<^sup>* ([], snd (projr setup_claimed)) ([], Disable_setup 5 (snd (projr setup_claimed)))"
    by (rule r_into_rtranclp, rule as_disable_setup)
  show ?thesis using ok setup_token_once [OF c r] by blast
qed

subsection \<open>Sessions\<close>

definition sample_config :: SessionConfig where
  "sample_config = \<lparr>IdleTimeout = minutes 30, AbsoluteLifetime = hours 12\<rparr>"

definition sample_issued :: "((string \<times> string \<times> Session) \<times> auth_db) result" where
  "sample_issued = issue sample_crypto sample_rand 0 sample_config ''u'' [] [] ''local'' [] empty_auth"

theorem session_unforgeable_witness:
  "\<not> isl (fst (Authenticate_session sample_crypto 5 sample_config (fst (fst (projr sample_issued))) (snd (projr sample_issued)))) \<and>
   (\<exists>i < reads (snd (projr sample_issued)). fst (fst (projr sample_issued)) = base64url_encode (sample_rand i 32))"
proof -
  have cfg: "valid_config sample_config" by code_simp
  have token: "base64url_encode (sample_rand 0 32) \<noteq> []"
    using encode_with_length [of 6 base64url_alphabet "sample_rand 0 32"] by (auto simp: base64url_encode_def sample_rand_length)
  have "\<not> isl sample_issued"
    by (simp add: sample_issued_def issue_def cfg randomToken_def NewCSRFToken_def rand_read_def empty_auth_def Let_def)
  then have i: "issue sample_crypto sample_rand 0 sample_config ''u'' [] [] ''local'' [] empty_auth = Inr (fst (projr sample_issued), snd (projr sample_issued))"
    by (simp add: sample_issued_def [symmetric])
  have r: "(auth_step sample_crypto sample_rand)\<^sup>*\<^sup>* ([], empty_auth) ([], snd (projr sample_issued))"
    by (rule r_into_rtranclp, rule as_issue [OF i])
  have a: "\<not> isl (fst (Authenticate_session sample_crypto 5 sample_config (fst (fst (projr sample_issued))) (snd (projr sample_issued))))"
    using token cfg
    by (simp add: sample_issued_def issue_def randomToken_def NewCSRFToken_def rand_read_def empty_auth_def Let_def
        Authenticate_session_def session_columns_def minTime_def from_milli_def unix_milli_def)
      (simp add: sample_config_def minutes_def hours_def)
  have "\<exists>i < reads (snd (projr sample_issued)). fst (fst (projr sample_issued)) = base64url_encode (sample_rand i 32)"
    by (rule session_unforgeable [OF r a]) (simp add: sample_crypto_def)
  then show ?thesis using a by blast
qed

definition old_row :: session_row where
  "old_row = \<lparr>se_id_hash = tokenHash sample_crypto ''t'', se_user_id = ''u'', se_created_at = 0, se_last_seen_at = 0, se_expires_at = 10,
     se_absolute_expires_at = 20, se_revoked_at = Some 5, se_csrf_hash = None, se_user_agent_hash = None, se_ip_prefix_hash = None,
     se_auth_method = ''local'', se_auth_subject = None\<rparr>"

definition new_row :: session_row where
  "new_row = old_row\<lparr>se_id_hash := ''n'', se_expires_at := 100000, se_absolute_expires_at := 100000, se_revoked_at := None\<rparr>"

definition two_sessions :: auth_db where
  "two_sessions = empty_auth\<lparr>sessions := [old_row, new_row]\<rparr>"

theorem session_over_for_good_witness:
  "fst (Authenticate_session sample_crypto 8 sample_config ''t''
     (snd (Authenticate_session sample_crypto 7 sample_config ''t'' two_sessions))) = Inl ErrSessionInvalid"
proof -
  have o: "session_over sample_crypto ''t'' 6 two_sessions" by code_simp
  have r: "(auth_step sample_crypto sample_rand)\<^sup>*\<^sup>* ([], two_sessions) ([], snd (Authenticate_session sample_crypto 7 sample_config ''t'' two_sessions))"
    by (rule r_into_rtranclp, rule as_authenticate)
  show ?thesis
  proof (rule session_over_for_good [OF o _ r])
    fix i
    have "length (base64url_encode (sample_rand i 32)) \<noteq> length ''t''"
      by (simp add: base64url_encode_def encode_with_length sample_rand_length)
    then have "base64url_encode (sample_rand i 32) \<noteq> ''t''" by metis
    then show "tokenHash sample_crypto (base64url_encode (sample_rand i 32)) \<noteq> tokenHash sample_crypto ''t''"
      using base64_encode_inj by (auto simp: tokenHash_def sample_crypto_def)
  qed simp
qed

theorem cleanup_complete_witness:
  "fst (cleanup_tick (\<lambda>_. seconds 1) 0 two_sessions) \<le> 1 \<and>
   old_row \<notin> set (sessions (snd (cleanup_tick (\<lambda>_. seconds 1) 0 two_sessions))) \<and>
   new_row \<in> set (sessions (snd (cleanup_tick (\<lambda>_. seconds 1) 0 two_sessions)))"
proof -
  obtain n d' where t: "cleanup_tick (\<lambda>_. seconds 1) 0 two_sessions = (n, d')" by force
  have "stale (unix_milli (seconds 1)) old_row" "\<not> stale (unix_milli (seconds 1)) new_row" by code_simp+
  moreover have "sessions two_sessions = [old_row, new_row]" by (simp add: two_sessions_def)
  ultimately show ?thesis using cleanup_complete [OF _ t] unfolding t by auto
qed

subsection \<open>API tokens and codes\<close>

definition one_user :: auth_db where
  "one_user = empty_auth\<lparr>reads := 200, users := [\<lparr>us_id = ''u'', us_username = ''admin'', us_password_hash = [], us_created_at = 0, us_updated_at = 0,
     us_totp_enabled = False, us_totp_secret_key = None, us_mfa_changed_at = None\<rparr>]\<rparr>"

definition sample_token :: "((APIToken \<times> string) \<times> auth_db) result" where
  "sample_token = Create_token sample_crypto sample_rand 0 ''u'' ''ci'' [''metrics:read''] (Some (hours 2)) one_user"

theorem api_token_lifecycle_witness:
  "fst (Authenticate_token sample_crypto (hours 1) (hours 1) (snd (fst (projr sample_token))) ''metrics:read'' (snd (projr sample_token))) = None \<and>
   fst (Authenticate_token sample_crypto (hours 1) (hours 1) (snd (fst (projr sample_token))) ''events:read'' (snd (projr sample_token))) = Some ErrAPIScopeInsufficient"
proof -
  have "normalizeScopes [''metrics:read''] = Inr [''metrics:read'']" "trim_space ''ci'' = ''ci''" by code_simp+
  then have "\<not> isl sample_token"
    by (simp add: sample_token_def Create_token_def one_user_def empty_auth_def rand_read_def Let_def hours_def)
  then have c: "Create_token sample_crypto sample_rand 0 ''u'' ''ci'' [''metrics:read''] (Some (hours 2)) one_user =
      Inr ((fst (fst (projr sample_token)), snd (fst (projr sample_token))), snd (projr sample_token))"
    by (simp add: sample_token_def [symmetric])
  have e: "case Some (hours 2) of None \<Rightarrow> True | Some e \<Rightarrow> unix_milli (hours 1) < unix_milli e" by code_simp
  show ?thesis
    using api_token_lifecycle [OF sample_rand_length c e, where scope = "''metrics:read''" and ?now2.0 = "hours 1"]
      api_token_lifecycle [OF sample_rand_length c e, where scope = "''events:read''" and ?now2.0 = "hours 1"]
    by simp
qed

theorem totp_window_witness:
  "VerifyTOTP sample_crypto ''seed'' (TOTP sample_crypto ''seed'' (seconds 60)) (seconds 85)"
  using totp_window [where c = sample_crypto and seed = "''seed''" and server = "seconds 85" and device = "seconds 60"]
  by (simp add: seconds_def)

definition sample_code :: string where
  "sample_code = recovery_code (sample_rand 0 10)"

definition with_code :: auth_db where
  "with_code = one_user\<lparr>recovery_codes := [\<lparr>rc_user_id = ''u'', rc_code_hash = recoveryHash sample_crypto sample_code, rc_created_at = 0, rc_used_at = None\<rparr>]\<rparr>"

theorem recovery_code_once_witness:
  "fst (use_code ''u'' (recoveryHash sample_crypto sample_code) 5 with_code) = None \<and>
   (Enabled ''u'' (snd (use_code ''u'' (recoveryHash sample_crypto sample_code) 5 with_code)) = Inr False \<or>
    (\<exists>key seed. Get_secret sample_crypto None key (snd (use_code ''u'' (recoveryHash sample_crypto sample_code) 5 with_code)) = Inr seed
       \<and> VerifyTOTP sample_crypto seed sample_code 7))"
proof -
  define d1 where "d1 = snd (use_code ''u'' (recoveryHash sample_crypto sample_code) 5 with_code)"
  have ok: "fst (use_code ''u'' (recoveryHash sample_crypto sample_code) 5 with_code) = None" by code_simp
  then have u: "use_code ''u'' (recoveryHash sample_crypto sample_code) 5 with_code = (None, d1)" by (simp add: d1_def prod_eq_iff)
  have reads: "reads d1 = 200" unfolding d1_def by code_simp
  have v: "fst (Verify_mfa sample_crypto None (\<lambda>_. 7) ''u'' sample_code d1) = None" unfolding d1_def by code_simp
  have "sample_rand i 10 = replicate 10 (char_of (200 :: nat))" if "200 \<le> i" for i using that by (simp add: sample_rand_def)
  moreover have "recoveryHash sample_crypto (recovery_code (replicate 10 (char_of (200 :: nat)))) \<noteq> recoveryHash sample_crypto sample_code" by code_simp
  ultimately have fresh: "recoveryHash sample_crypto (recovery_code (sample_rand i 10)) \<noteq> recoveryHash sample_crypto sample_code" if "reads d1 \<le> i" for i
    using that reads by simp
  have "Enabled ''u'' d1 = Inr False \<or> (\<exists>key seed. Get_secret sample_crypto None key d1 = Inr seed \<and> VerifyTOTP sample_crypto seed sample_code ((\<lambda>_. 7) (0 :: nat)))"
    by (rule recovery_code_once [where rnd = sample_rand and ?p1.0 = "[]" and ?p2.0 = "[]", OF u rtranclp.rtrancl_refl _ v]) (rule fresh)
  then show ?thesis using ok by (simp add: d1_def)
qed

end
