(* ===== verification/Storage_Tables.thy ===== *)
theory Storage_Tables
  imports Auth_Base Metrics_Types
begin

section \<open>The history tables\<close>

text \<open>
  \<^verbatim>\<open>internal/storage\<close> builds its statements from table names, so its part of the database is a
  function from table names to rows, and a row a function from column names to SQLite values.
  The rows of a table stand in rowid order. \<open>del_limit\<close> is the batched statement
  \<^verbatim>\<open>DELETE .. WHERE rowid IN (SELECT rowid .. WHERE p LIMIT k)\<close>, with the inner query in rowid
  order; \<open>delete_batch\<close> adds what SQLite checks for foreign keys (\<^verbatim>\<open>PRAGMA foreign_keys=ON\<close>, set
  by \<open>Manager.Open\<close>). The locale \<open>batched\<close> is what a loop over such statements relies on, and the
  loops of the deletion worker and of retention are two clients of it.
\<close>

datatype sqlval = SNull | SInt int | SReal rat | SText string

type_synonym row = "string \<Rightarrow> sqlval"
type_synonym tables = "string \<Rightarrow> row list"

text \<open>A row given by its columns, as in an \<^verbatim>\<open>INSERT\<close>; the other columns are \<^verbatim>\<open>NULL\<close>.\<close>

definition row_of :: "(string \<times> sqlval) list \<Rightarrow> row" where
  "row_of columns = (\<lambda>c. case map_of columns c of Some v \<Rightarrow> v | None \<Rightarrow> SNull)"

text \<open>
  Comparison of a column with an integer. A comparison with \<^verbatim>\<open>NULL\<close> is not true, and a text is
  greater than every number.
\<close>

fun int_le :: "sqlval \<Rightarrow> int \<Rightarrow> bool" where
  "int_le (SInt i) n = (i \<le> n)"
| "int_le (SReal x) n = (x \<le> of_int n)"
| "int_le _ n = False"

fun int_lt :: "sqlval \<Rightarrow> int \<Rightarrow> bool" where
  "int_lt (SInt i) n = (i < n)"
| "int_lt (SReal x) n = (x < of_int n)"
| "int_lt _ n = False"

fun int_ge :: "sqlval \<Rightarrow> int \<Rightarrow> bool" where
  "int_ge (SInt i) n = (n \<le> i)"
| "int_ge (SReal x) n = (of_int n \<le> x)"
| "int_ge (SText _) n = True"
| "int_ge SNull n = False"

definition text_is :: "sqlval \<Rightarrow> string \<Rightarrow> bool" where
  "text_is v s = (v = SText s)"

definition null_text :: "string \<Rightarrow> sqlval" where
  "null_text s = (if s = [] then SNull else SText s)"

lemma int_lt_le: "int_lt v n \<Longrightarrow> int_le v n"
  by (cases v) auto

lemma int_lt_trans: "int_lt v m \<Longrightarrow> m \<le> n \<Longrightarrow> int_lt v n"
  by (cases v) (auto elim: less_le_trans)

subsection \<open>Deleting in batches\<close>

fun del_limit :: "nat \<Rightarrow> ('r \<Rightarrow> bool) \<Rightarrow> 'r list \<Rightarrow> 'r list" where
  "del_limit 0 p t = t"
| "del_limit (Suc k) p [] = []"
| "del_limit (Suc k) p (r # t) = (if p r then del_limit k p t else r # del_limit (Suc k) p t)"

definition taken :: "nat \<Rightarrow> ('r \<Rightarrow> bool) \<Rightarrow> 'r list \<Rightarrow> 'r list" where
  "taken k p t = take k (filter p t)"

lemma del_limit_Nil [simp]: "del_limit k p [] = []"
  by (cases k) simp_all

lemma length_taken: "length (taken k p t) = min k (count_where p t)"
  by (simp add: taken_def count_where_def min_def)

lemma count_del_limit: "count_where p (del_limit k p t) = count_where p t - k"
  by (induction k p t rule: del_limit.induct) auto

lemma del_where_del_limit: "del_where p (del_limit k p t) = del_where p t"
  by (induction k p t rule: del_limit.induct) (auto simp: del_where_def)

lemma del_limit_none: "count_where p t = 0 \<Longrightarrow> del_limit k p t = t"
  by (induction k p t rule: del_limit.induct) (auto split: if_splits)

lemma del_where_none: "count_where p t = 0 \<Longrightarrow> del_where p t = t"
  by (simp add: count_where_0_iff del_where_def)

lemma del_limit_all: "count_where p t \<le> k \<Longrightarrow> del_limit k p t = del_where p t"
  by (induction k p t rule: del_limit.induct) (auto simp: del_where_def count_where_0_iff split: if_splits)

lemma del_limit_keeps: "r \<in> set t \<Longrightarrow> \<not> p r \<Longrightarrow> r \<in> set (del_limit k p t)"
  by (induction k p t rule: del_limit.induct) auto

lemma del_limit_subset: "set (del_limit k p t) \<subseteq> set t"
  by (induction k p t rule: del_limit.induct) auto

lemma set_taken: "g \<in> set (taken k p t) \<Longrightarrow> g \<in> set t \<and> p g"
  by (auto simp: taken_def dest: in_set_takeD)

lemma taken_none: "count_where p t = 0 \<Longrightarrow> taken k p t = []"
  by (simp add: taken_def count_where_def)

text \<open>
  A loop that deletes batch after batch until a batch deletes nothing, with the number of rows
  it deleted; the first argument bounds the number of batches.
\<close>

fun drain :: "nat \<Rightarrow> ('s \<Rightarrow> 's \<times> nat) \<Rightarrow> 's \<Rightarrow> 's \<times> nat" where
  "drain 0 step s = (s, 0)"
| "drain (Suc n) step s =
    (case step s of (s', k) \<Rightarrow>
       if k = 0 then (s', 0) else (case drain n step s' of (s'', m) \<Rightarrow> (s'', k + m)))"

text \<open>
  What such a loop relies on: a batch deletes something as long as something is left, only
  counts what was left, and does not change what the table will be in the end.
\<close>

locale batched =
  fixes step :: "'s \<Rightarrow> 's \<times> nat" and left :: "'s \<Rightarrow> nat" and erase :: "'s \<Rightarrow> 's"
  assumes stops: "left s = 0 \<Longrightarrow> step s = (s, 0)"
    and progress: "0 < left s \<Longrightarrow> 0 < snd (step s)"
    and counts: "left (fst (step s)) + snd (step s) = left s"
    and target: "erase (fst (step s)) = erase s"
    and final: "left s = 0 \<Longrightarrow> erase s = s"
begin

lemma batch_induct:
  assumes base: "\<And>s. left s = 0 \<Longrightarrow> P s"
    and batch: "\<And>s. 0 < left s \<Longrightarrow> P (fst (step s)) \<Longrightarrow> P s"
  shows "P s"
proof (induction "left s" arbitrary: s rule: less_induct)
  case less
  show ?case
  proof (cases "left s = 0")
    case True
    then show ?thesis by (rule base)
  next
    case False
    then have "left (fst (step s)) < left s" using progress [of s] counts [of s] by linarith
    then show ?thesis using less batch False by simp
  qed
qed

lemma drain_erases: "left s < n \<Longrightarrow> drain n step s = (erase s, left s)"
proof (induction n arbitrary: s)
  case 0
  then show ?case by simp
next
  case (Suc n)
  show ?case
  proof (cases "left s = 0")
    case True
    then show ?thesis by (simp add: stops final)
  next
    case False
    obtain s' k where sk: "step s = (s', k)" by force
    have k: "0 < k" "left s' + k = left s" "erase s' = erase s"
      using progress [of s] counts [of s] target [of s] False by (simp_all add: sk)
    have "drain n step s' = (erase s', left s')" using Suc.IH [of s'] Suc.prems k(1,2) by linarith
    then show ?thesis using k by (simp add: sk)
  qed
qed

end

interpretation table_batch: batched "\<lambda>t. (del_limit (Suc k) p t, length (taken (Suc k) p t))" "count_where p" "del_where p"
  for k p
  by unfold_locales
    (simp_all add: del_limit_none taken_none length_taken count_del_limit del_where_del_limit del_where_none)

subsection \<open>Foreign keys\<close>

text \<open>
  The references between the tables that the deletion worker touches (\<^verbatim>\<open>migrations/002, 003,
  015\<close>): child table, column, parent table, and whether the child is deleted with its parent.
\<close>

datatype on_delete = NoAction | Cascade

definition foreign_keys :: "(string \<times> string \<times> string \<times> on_delete) list" where
  "foreign_keys =
    [(''boot_sessions'', ''host_id'', ''hosts'', NoAction),
     (''resources'', ''host_id'', ''hosts'', NoAction),
     (''container_instances'', ''resource_id'', ''resources'', NoAction),
     (''health_checks'', ''resource_id'', ''resources'', NoAction),
     (''deployment_grace_periods'', ''resource_id'', ''resources'', Cascade)]"

definition refers :: "string \<Rightarrow> row \<Rightarrow> row \<Rightarrow> bool" where
  "refers column child parent = (child column \<noteq> SNull \<and> child column = parent ''id'')"

definition referenced :: "tables \<Rightarrow> string \<Rightarrow> row \<Rightarrow> bool" where
  "referenced T table r =
    list_ex (\<lambda>(child, column, parent, act).
      parent = table \<and> act = NoAction \<and> list_ex (\<lambda>c. refers column c r) (T child)) foreign_keys"

fun cascade_one :: "string \<Rightarrow> row list \<Rightarrow> string \<times> string \<times> string \<times> on_delete \<Rightarrow> tables \<Rightarrow> tables" where
  "cascade_one table gone (child, column, parent, act) T =
    (if parent = table \<and> act = Cascade
     then T(child := del_where (\<lambda>c. list_ex (refers column c) gone) (T child)) else T)"

definition cascade :: "string \<Rightarrow> row list \<Rightarrow> tables \<Rightarrow> tables" where
  "cascade table gone = fold (cascade_one table gone) foreign_keys"

definition delete_batch :: "nat \<Rightarrow> string \<Rightarrow> (row \<Rightarrow> bool) \<Rightarrow> tables \<Rightarrow> (tables \<times> nat) result" where
  "delete_batch k table p T =
    (let gone = taken k p (T table); T' = T(table := del_limit k p (T table))
     in if list_ex (referenced T' table) gone
        then Inl (ErrConstraint ''FOREIGN KEY constraint failed'')
        else Inr (cascade table gone T', length gone))"

lemmas fk_defs = foreign_keys_def referenced_def cascade_def

lemma delete_batch_plain:
  "table \<noteq> ''hosts'' \<Longrightarrow> table \<noteq> ''resources'' \<Longrightarrow>
   delete_batch k table p T = Inr (T(table := del_limit k p (T table)), length (taken k p (T table)))"
  by (auto simp: delete_batch_def fk_defs list_ex_iff)

lemma fold_fixpoint: "(\<And>x. x \<in> set xs \<Longrightarrow> f x s = s) \<Longrightarrow> fold f xs s = s"
  by (induction xs) auto

lemma cascade_Nil: "cascade table [] T = T"
  unfolding cascade_def by (rule fold_fixpoint) (auto simp: del_where_def)

lemma delete_batch_none:
  "count_where p (T table) = 0 \<Longrightarrow> delete_batch k table p T = Inr (T, 0)"
  by (simp add: delete_batch_def taken_none del_limit_none cascade_Nil)

text \<open>Only the grace periods are deleted together with their parent.\<close>

lemma cascade_other:
  assumes "t \<noteq> ''deployment_grace_periods''"
  shows "cascade table gone T t = T t"
proof -
  have "fold (cascade_one table gone) xs T t = T t"
    if "\<And>child column parent. (child, column, parent, Cascade) \<in> set xs \<Longrightarrow> child \<noteq> t" for xs T
    using that
  proof (induction xs arbitrary: T)
    case Nil
    then show ?case by simp
  next
    case (Cons x xs)
    obtain child column parent act where x: "x = (child, column, parent, act)" by (cases x)
    have keep: "act = Cascade \<Longrightarrow> child \<noteq> t" using Cons.prems [of child column parent] by (simp add: x)
    have "fold (cascade_one table gone) xs (cascade_one table gone x T) t = cascade_one table gone x T t"
      by (rule Cons.IH) (rule Cons.prems, rule list.set_intros(2), assumption)
    also have "\<dots> = T t" using keep by (auto simp: x)
    finally show ?case by simp
  qed
  moreover have "child \<noteq> t" if "(child, column, parent, Cascade) \<in> set foreign_keys" for child column parent
    using that assms by (simp add: foreign_keys_def)
  ultimately show ?thesis unfolding cascade_def by blast
qed

lemma delete_batch_cases:
  assumes "delete_batch k table p T = Inr (T', n)" and "t \<noteq> ''deployment_grace_periods''"
  shows "T' t = (if t = table then del_limit k p (T t) else T t) \<and> n = length (taken k p (T table))"
  using assms by (auto simp: delete_batch_def cascade_other Let_def split: if_splits)

text \<open>A statement whose rows are not referenced goes through.\<close>

lemma referenced_subset:
  assumes "referenced T' table g" and "\<And>t. set (T' t) \<subseteq> set (T t)"
  shows "referenced T table g"
  using assms unfolding referenced_def list_ex_iff by fastforce

lemma delete_batch_succeeds:
  assumes "\<And>g. g \<in> set (T table) \<Longrightarrow> p g \<Longrightarrow> \<not> referenced T table g"
  shows "delete_batch k table p T =
    Inr (cascade table (taken k p (T table)) (T(table := del_limit k p (T table))), length (taken k p (T table)))"
proof -
  have "\<not> referenced (T(table := del_limit k p (T table))) table g" if "g \<in> set (taken k p (T table))" for g
  proof
    assume "referenced (T(table := del_limit k p (T table))) table g"
    then have "referenced T table g"
      by (rule referenced_subset) (simp add: del_limit_subset)
    then show False using assms set_taken [OF that] by blast
  qed
  then show ?thesis by (simp add: delete_batch_def list_ex_iff Let_def)
qed

end
