(* ===== verification/Storage_Deletion.thy ===== *)
theory Storage_Deletion
  imports Storage_Tables
begin

section \<open>Deleting history\<close>

text \<open>
  \<^verbatim>\<open>internal/storage/deletion.go\<close>. A deletion is previewed, which stores what it would delete
  under the hash of a random token; confirming the preview creates a job; the worker runs one
  job at a time, in batches of 500 rows. \<open>RunDeletion\<close> sends its statements one by one and other
  requests run in between, so it is a machine whose steps are the statements (\<open>run_step\<close>), and
  \<open>del_step\<close> interleaves it with the requests, with every other change of the history tables
  and with restarts.
\<close>

datatype DeletionKind = DeleteResource | DeleteBefore | DeleteAll | DeleteArchived | OtherKind string

record DeletionRequest =
  dr_Kind :: DeletionKind
  dr_ResourceID :: string
  dr_Before :: time

record DeletionPreview =
  dp_Token :: string
  dp_Confirmation :: string
  dp_TotalRows :: nat
  dp_ExpiresAt :: time
  dp_Scope :: DeletionRequest
  dp_FenceAt :: time

record DeletionJob =
  job_ID :: string
  job_Kind :: DeletionKind
  job_ResourceID :: string
  job_State :: string
  job_TotalRows :: nat
  job_DeletedRows :: nat
  job_Error :: string

text \<open>The rows of \<^verbatim>\<open>history_deletion_previews\<close> and \<^verbatim>\<open>history_deletion_jobs\<close> (\<^verbatim>\<open>migrations/007\<close>).\<close>

record preview_row =
  hp_id_hash :: string
  hp_kind :: DeletionKind
  hp_resource_id :: "string option"
  hp_before :: "int option"
  hp_fence :: int
  hp_confirmation :: string
  hp_summary :: "nat \<times> DeletionKind \<times> string"
  hp_expires_at :: int
  hp_used_at :: "int option"

record job_row =
  dj_id :: string
  dj_kind :: DeletionKind
  dj_resource_id :: "string option"
  dj_before :: "int option"
  dj_fence :: int
  dj_confirmation :: string
  dj_state :: string
  dj_requested_by :: "string option"
  dj_requested_at :: int
  dj_started_at :: "int option"
  dj_finished_at :: "int option"
  dj_total :: nat
  dj_deleted :: nat
  dj_table :: "string option"
  dj_error :: "string option"

record hist_db =
  hist_tables :: tables
  previews :: "preview_row list"
  del_jobs :: "job_row list"
  hist_reads :: nat

subsection \<open>Scope of a deletion\<close>

definition deletionTables :: "DeletionKind \<Rightarrow> string list" where
  "deletionTables kind =
    (let tables = [''container_instance_samples_10s'', ''resource_samples_10s'', ''resource_rollups_1m'',
                   ''resource_rollups_15m'', ''resource_rollups_1h'', ''events'']
     in if kind = DeleteBefore \<or> kind = DeleteAll
        then [''host_samples_10s'', ''host_rollups_1m'', ''host_rollups_15m'', ''host_rollups_1h'',
              ''collector_state_events''] @ tables
        else tables)"

definition resourceScopedTable :: "string \<Rightarrow> bool" where
  "resourceScopedTable table =
    (table = ''resource_samples_10s'' \<or> table = ''resource_rollups_1m'' \<or> table = ''resource_rollups_15m'' \<or>
     table = ''resource_rollups_1h'' \<or> table = ''events'')"

definition metadataDeletionTables :: "DeletionKind \<Rightarrow> string list" where
  "metadataDeletionTables kind =
    (if kind = DeleteArchived then [''container_instances'', ''resources'']
     else if kind = DeleteAll then [''container_instances'', ''resources'', ''boot_sessions'', ''hosts'']
     else [])"

text \<open>
  The join of the samples with the instances of a resource: \<^verbatim>\<open>container_instances.id\<close> is a primary
  key, so a sample joins with at most one instance.
\<close>

definition of_resource :: "row list \<Rightarrow> string \<Rightarrow> row \<Rightarrow> bool" where
  "of_resource instances resource sample =
    list_ex (\<lambda>i. refers ''container_instance_id'' sample i \<and> text_is (i ''resource_id'') resource) instances"

definition deletionCountTx :: "DeletionKind \<Rightarrow> string \<Rightarrow> int \<Rightarrow> int \<Rightarrow> tables \<Rightarrow> nat" where
  "deletionCountTx k r b f T =
    sum_list (map (\<lambda>table.
      if (k = DeleteResource \<or> k = DeleteArchived) \<and> table = ''container_instance_samples_10s''
      then count_where (\<lambda>s. int_le (s ''ts'') f \<and> of_resource (T ''container_instances'') r s) (T table)
      else let by_time = (\<lambda>s. if k = DeleteBefore then int_lt (s ''ts'') b else int_le (s ''ts'') f)
        in if (k = DeleteResource \<or> k = DeleteArchived) \<and> resourceScopedTable table
           then count_where (\<lambda>s. by_time s \<and> text_is (s ''resource_id'') r) (T table)
           else count_where by_time (T table)) (deletionTables k)) +
    (if k = DeleteArchived
     then count_where (\<lambda>s. text_is (s ''resource_id'') r) (T ''container_instances'') +
          count_where (\<lambda>s. text_is (s ''id'') r \<and> text_is (s ''status'') ''archived'') (T ''resources'')
     else 0) +
    (if k = DeleteAll
     then sum_list (map (\<lambda>table. length (T table)) [''container_instances'', ''resources'', ''boot_sessions'', ''hosts''])
     else 0)"

definition deleteBatch :: "string \<Rightarrow> DeletionKind \<Rightarrow> string \<Rightarrow> int \<Rightarrow> int \<Rightarrow> tables \<Rightarrow> (tables \<times> nat) result" where
  "deleteBatch table kind resource before fence T =
    (let by_time = (\<lambda>s. if kind = DeleteBefore then int_lt (s ''ts'') before else int_le (s ''ts'') fence)
     in if (kind = DeleteResource \<or> kind = DeleteArchived) \<and> table = ''container_instance_samples_10s''
        then delete_batch 500 table (\<lambda>s. int_le (s ''ts'') fence \<and> of_resource (T ''container_instances'') resource s) T
        else if (kind = DeleteResource \<or> kind = DeleteArchived) \<and> resourceScopedTable table
        then delete_batch 500 table (\<lambda>s. by_time s \<and> text_is (s ''resource_id'') resource) T
        else delete_batch 500 table by_time T)"

definition deleteMetadataBatch :: "string \<Rightarrow> DeletionKind \<Rightarrow> string \<Rightarrow> tables \<Rightarrow> (tables \<times> nat) result" where
  "deleteMetadataBatch table kind resource T =
    delete_batch 500 table
      (if kind = DeleteArchived \<and> table = ''resources''
       then (\<lambda>s. text_is (s ''id'') resource \<and> text_is (s ''status'') ''archived'')
       else if kind = DeleteArchived \<and> table = ''container_instances''
       then (\<lambda>s. text_is (s ''resource_id'') resource)
       else (\<lambda>s. True)) T"

subsection \<open>Previews and jobs\<close>

definition validDeletion :: "DeletionRequest \<Rightarrow> unit result" where
  "validDeletion r =
    (case dr_Kind r of
       OtherKind _ \<Rightarrow> Inl (ErrMsg ''invalid deletion kind'')
     | DeleteAll \<Rightarrow> Inr ()
     | DeleteBefore \<Rightarrow>
         if dr_Before r = zero_time then Inl (ErrMsg ''before timestamp is required'') else Inr ()
     | _ \<Rightarrow>
         if length (dr_ResourceID r) < 5 \<or> 128 < length (dr_ResourceID r) \<or> \<not> has_prefix (dr_ResourceID r) ''res_''
         then Inl (ErrMsg ''resource id is required'') else Inr ())"

text \<open>
  \<^verbatim>\<open>Time.Format("2006-01-02")\<close>: the proleptic Gregorian date of a day, with the year on at least
  four digits.
\<close>

definition civil :: "int \<Rightarrow> int \<times> int \<times> int" where
  "civil days =
    (let z = days + 719468; era = z div 146097; doe = z mod 146097;
         yoe = (doe - doe div 1460 + doe div 36524 - doe div 146096) div 365;
         doy = doe - (365 * yoe + yoe div 4 - yoe div 100);
         mp = (5 * doy + 2) div 153;
         m = (if mp < 10 then mp + 3 else mp - 9)
     in (yoe + era * 400 + (if m \<le> 2 then 1 else 0), m, doy - (153 * mp + 2) div 5 + 1))"

definition pad :: "nat \<Rightarrow> int \<Rightarrow> string" where
  "pad w n =
    (let ds = show_nat (nat \<bar>n\<bar>)
     in (if n < 0 then ''-'' else []) @ replicate (w - length ds) (CHR ''0'') @ ds)"

definition format_date :: "time \<Rightarrow> string" where
  "format_date t =
    (case civil (t div 86400000000000) of (y, m, d) \<Rightarrow> pad 4 y @ ''-'' @ pad 2 m @ ''-'' @ pad 2 d)"

definition confirmationFor :: "DeletionRequest \<Rightarrow> string" where
  "confirmationFor r =
    (case dr_Kind r of
       DeleteResource \<Rightarrow> ''DELETE HISTORY '' @ dr_ResourceID r
     | DeleteArchived \<Rightarrow> ''PURGE ARCHIVED '' @ dr_ResourceID r
     | DeleteBefore \<Rightarrow> ''DELETE HISTORY BEFORE '' @ format_date (dr_Before r)
     | _ \<Rightarrow> ''RESET ALL HISTORY'')"

definition hashDeletionToken :: "crypto \<Rightarrow> string \<Rightarrow> string" where
  "hashDeletionToken c s = base64_encode (sha256 c s)"

definition nullString :: "string \<Rightarrow> string option" where
  "nullString s = (if s = [] then None else Some s)"

definition nullableBefore :: "DeletionKind \<Rightarrow> int \<Rightarrow> int option" where
  "nullableBefore k b = (if k \<noteq> DeleteBefore then None else Some b)"

definition nullableInt :: "int option \<Rightarrow> int" where
  "nullableInt v = (case v of Some n \<Rightarrow> n | None \<Rightarrow> 0)"

definition null_string :: "string option \<Rightarrow> string" where
  "null_string v = (case v of Some s \<Rightarrow> s | None \<Rightarrow> [])"

text \<open>The state of the target resource, as \<open>PreviewDeletion\<close> checks it.\<close>

definition check_resource :: "DeletionRequest \<Rightarrow> tables \<Rightarrow> unit result" where
  "check_resource q T =
    (if dr_Kind q = DeleteResource \<or> dr_Kind q = DeleteArchived
     then (case find (\<lambda>s. text_is (s ''id'') (dr_ResourceID q)) (T ''resources'') of
             None \<Rightarrow> Inl (ErrMsg ''resource not found'')
           | Some s \<Rightarrow>
               if dr_Kind q = DeleteArchived \<and> \<not> text_is (s ''status'') ''archived''
               then Inl (ErrMsg ''resource is not archived'') else Inr ())
     else Inr ())"

definition PreviewDeletion ::
  "crypto \<Rightarrow> (nat \<Rightarrow> nat \<Rightarrow> string) \<Rightarrow> time \<Rightarrow> DeletionRequest \<Rightarrow> hist_db \<Rightarrow> DeletionPreview result \<times> hist_db" where
  "PreviewDeletion c rnd now q d =
    (case bind_result (validDeletion q) (\<lambda>_. check_resource q (hist_tables d)) of
       Inl e \<Rightarrow> (Inl e, d)
     | Inr _ \<Rightarrow>
       (let stale = (\<lambda>p. hp_expires_at p < unix_milli now \<or>
              (case hp_used_at p of None \<Rightarrow> False | Some u \<Rightarrow> u < unix_milli (now - hours 24)));
            d = d\<lparr>previews := del_limit 500 stale (previews d)\<rparr>;
            fence = unix_milli now;
            before = unix_milli (dr_Before q);
            before = (if dr_Kind q = DeleteBefore \<and> fence < before then fence else before);
            total = deletionCountTx (dr_Kind q) (dr_ResourceID q) before fence (hist_tables d);
            token = base64url_encode (rnd (hist_reads d) 32);
            d = d\<lparr>hist_reads := Suc (hist_reads d)\<rparr>;
            row = \<lparr>hp_id_hash = hashDeletionToken c token, hp_kind = dr_Kind q,
                   hp_resource_id = nullString (dr_ResourceID q),
                   hp_before = nullableBefore (dr_Kind q) before, hp_fence = fence,
                   hp_confirmation = confirmationFor q,
                   hp_summary = (total, dr_Kind q, dr_ResourceID q),
                   hp_expires_at = unix_milli (now + minutes 10), hp_used_at = None\<rparr>
        in if list_ex (\<lambda>p. hp_id_hash p = hp_id_hash row) (previews d)
           then (Inl (ErrConstraint ''UNIQUE constraint failed''), d)
           else (Inr \<lparr>dp_Token = token, dp_Confirmation = confirmationFor q, dp_TotalRows = total,
                      dp_ExpiresAt = now + minutes 10, dp_Scope = q, dp_FenceAt = from_milli fence\<rparr>,
                 d\<lparr>previews := previews d @ [row]\<rparr>)))"

text \<open>The index \<open>one_active_history_deletion\<close> admits one job that is not finished.\<close>

definition active :: "job_row \<Rightarrow> bool" where
  "active j = (dj_state j \<in> {''queued'', ''running'', ''cancelling''})"

definition update_jobs :: "(job_row \<Rightarrow> bool) \<Rightarrow> (job_row \<Rightarrow> job_row) \<Rightarrow> hist_db \<Rightarrow> hist_db result" where
  "update_jobs p f d =
    (let js = upd_where p f (del_jobs d)
     in if 1 < count_where active js then Inl (ErrConstraint ''UNIQUE constraint failed'')
        else Inr (d\<lparr>del_jobs := js\<rparr>))"

definition newDeletionID :: "string \<Rightarrow> string" where
  "newDeletionID b = ''del_'' @ hex_encode b"

definition CreateDeletion ::
  "crypto \<Rightarrow> (nat \<Rightarrow> nat \<Rightarrow> string) \<Rightarrow> time \<Rightarrow> time \<Rightarrow> string \<Rightarrow> string \<Rightarrow> string \<Rightarrow> hist_db \<Rightarrow> (DeletionJob \<times> hist_db) result" where
  "CreateDeletion c rnd checked now token confirmation actor d =
    (case find (\<lambda>p. hp_id_hash p = hashDeletionToken c token \<and> hp_used_at p = None) (previews d) of
       None \<Rightarrow> Inl (ErrMsg ''deletion preview is invalid'')
     | Some p \<Rightarrow>
       if hp_expires_at p \<le> unix_milli checked \<or> confirmation \<noteq> hp_confirmation p
       then Inl (ErrMsg ''deletion confirmation is invalid'')
       else
         let total = deletionCountTx (hp_kind p) (null_string (hp_resource_id p)) (nullableInt (hp_before p)) (hp_fence p) (hist_tables d);
             ident = newDeletionID (rnd (hist_reads d) 12);
             row = \<lparr>dj_id = ident, dj_kind = hp_kind p, dj_resource_id = hp_resource_id p, dj_before = hp_before p,
                    dj_fence = hp_fence p, dj_confirmation = hp_confirmation p, dj_state = ''queued'',
                    dj_requested_by = nullString actor, dj_requested_at = unix_milli now, dj_started_at = None,
                    dj_finished_at = None, dj_total = total, dj_deleted = 0, dj_table = None, dj_error = None\<rparr>
         in if list_ex active (del_jobs d) \<or> list_ex (\<lambda>j. dj_id j = ident) (del_jobs d)
            then Inl (ErrMsg ''another history deletion is already active'')
            else Inr (\<lparr>job_ID = ident, job_Kind = hp_kind p, job_ResourceID = null_string (hp_resource_id p),
                       job_State = ''queued'', job_TotalRows = total, job_DeletedRows = 0, job_Error = []\<rparr>,
                      d\<lparr>del_jobs := del_jobs d @ [row],
                        previews := upd_where (\<lambda>p. hp_id_hash p = hashDeletionToken c token)
                          (\<lambda>p. p\<lparr>hp_used_at := Some (unix_milli now)\<rparr>) (previews d),
                        hist_reads := Suc (hist_reads d)\<rparr>))"

definition DeletionJob_get :: "string \<Rightarrow> hist_db \<Rightarrow> DeletionJob result" where
  "DeletionJob_get i d =
    (case find (\<lambda>j. dj_id j = i) (del_jobs d) of
       None \<Rightarrow> Inl ErrNoRows
     | Some j \<Rightarrow> Inr \<lparr>job_ID = dj_id j, job_Kind = dj_kind j, job_ResourceID = null_string (dj_resource_id j),
         job_State = dj_state j, job_TotalRows = dj_total j, job_DeletedRows = dj_deleted j,
         job_Error = null_string (dj_error j)\<rparr>)"

definition CancelDeletion :: "time \<Rightarrow> string \<Rightarrow> hist_db \<Rightarrow> hist_db result" where
  "CancelDeletion now i d =
    (let hit = (\<lambda>j. dj_id j = i \<and> dj_state j \<in> {''queued'', ''running''})
     in bind_result
          (update_jobs hit
            (\<lambda>j. j\<lparr>dj_state := if dj_state j = ''queued'' then ''cancelled'' else ''cancelling'',
                   dj_finished_at := if dj_state j = ''queued'' then Some (unix_milli now) else dj_finished_at j\<rparr>) d)
          (\<lambda>d'. if count_where hit (del_jobs d) \<noteq> 1 then Inl (ErrMsg ''deletion job is not cancellable'') else Inr d'))"

definition RetryDeletion :: "string \<Rightarrow> hist_db \<Rightarrow> hist_db result" where
  "RetryDeletion i d =
    (let hit = (\<lambda>j. dj_id j = i \<and> dj_state j \<in> {''cancelled'', ''failed''})
     in bind_result
          (update_jobs hit (\<lambda>j. j\<lparr>dj_state := ''queued'', dj_error := None, dj_finished_at := None\<rparr>) d)
          (\<lambda>d'. if count_where hit (del_jobs d) \<noteq> 1 then Inl (ErrMsg ''deletion job is not retryable'') else Inr d'))"

definition recoverDeletionJobs :: "time \<Rightarrow> hist_db \<Rightarrow> hist_db result" where
  "recoverDeletionJobs now d =
    bind_result
      (update_jobs (\<lambda>j. dj_state j = ''running'')
        (\<lambda>j. j\<lparr>dj_state := ''queued'', dj_started_at := None, dj_error := None\<rparr>) d)
      (update_jobs (\<lambda>j. dj_state j = ''cancelling'')
        (\<lambda>j. j\<lparr>dj_state := ''cancelled'', dj_finished_at := Some (unix_milli now)\<rparr>))"

subsection \<open>Running a job\<close>

definition error_text :: "go_error \<Rightarrow> string" where
  "error_text e =
    (case e of ErrMsg s \<Rightarrow> s | ErrConstraint s \<Rightarrow> s | ErrNoRows \<Rightarrow> ''sql: no rows in result set''
     | NilDeref \<Rightarrow> ''invalid memory address or nil pointer dereference'')"

definition safeDeletionError :: "go_error \<Rightarrow> string" where
  "safeDeletionError e = (let s = error_text e in if 160 < length s then take 160 s else s)"

text \<open>
  The local variables of \<open>RunDeletion\<close>, the tables of its two loops, and its program points,
  each before a statement: the query for the job, the update to \<^verbatim>\<open>running\<close>, the query for the
  state, the batch, the progress report, and the updates that end the run.
\<close>

record run_vars =
  rv_id :: string
  rv_kind :: DeletionKind
  rv_resource :: string
  rv_before :: int
  rv_fence :: int
  rv_deleted :: nat

datatype work = History (work_table: string) | Metadata (work_table: string)

datatype run =
    Selecting string
  | Claiming run_vars
  | Polling run_vars work "work list"
  | Stopping run_vars
  | Deleting run_vars work "work list"
  | Reporting run_vars work "work list" nat
  | Failing run_vars go_error
  | Completing run_vars
  | Returned "go_error option"

definition all_work :: "DeletionKind \<Rightarrow> work list" where
  "all_work k = map History (deletionTables k) @ map Metadata (metadataDeletionTables k)"

fun next_table :: "run_vars \<Rightarrow> work list \<Rightarrow> run" where
  "next_table v [] = Completing v"
| "next_table v (w # ws) = Polling v w ws"

fun work_batch :: "work \<Rightarrow> run_vars \<Rightarrow> tables \<Rightarrow> (tables \<times> nat) result" where
  "work_batch (History t) v T = deleteBatch t (rv_kind v) (rv_resource v) (rv_before v) (rv_fence v) T"
| "work_batch (Metadata t) v T = deleteMetadataBatch t (rv_kind v) (rv_resource v) T"

definition job_of :: "string \<Rightarrow> hist_db \<Rightarrow> job_row option" where
  "job_of i d = find (\<lambda>j. dj_id j = i) (del_jobs d)"

definition mark :: "string \<Rightarrow> (job_row \<Rightarrow> job_row) \<Rightarrow> hist_db \<Rightarrow> hist_db result" where
  "mark i f = update_jobs (\<lambda>j. dj_id j = i) f"

definition last_error :: "'a result \<Rightarrow> go_error option" where
  "last_error r = (case r of Inl e \<Rightarrow> Some e | Inr _ \<Rightarrow> None)"

fun run_step :: "time \<Rightarrow> run \<times> hist_db \<Rightarrow> run \<times> hist_db" where
  "run_step now (Selecting i, d) =
    (case find (\<lambda>j. dj_id j = i \<and> dj_state j = ''queued'') (del_jobs d) of
       None \<Rightarrow> (Returned (Some ErrNoRows), d)
     | Some j \<Rightarrow> (Claiming \<lparr>rv_id = i, rv_kind = dj_kind j, rv_resource = null_string (dj_resource_id j),
                  rv_before = nullableInt (dj_before j), rv_fence = dj_fence j, rv_deleted = 0\<rparr>, d))"
| "run_step now (Claiming v, d) =
    (case mark (rv_id v) (\<lambda>j. j\<lparr>dj_state := ''running'', dj_started_at := Some (unix_milli now)\<rparr>) d of
       Inl e \<Rightarrow> (Returned (Some e), d)
     | Inr d' \<Rightarrow> (next_table v (all_work (rv_kind v)), d'))"
| "run_step now (Polling v w ws, d) =
    (case job_of (rv_id v) d of
       None \<Rightarrow> (Returned (Some ErrNoRows), d)
     | Some j \<Rightarrow> if dj_state j = ''cancelling'' then (Stopping v, d) else (Deleting v w ws, d))"
| "run_step now (Stopping v, d) =
    (let r = mark (rv_id v) (\<lambda>j. j\<lparr>dj_state := ''cancelled'', dj_finished_at := Some (unix_milli now)\<rparr>) d
     in (Returned (last_error r), case r of Inl _ \<Rightarrow> d | Inr d' \<Rightarrow> d'))"
| "run_step now (Deleting v w ws, d) =
    (case work_batch w v (hist_tables d) of
       Inl e \<Rightarrow> (Failing v e, d)
     | Inr (T, n) \<Rightarrow> (Reporting (v\<lparr>rv_deleted := rv_deleted v + n\<rparr>) w ws n, d\<lparr>hist_tables := T\<rparr>))"
| "run_step now (Reporting v w ws n, d) =
    (if n = 0 then next_table v ws else Polling v w ws,
     case mark (rv_id v) (\<lambda>j. j\<lparr>dj_deleted := rv_deleted v, dj_table := Some (work_table w)\<rparr>) d of
       Inl _ \<Rightarrow> d | Inr d' \<Rightarrow> d')"
| "run_step now (Failing v e, d) =
    (Returned (Some e),
     case mark (rv_id v) (\<lambda>j. j\<lparr>dj_state := ''failed'', dj_error := Some (safeDeletionError e),
                                 dj_finished_at := Some (unix_milli now)\<rparr>) d of
       Inl _ \<Rightarrow> d | Inr d' \<Rightarrow> d')"
| "run_step now (Completing v, d) =
    (let r = mark (rv_id v) (\<lambda>j. j\<lparr>dj_state := ''completed'', dj_deleted := rv_deleted v,
                                    dj_finished_at := Some (unix_milli now), dj_table := None\<rparr>) d
     in (Returned (last_error r), case r of Inl _ \<Rightarrow> d | Inr d' \<Rightarrow> d'))"
| "run_step now (Returned e, d) = (Returned e, d)"

text \<open>\<open>RunDeletion\<close> without interference: its first \<open>n\<close> statements.\<close>

definition RunDeletion :: "nat \<Rightarrow> time \<Rightarrow> string \<Rightarrow> hist_db \<Rightarrow> run \<times> hist_db" where
  "RunDeletion n now i d = (run_step now ^^ n) (Selecting i, d)"

text \<open>The worker: it takes the queued job that was requested first, and waits when there is none.\<close>

datatype worker = Waiting | Running run

fun runDeletionWorker :: "time \<Rightarrow> worker \<times> hist_db \<Rightarrow> worker \<times> hist_db" where
  "runDeletionWorker now (Waiting, d) =
    (case first_by dj_requested_at (filter (\<lambda>j. dj_state j = ''queued'') (del_jobs d)) of
       None \<Rightarrow> (Waiting, d)
     | Some j \<Rightarrow> (if dj_id j \<noteq> [] then Running (Selecting (dj_id j)) else Waiting, d))"
| "runDeletionWorker now (Running (Returned e), d) = (Waiting, d)"
| "runDeletionWorker now (Running r, d) = (case run_step now (r, d) of (r', d') \<Rightarrow> (Running r', d'))"

text \<open>
  Everything that happens to the deletion tables: statements of the worker, requests, restarts
  of the process (after which a new worker waits), and any change of the history tables by
  other components.
\<close>

inductive del_step :: "crypto \<Rightarrow> (nat \<Rightarrow> nat \<Rightarrow> string) \<Rightarrow> worker \<times> hist_db \<Rightarrow> worker \<times> hist_db \<Rightarrow> bool"
  for c rnd where
  work: "del_step c rnd s (runDeletionWorker now s)"
| preview: "PreviewDeletion c rnd now q d = (r, d') \<Longrightarrow> del_step c rnd (w, d) (w, d')"
| create: "CreateDeletion c rnd checked now token confirmation actor d = Inr (j, d') \<Longrightarrow> del_step c rnd (w, d) (w, d')"
| cancel: "CancelDeletion now i d = Inr d' \<Longrightarrow> del_step c rnd (w, d) (w, d')"
| retry: "RetryDeletion i d = Inr d' \<Longrightarrow> del_step c rnd (w, d) (w, d')"
| restart: "recoverDeletionJobs now d = Inr d' \<Longrightarrow> del_step c rnd (w, d) (Waiting, d')"
| telemetry: "del_step c rnd (w, d) (w, d\<lparr>hist_tables := T\<rparr>)"

definition no_deletions :: "hist_db \<Rightarrow> bool" where
  "no_deletions d = (previews d = [] \<and> del_jobs d = [])"

inductive del_reachable :: "crypto \<Rightarrow> (nat \<Rightarrow> nat \<Rightarrow> string) \<Rightarrow> worker \<times> hist_db \<Rightarrow> bool" for c rnd where
  start: "no_deletions d \<Longrightarrow> del_reachable c rnd (Waiting, d)"
| step: "del_reachable c rnd s \<Longrightarrow> del_step c rnd s s' \<Longrightarrow> del_reachable c rnd s'"

end
