(* ===== verification/Deletion_Run.thy ===== *)
theory Deletion_Run
  imports Storage_Deletion
begin

section \<open>A deletion job erases its scope\<close>

text \<open>
  The specification of a deletion is one step: every table loses exactly the rows in the scope
  of the job (\<open>in_scope\<close>, \<open>erased\<close>). The lemmas here show that the loops of \<open>RunDeletion\<close>, batch by
  batch and table by table, implement it, and that they count what they delete.
\<close>

definition in_scope :: "DeletionKind \<Rightarrow> string \<Rightarrow> int \<Rightarrow> int \<Rightarrow> row list \<Rightarrow> string \<Rightarrow> row \<Rightarrow> bool" where
  "in_scope k resource before fence instances table r =
    ((table \<in> set (deletionTables k) \<and>
      (if k = DeleteBefore then int_lt (r ''ts'') before else int_le (r ''ts'') fence) \<and>
      (k = DeleteResource \<or> k = DeleteArchived \<longrightarrow>
        (if table = ''container_instance_samples_10s'' then of_resource instances resource r
         else text_is (r ''resource_id'') resource))) \<or>
     (k = DeleteArchived \<and> table = ''container_instances'' \<and> text_is (r ''resource_id'') resource) \<or>
     (k = DeleteArchived \<and> table = ''resources'' \<and> text_is (r ''id'') resource \<and> text_is (r ''status'') ''archived'') \<or>
     (k = DeleteAll \<and> table \<in> {''container_instances'', ''resources'', ''boot_sessions'', ''hosts''}))"

definition erased :: "(string \<Rightarrow> row \<Rightarrow> bool) \<Rightarrow> string set \<Rightarrow> tables \<Rightarrow> tables" where
  "erased P us T = (\<lambda>u. if u \<in> us then del_where (P u) (T u) else T u)"

text \<open>The tables that are not deleted together with a parent row.\<close>

definition agree :: "tables \<Rightarrow> tables \<Rightarrow> bool" where
  "agree T T' = (\<forall>u. u \<noteq> ''deployment_grace_periods'' \<longrightarrow> T u = T' u)"

abbreviation vars_scope :: "run_vars \<Rightarrow> row list \<Rightarrow> string \<Rightarrow> row \<Rightarrow> bool" where
  "vars_scope v \<equiv> in_scope (rv_kind v) (rv_resource v) (rv_before v) (rv_fence v)"

lemma agree_referenced: "agree T T' \<Longrightarrow> referenced T table g = referenced T' table g"
  unfolding agree_def referenced_def foreign_keys_def by simp

subsection \<open>The work of a job\<close>

lemmas table_lists = all_work_def deletionTables_def metadataDeletionTables_def

lemma history_batch:
  assumes "t \<in> set (deletionTables (rv_kind v))" and "T ''container_instances'' = I"
  shows "work_batch (History t) v T = delete_batch 500 t (vars_scope v I t) T"
proof -
  let ?k = "rv_kind v"
  have t: "t \<noteq> ''container_instances'' \<and> t \<noteq> ''resources'' \<and> t \<noteq> ''boot_sessions'' \<and> t \<noteq> ''hosts''"
    using assms(1) by (auto simp: deletionTables_def Let_def split: if_splits)
  have scoped: "?k = DeleteResource \<or> ?k = DeleteArchived \<Longrightarrow> t \<noteq> ''container_instance_samples_10s'' \<Longrightarrow> resourceScopedTable t"
    using assms(1) by (auto simp: deletionTables_def resourceScopedTable_def Let_def)
  show ?thesis
    using assms t scoped by (cases ?k) (simp_all add: deleteBatch_def in_scope_def [abs_def] Let_def)
qed

lemma metadata_batch:
  assumes "t \<in> set (metadataDeletionTables (rv_kind v))"
  shows "work_batch (Metadata t) v T = delete_batch 500 t (vars_scope v I t) T"
proof -
  have t: "t \<notin> set (deletionTables (rv_kind v))"
    using assms by (auto simp: table_lists Let_def split: if_splits)
  show ?thesis using assms t
    by (auto simp: deleteMetadataBatch_def in_scope_def [abs_def] metadataDeletionTables_def split: if_splits)
qed

lemma deletionCount_scope:
  "deletionCountTx k r b f T =
   (\<Sum>u \<leftarrow> map work_table (all_work k). count_where (in_scope k r b f (T ''container_instances'') u) (T u))"
  by (cases k)
    (simp_all add: deletionCountTx_def table_lists in_scope_def [abs_def] resourceScopedTable_def Let_def count_where_def comp_def)

text \<open>What a job needs of one of its tables: the batch statement, and rows that nothing refers to.\<close>

definition ready :: "run_vars \<Rightarrow> row list \<Rightarrow> work \<Rightarrow> tables \<Rightarrow> bool" where
  "ready v I w T =
    ((\<forall>T'. agree T' (T(work_table w := T' (work_table w))) \<longrightarrow>
        work_batch w v T' = delete_batch 500 (work_table w) (vars_scope v I (work_table w)) T') \<and>
     (\<forall>g \<in> set (T (work_table w)). vars_scope v I (work_table w) g \<longrightarrow> \<not> referenced T (work_table w) g) \<and>
     work_table w \<noteq> ''deployment_grace_periods'')"

lemma work_batch_deleted [simp]: "work_batch w (v\<lparr>rv_deleted := n\<rparr>) T = work_batch w v T"
  by (cases w) simp_all

lemma ready_deleted [simp]: "ready (v\<lparr>rv_deleted := n\<rparr>) I w T = ready v I w T"
  by (simp add: ready_def)

lemma agree_refl [simp]: "agree T T"
  by (simp add: agree_def)

lemma agree_sym: "agree T T' \<Longrightarrow> agree T' T"
  by (simp add: agree_def)

lemma agree_trans: "agree T T' \<Longrightarrow> agree T' T'' \<Longrightarrow> agree T T''"
  by (simp add: agree_def)

lemma ready_agree: "agree T T' \<Longrightarrow> ready v I w T = ready v I w T'"
  by (cases "work_table w = ''deployment_grace_periods''") (simp_all add: ready_def agree_referenced [of T T'] agree_def)

lemma ready_shrink:
  assumes "ready v I w T" and "set x \<subseteq> set (T (work_table w))"
  shows "ready v I w (T(work_table w := x))"
proof -
  have "\<not> referenced (T(work_table w := x)) (work_table w) g"
    if "g \<in> set x" "vars_scope v I (work_table w) g" for g
  proof
    assume "referenced (T(work_table w := x)) (work_table w) g"
    then have "referenced T (work_table w) g"
      by (rule referenced_subset) (use assms(2) in simp)
    then show False using assms that by (auto simp: ready_def)
  qed
  then show ?thesis using assms(1) by (simp add: ready_def)
qed

subsection \<open>The job row during a run\<close>

definition job_key :: "job_row \<Rightarrow> job_row" where
  "job_key j = j\<lparr>dj_deleted := 0, dj_table := None\<rparr>"

definition same_jobs :: "hist_db \<Rightarrow> hist_db \<Rightarrow> bool" where
  "same_jobs d d' = (map job_key (del_jobs d) = map job_key (del_jobs d'))"

definition unstopped :: "string \<Rightarrow> hist_db \<Rightarrow> bool" where
  "unstopped i d =
    (list_ex (\<lambda>j. dj_id j = i) (del_jobs d) \<and>
     (\<forall>j \<in> set (del_jobs d). dj_id j = i \<longrightarrow> dj_state j \<noteq> ''cancelling'') \<and>
     count_where active (del_jobs d) \<le> 1)"

lemma job_key_simps [simp]:
  "dj_id (job_key j) = dj_id j" "dj_state (job_key j) = dj_state j"
  by (simp_all add: job_key_def)

lemma active_key [simp]: "active (job_key j) = active j"
  by (simp add: active_def)

lemma count_map: "count_where p (map f t) = count_where (\<lambda>r. p (f r)) t"
  by (induction t) simp_all

lemma same_jobs_count: "same_jobs d d' \<Longrightarrow> count_where active (del_jobs d) = count_where active (del_jobs d')"
  unfolding same_jobs_def by (metis (mono_tags, lifting) active_key count_map count_where_cong)

lemma unstopped_key: "unstopped i d =
    (list_ex (\<lambda>j. dj_id j = i) (map job_key (del_jobs d)) \<and>
     (\<forall>j \<in> set (map job_key (del_jobs d)). dj_id j = i \<longrightarrow> dj_state j \<noteq> ''cancelling'') \<and>
     count_where active (map job_key (del_jobs d)) \<le> 1)"
  by (auto simp: unstopped_def list_ex_iff count_map)

lemma same_jobs_unstopped: "same_jobs d d' \<Longrightarrow> unstopped i d \<Longrightarrow> unstopped i d'"
  by (simp add: unstopped_key same_jobs_def)

lemma same_jobs_trans: "same_jobs d d' \<Longrightarrow> same_jobs d' d'' \<Longrightarrow> same_jobs d d''"
  by (simp add: same_jobs_def)

lemma report_ok:
  assumes "count_where active (del_jobs d) \<le> 1"
  obtains d' where "mark i (\<lambda>j. j\<lparr>dj_deleted := n, dj_table := t\<rparr>) d = Inr d'"
    and "hist_tables d' = hist_tables d" and "same_jobs d d'"
proof -
  let ?f = "\<lambda>j. j\<lparr>dj_deleted := n, dj_table := t\<rparr>"
  have "count_where active (upd_where (\<lambda>j. dj_id j = i) ?f (del_jobs d)) = count_where active (del_jobs d)"
    by (rule count_where_upd_same) (simp add: active_def)
  moreover have "map job_key (upd_where (\<lambda>j. dj_id j = i) ?f (del_jobs d)) = map job_key (del_jobs d)"
    by (rule map_upd_where) (simp add: job_key_def)
  ultimately show ?thesis using assms
    by (intro that [of "d\<lparr>del_jobs := upd_where (\<lambda>j. dj_id j = i) ?f (del_jobs d)\<rparr>"])
      (simp_all add: mark_def update_jobs_def same_jobs_def)
qed

subsection \<open>One table\<close>

lemma poll_passes:
  "unstopped (rv_id v) d \<Longrightarrow> run_step now (Polling v w ws, d) = (Deleting v w ws, d)"
  by (auto simp: unstopped_def job_of_def list_ex_find dest: find_Some_in split: option.splits)

lemma batch_succeeds:
  assumes "ready v I w (hist_tables d)"
  shows "\<exists>T'. run_step now (Deleting v w ws, d) =
      (Reporting (v\<lparr>rv_deleted := rv_deleted v + length (taken 500 (vars_scope v I (work_table w)) (hist_tables d (work_table w)))\<rparr>)
         w ws (length (taken 500 (vars_scope v I (work_table w)) (hist_tables d (work_table w)))), d\<lparr>hist_tables := T'\<rparr>) \<and>
    agree T' ((hist_tables d)(work_table w := del_limit 500 (vars_scope v I (work_table w)) (hist_tables d (work_table w))))"
proof -
  let ?t = "work_table w" and ?p = "vars_scope v I (work_table w)" and ?T = "hist_tables d"
  have "work_batch w v ?T = delete_batch 500 ?t ?p ?T"
    using assms by (simp add: ready_def)
  also have "\<dots> = Inr (cascade ?t (taken 500 ?p (?T ?t)) (?T(?t := del_limit 500 ?p (?T ?t))), length (taken 500 ?p (?T ?t)))"
    by (rule delete_batch_succeeds) (use assms in \<open>simp add: ready_def\<close>)
  finally show ?thesis
    by (intro exI [of _ "cascade ?t (taken 500 ?p (?T ?t)) (?T(?t := del_limit 500 ?p (?T ?t)))"])
      (simp add: agree_def cascade_other)
qed

lemma funpow_add_apply: "(f ^^ (m + n)) x = (f ^^ n) ((f ^^ m) x)"
  by (metis add.commute comp_apply funpow_add)

lemma funpow_three: "(f ^^ (3 + n)) x = (f ^^ n) (f (f (f x)))"
  unfolding funpow_add_apply by (simp add: numeral_3_eq_3)

text \<open>One round of the loop: query, batch, report.\<close>

lemma table_round:
  fixes v w I d
  defines "p \<equiv> vars_scope v I (work_table w)" and "x \<equiv> hist_tables d (work_table w)"
  assumes ready: "ready v I w (hist_tables d)" and go: "unstopped (rv_id v) d"
  shows "\<exists>d'. run_step now (run_step now (run_step now (Polling v w ws, d))) =
      (if length (taken 500 p x) = 0 then next_table (v\<lparr>rv_deleted := rv_deleted v + length (taken 500 p x)\<rparr>) ws
       else Polling (v\<lparr>rv_deleted := rv_deleted v + length (taken 500 p x)\<rparr>) w ws, d') \<and>
    agree (hist_tables d') ((hist_tables d)(work_table w := del_limit 500 p x)) \<and>
    same_jobs d d'"
proof -
  obtain T' where T': "run_step now (Deleting v w ws, d) =
      (Reporting (v\<lparr>rv_deleted := rv_deleted v + length (taken 500 p x)\<rparr>) w ws (length (taken 500 p x)), d\<lparr>hist_tables := T'\<rparr>)"
    "agree T' ((hist_tables d)(work_table w := del_limit 500 p x))"
    using batch_succeeds [OF ready, of now ws] unfolding p_def x_def by blast
  have c: "count_where active (del_jobs (d\<lparr>hist_tables := T'\<rparr>)) \<le> 1" using go by (simp add: unstopped_def)
  obtain d' where d': "mark (rv_id v) (\<lambda>j. j\<lparr>dj_deleted := rv_deleted v + length (taken 500 p x),
      dj_table := Some (work_table w)\<rparr>) (d\<lparr>hist_tables := T'\<rparr>) = Inr d'"
    "hist_tables d' = T'" "same_jobs (d\<lparr>hist_tables := T'\<rparr>) d'"
    by (rule report_ok [OF c, where i = "rv_id v" and n = "rv_deleted v + length (taken 500 p x)" and t = "Some (work_table w)"]) simp
  have same: "same_jobs d d'" using d'(3) by (simp add: same_jobs_def)
  have "run_step now (run_step now (run_step now (Polling v w ws, d))) =
      (if length (taken 500 p x) = 0 then next_table (v\<lparr>rv_deleted := rv_deleted v + length (taken 500 p x)\<rparr>) ws
       else Polling (v\<lparr>rv_deleted := rv_deleted v + length (taken 500 p x)\<rparr>) w ws, d')"
    by (simp add: poll_passes [OF go] T'(1) d'(1) del: run_step.simps(3,5))
  then show ?thesis using T'(2) d'(2) same by blast
qed

lemma table_done:
  assumes "ready v I w (hist_tables d)" and "unstopped (rv_id v) d"
  shows "\<exists>n d'. (run_step now ^^ n) (Polling v w ws, d) =
      (next_table (v\<lparr>rv_deleted := rv_deleted v + count_where (vars_scope v I (work_table w)) (hist_tables d (work_table w))\<rparr>) ws, d') \<and>
    agree (hist_tables d') ((hist_tables d)(work_table w := del_where (vars_scope v I (work_table w)) (hist_tables d (work_table w)))) \<and>
    same_jobs d d'"
proof -
  define t where "t = work_table w"
  define p where "p = vars_scope v I t"
  have "\<forall>d m. hist_tables d t = x \<longrightarrow> ready v I w (hist_tables d) \<longrightarrow> unstopped (rv_id v) d \<longrightarrow>
    (\<exists>n d'. (run_step now ^^ n) (Polling (v\<lparr>rv_deleted := m\<rparr>) w ws, d) = (next_table (v\<lparr>rv_deleted := m + count_where p x\<rparr>) ws, d') \<and>
      agree (hist_tables d') ((hist_tables d)(t := del_where p x)) \<and> same_jobs d d')" for x
  proof (induction x rule: table_batch.batch_induct [where k = 499 and p = p])
    case (1 x)
    show ?case
    proof (intro allI impI)
      fix d m
      assume x: "hist_tables d t = x" and rdy: "ready v I w (hist_tables d)" and go: "unstopped (rv_id v) d"
      have rdy': "ready (v\<lparr>rv_deleted := m\<rparr>) I w (hist_tables d)" and go': "unstopped (rv_id (v\<lparr>rv_deleted := m\<rparr>)) d"
        using rdy go by simp_all
      obtain d' where d': "run_step now (run_step now (run_step now (Polling (v\<lparr>rv_deleted := m\<rparr>) w ws, d))) = (next_table (v\<lparr>rv_deleted := m\<rparr>) ws, d')"
        "agree (hist_tables d') ((hist_tables d)(t := x))" "same_jobs d d'"
        using table_round [OF rdy' go', of now ws] 1
        by (auto simp: t_def [symmetric] p_def [symmetric] x taken_none del_limit_none)
      show "\<exists>n d'. (run_step now ^^ n) (Polling (v\<lparr>rv_deleted := m\<rparr>) w ws, d) = (next_table (v\<lparr>rv_deleted := m + count_where p x\<rparr>) ws, d') \<and>
          agree (hist_tables d') ((hist_tables d)(t := del_where p x)) \<and> same_jobs d d'"
        using d' 1 by (intro exI [of _ 3] exI [of _ d']) (simp add: numeral_3_eq_3 del_where_none del: run_step.simps)
    qed
  next
    case (2 x)
    have batch_size: "Suc 499 = 500" by simp
    define y where "y = del_limit 500 p x"
    define k where "k = length (taken 500 p x)"
    have k: "0 < k" "count_where p y + k = count_where p x" "del_where p y = del_where p x"
      using 2(1) by (simp_all add: k_def y_def length_taken count_del_limit del_where_del_limit)
    have IH: "\<forall>d m. hist_tables d t = y \<longrightarrow> ready v I w (hist_tables d) \<longrightarrow> unstopped (rv_id v) d \<longrightarrow>
      (\<exists>n d'. (run_step now ^^ n) (Polling (v\<lparr>rv_deleted := m\<rparr>) w ws, d) = (next_table (v\<lparr>rv_deleted := m + count_where p y\<rparr>) ws, d') \<and>
        agree (hist_tables d') ((hist_tables d)(t := del_where p y)) \<and> same_jobs d d')"
      using 2(2) unfolding y_def fst_conv batch_size .
    show ?case
    proof (intro allI impI)
      fix d m
      assume x: "hist_tables d t = x" and rdy: "ready v I w (hist_tables d)" and go: "unstopped (rv_id v) d"
      have rdy': "ready (v\<lparr>rv_deleted := m\<rparr>) I w (hist_tables d)" and go': "unstopped (rv_id (v\<lparr>rv_deleted := m\<rparr>)) d"
        using rdy go by simp_all
      obtain d1 where d1: "run_step now (run_step now (run_step now (Polling (v\<lparr>rv_deleted := m\<rparr>) w ws, d))) = (Polling (v\<lparr>rv_deleted := m + k\<rparr>) w ws, d1)"
        "agree (hist_tables d1) ((hist_tables d)(t := y))" "same_jobs d d1"
        using table_round [OF rdy' go', of now ws] k(1)
        by (auto simp: t_def [symmetric] p_def [symmetric] x k_def y_def)
      have tg: "t \<noteq> ''deployment_grace_periods''" using rdy by (simp add: ready_def t_def)
      have y: "hist_tables d1 t = y" using d1(2) tg by (simp add: agree_def)
      have "ready v I w ((hist_tables d)(t := y))"
        unfolding t_def by (rule ready_shrink [OF rdy]) (simp add: y_def x [symmetric] t_def del_limit_subset)
      then have rdy1: "ready v I w (hist_tables d1)" using ready_agree [OF d1(2)] by simp
      have go1: "unstopped (rv_id v) d1" by (rule same_jobs_unstopped [OF d1(3) go])
      obtain n d' where d': "(run_step now ^^ n) (Polling (v\<lparr>rv_deleted := m + k\<rparr>) w ws, d1) = (next_table (v\<lparr>rv_deleted := m + k + count_where p y\<rparr>) ws, d')"
        "agree (hist_tables d') ((hist_tables d1)(t := del_where p y))" "same_jobs d1 d'"
        using IH y rdy1 go1 by blast
      have total: "m + k + count_where p y = m + count_where p x" using k(2) by simp
      have "agree ((hist_tables d1)(t := del_where p y)) ((hist_tables d)(t := del_where p x))"
        using d1(2) k(3) by (simp add: agree_def)
      then have "agree (hist_tables d') ((hist_tables d)(t := del_where p x))" by (rule agree_trans [OF d'(2)])
      moreover have "(run_step now ^^ (3 + n)) (Polling (v\<lparr>rv_deleted := m\<rparr>) w ws, d) = (next_table (v\<lparr>rv_deleted := m + count_where p x\<rparr>) ws, d')"
        using d'(1) unfolding funpow_three d1(1) total .
      ultimately show "\<exists>n d'. (run_step now ^^ n) (Polling (v\<lparr>rv_deleted := m\<rparr>) w ws, d) = (next_table (v\<lparr>rv_deleted := m + count_where p x\<rparr>) ws, d') \<and>
          agree (hist_tables d') ((hist_tables d)(t := del_where p x)) \<and> same_jobs d d'"
        using same_jobs_trans [OF d1(3) d'(3)] by blast
    qed
  qed
  from this [of "hist_tables d t", rule_format, OF refl assms, of "rv_deleted v"] show ?thesis
    by (simp add: t_def p_def)
qed

subsection \<open>All tables of a job\<close>

lemma erased_insert:
  "u \<notin> us \<Longrightarrow> (erased P us T)(u := del_where (P u) (erased P us T u)) = erased P (insert u us) T"
  by (auto simp: erased_def)

lemma works_done:
  assumes "\<And>pre w post. ws = pre @ w # post \<Longrightarrow> ready v I w (erased (vars_scope v I) (set (map work_table pre)) (hist_tables d))"
    and "distinct (map work_table ws)" and "unstopped (rv_id v) d"
  shows "\<exists>n d'. (run_step now ^^ n) (next_table v (ws @ rest), d) =
      (next_table (v\<lparr>rv_deleted := rv_deleted v + (\<Sum>u \<leftarrow> map work_table ws. count_where (vars_scope v I u) (hist_tables d u))\<rparr>) rest, d') \<and>
    agree (hist_tables d') (erased (vars_scope v I) (set (map work_table ws)) (hist_tables d)) \<and>
    same_jobs d d'"
  using assms
proof (induction ws arbitrary: rest rule: rev_induct)
  case Nil
  show ?case by (intro exI [of _ 0] exI [of _ d]) (simp add: erased_def same_jobs_def)
next
  case (snoc w ws)
  let ?P = "vars_scope v I" and ?T = "hist_tables d" and ?us = "set (map work_table ws)" and ?t = "work_table w"
  let ?m = "rv_deleted v + (\<Sum>u \<leftarrow> map work_table ws. count_where (?P u) (?T u))"
  have pre: "ready v I w' (erased ?P (set (map work_table pre)) ?T)" if "ws = pre @ w' # post" for pre w' post
    by (rule snoc.prems(1) [of pre w' "post @ [w]"]) (simp add: that)
  have rdy: "ready v I w (erased ?P ?us ?T)" by (rule snoc.prems(1) [of ws w "[]"]) simp
  have fresh: "?t \<notin> ?us" and dist: "distinct (map work_table ws)" using snoc.prems(2) by auto
  have "\<exists>n d'. (run_step now ^^ n) (next_table v (ws @ w # rest), d) = (next_table (v\<lparr>rv_deleted := ?m\<rparr>) (w # rest), d') \<and>
      agree (hist_tables d') (erased ?P ?us ?T) \<and> same_jobs d d'"
    by (rule snoc.IH [OF _ dist snoc.prems(3)]) (erule pre)
  then obtain n d1 where d1: "(run_step now ^^ n) (next_table v (ws @ w # rest), d) = (Polling (v\<lparr>rv_deleted := ?m\<rparr>) w rest, d1)"
    "agree (hist_tables d1) (erased ?P ?us ?T)" "same_jobs d d1"
    by auto
  have tg: "?t \<noteq> ''deployment_grace_periods''" using rdy by (simp add: ready_def)
  have same_t: "hist_tables d1 ?t = ?T ?t" using d1(2) tg fresh by (simp add: agree_def erased_def)
  have rdy1: "ready (v\<lparr>rv_deleted := ?m\<rparr>) I w (hist_tables d1)" using rdy ready_agree [OF d1(2)] by simp
  have go1: "unstopped (rv_id (v\<lparr>rv_deleted := ?m\<rparr>)) d1" using same_jobs_unstopped [OF d1(3) snoc.prems(3)] by simp
  obtain n' d' where d': "(run_step now ^^ n') (Polling (v\<lparr>rv_deleted := ?m\<rparr>) w rest, d1) =
      (next_table (v\<lparr>rv_deleted := ?m + count_where (?P ?t) (?T ?t)\<rparr>) rest, d')"
    "agree (hist_tables d') ((hist_tables d1)(?t := del_where (?P ?t) (?T ?t)))" "same_jobs d1 d'"
    using table_done [OF rdy1 go1, of now rest] by (auto simp: same_t)
  have "agree ((hist_tables d1)(?t := del_where (?P ?t) (?T ?t))) (erased ?P (insert ?t ?us) ?T)"
    using d1(2) by (simp add: agree_def erased_def)
  then have "agree (hist_tables d') (erased ?P (set (map work_table (ws @ [w]))) ?T)"
    using agree_trans [OF d'(2)] by simp
  moreover have "(run_step now ^^ (n + n')) (next_table v ((ws @ [w]) @ rest), d) =
      (next_table (v\<lparr>rv_deleted := rv_deleted v + (\<Sum>u \<leftarrow> map work_table (ws @ [w]). count_where (?P u) (?T u))\<rparr>) rest, d')"
    using d1(1) d'(1) by (simp add: funpow_add_apply add.assoc)
  ultimately show ?case using same_jobs_trans [OF d1(3) d'(3)] by blast
qed

text \<open>
  The tables of a job stand in an order in which every batch goes through: the samples of a
  resource before its instances, and children before parents.
\<close>

definition no_checks :: "run_vars \<Rightarrow> tables \<Rightarrow> bool" where
  "no_checks v T =
    (\<forall>h \<in> set (T ''health_checks''). \<forall>g \<in> set (T ''resources'').
       vars_scope v (T ''container_instances'') ''resources'' g \<longrightarrow> \<not> refers ''resource_id'' h g)"

lemma distinct_work: "distinct (map work_table (all_work k))"
  by (cases k) (simp_all add: table_lists Let_def)

lemma history_prefix:
  assumes "all_work k = pre @ History t # post"
  shows "''container_instances'' \<notin> set (map work_table pre)" and "t \<in> set (deletionTables k)"
proof -
  have sp: "map History A @ map Metadata B = pre @ History t # post \<Longrightarrow> set (map work_table pre) \<subseteq> set A \<and> t \<in> set A" for A B pre
  proof (induction A arbitrary: pre)
    case Nil
    then have "History t \<in> set (map Metadata B)" by (metis append_Nil in_set_conv_decomp list.simps(8))
    then show ?case by auto
  next
    case (Cons a A)
    show ?case
    proof (cases pre)
      case Nil
      then show ?thesis using Cons.prems by simp
    next
      case (Cons x xs)
      then show ?thesis using Cons.IH [of xs] Cons.prems by auto
    qed
  qed
  have "set (map work_table pre) \<subseteq> set (deletionTables k) \<and> t \<in> set (deletionTables k)"
    by (rule sp [of _ "metadataDeletionTables k"]) (use assms in \<open>simp add: all_work_def\<close>)
  moreover have "''container_instances'' \<notin> set (deletionTables k)" by (simp add: deletionTables_def Let_def)
  ultimately show "''container_instances'' \<notin> set (map work_table pre)" "t \<in> set (deletionTables k)" by blast+
qed

lemma metadata_prefix:
  assumes "all_work k = pre @ Metadata t # post"
  shows "t \<in> set (metadataDeletionTables k)"
    and "t = ''resources'' \<Longrightarrow> ''container_instances'' \<in> set (map work_table pre)"
    and "t = ''hosts'' \<Longrightarrow> ''resources'' \<in> set (map work_table pre) \<and> ''boot_sessions'' \<in> set (map work_table pre)"
proof -
  have sp: "map History A @ map Metadata B = pre @ Metadata t # post \<Longrightarrow>
      (\<exists>C D. B = C @ t # D \<and> set C \<subseteq> set (map work_table pre))" for A B pre
  proof (induction A arbitrary: pre)
    case Nil
    then obtain C D where "B = C @ D" "pre = map Metadata C" "Metadata t # post = map Metadata D"
      by (auto simp: map_eq_append_conv)
    then show ?case by (intro exI [of _ C] exI [of _ "tl D"]) (auto simp: Cons_eq_map_conv)
  next
    case (Cons a A)
    then obtain xs where "pre = History a # xs" "map History A @ map Metadata B = xs @ Metadata t # post"
      by (cases pre) auto
    then show ?case using Cons.IH [of xs] by auto
  qed
  obtain C D where cd: "metadataDeletionTables k = C @ t # D" "set C \<subseteq> set (map work_table pre)"
    using sp [of "deletionTables k" "metadataDeletionTables k" pre] assms by (auto simp: all_work_def)
  then show "t \<in> set (metadataDeletionTables k)" by simp
  show "''container_instances'' \<in> set (map work_table pre)" if "t = ''resources''"
    using cd that by (auto simp: metadataDeletionTables_def Cons_eq_append_conv split: if_splits)
  show "''resources'' \<in> set (map work_table pre) \<and> ''boot_sessions'' \<in> set (map work_table pre)" if "t = ''hosts''"
    using cd that by (auto simp: metadataDeletionTables_def Cons_eq_append_conv split: if_splits)
qed

lemma not_parent: "t \<noteq> ''hosts'' \<Longrightarrow> t \<noteq> ''resources'' \<Longrightarrow> \<not> referenced T t g"
  by (auto simp: referenced_def foreign_keys_def)

lemma resource_free:
  assumes "\<And>c. c \<in> set (T ''container_instances'') \<Longrightarrow> \<not> refers ''resource_id'' c g"
    and "\<And>h. h \<in> set (T ''health_checks'') \<Longrightarrow> \<not> refers ''resource_id'' h g"
  shows "\<not> referenced T ''resources'' g"
  using assms by (auto simp: referenced_def foreign_keys_def list_ex_iff)

lemma host_free:
  "T ''resources'' = [] \<Longrightarrow> T ''boot_sessions'' = [] \<Longrightarrow> \<not> referenced T ''hosts'' g"
  by (simp add: referenced_def foreign_keys_def)

lemma work_ready:
  assumes sp: "all_work (rv_kind v) = pre @ w # post"
    and free: "w = Metadata ''resources'' \<Longrightarrow> no_checks v T" and I: "I = T ''container_instances''"
  shows "ready v I w (erased (vars_scope v I) (set (map work_table pre)) T)"
proof (cases w)
  case (History t)
  let ?E = "erased (vars_scope v I) (set (map work_table pre)) T"
  have t: "t \<in> set (deletionTables (rv_kind v))" and ci: "?E ''container_instances'' = I"
    using history_prefix [of "rv_kind v" pre t post] sp by (auto simp: History erased_def I)
  have nt: "t \<noteq> ''hosts''" "t \<noteq> ''resources''" "t \<noteq> ''deployment_grace_periods''" "t \<noteq> ''container_instances''"
    using t by (auto simp: deletionTables_def Let_def split: if_splits)
  have "work_batch w v T' = delete_batch 500 t (vars_scope v I t) T'" if "agree T' (?E(t := T' t))" for T'
    unfolding History by (rule history_batch [OF t]) (use that nt ci in \<open>simp add: agree_def\<close>)
  then show ?thesis using nt by (simp add: ready_def History not_parent)
next
  case (Metadata t)
  let ?E = "erased (vars_scope v I) (set (map work_table pre)) T"
  have sp': "all_work (rv_kind v) = pre @ Metadata t # post" using sp Metadata by simp
  note t = metadata_prefix [OF sp']
  have nt: "t \<noteq> ''deployment_grace_periods''" using t(1) by (auto simp: metadataDeletionTables_def split: if_splits)
  have "\<not> referenced ?E t g" if g: "g \<in> set (?E t)" "vars_scope v I t g" for g
  proof -
    consider "t = ''resources''" | "t = ''hosts''" | "t \<noteq> ''hosts'' \<and> t \<noteq> ''resources''" by blast
    then show ?thesis
    proof cases
      case 1
      have scope: "rv_kind v = DeleteAll \<or> rv_kind v = DeleteArchived \<and> text_is (g ''id'') (rv_resource v)"
        using g(2) 1 by (auto simp: in_scope_def deletionTables_def Let_def split: if_splits)
      have ci: "?E ''container_instances'' = del_where (vars_scope v I ''container_instances'') I"
        using t(2) [OF 1] by (simp add: erased_def I)
      have "g \<in> set (T ''resources'')" using g(1) 1 by (auto simp: erased_def split: if_splits)
      then have h: "\<not> refers ''resource_id'' h g" if "h \<in> set (T ''health_checks'')" for h
        using free g(2) that 1 Metadata by (auto simp: no_checks_def I)
      have "''health_checks'' \<notin> set (map work_table (all_work (rv_kind v)))"
        by (cases "rv_kind v") (simp_all add: table_lists Let_def)
      then have hc: "?E ''health_checks'' = T ''health_checks''" by (auto simp: erased_def sp)
      show ?thesis unfolding 1
      proof (rule resource_free)
        show "\<not> refers ''resource_id'' c g" if "c \<in> set (?E ''container_instances'')" for c
          using that scope unfolding ci by (auto simp: in_scope_def refers_def text_is_def)
        show "\<not> refers ''resource_id'' h' g" if "h' \<in> set (?E ''health_checks'')" for h'
          using that h unfolding hc by blast
      qed
    next
      case 2
      have k: "rv_kind v = DeleteAll" using t(1) 2 by (auto simp: metadataDeletionTables_def split: if_splits)
      show ?thesis unfolding 2
        by (rule host_free) (use t(3) [OF 2] k in \<open>auto simp: erased_def in_scope_def del_where_def\<close>)
    next
      case 3
      then show ?thesis by (simp add: not_parent)
    qed
  qed
  then show ?thesis using nt metadata_batch [OF t(1)] by (simp add: ready_def Metadata)
qed

lemma in_scope_tables:
  assumes "in_scope k r b f I u x" shows "u \<in> set (map work_table (all_work k))"
proof -
  have "set (map work_table (all_work k)) = set (deletionTables k) \<union> set (metadataDeletionTables k)"
    by (simp add: all_work_def image_Un image_comp comp_def)
  moreover have "u \<in> set (deletionTables k) \<or> u \<in> set (metadataDeletionTables k)"
    using assms unfolding in_scope_def metadataDeletionTables_def by (elim disjE conjE) auto
  ultimately show ?thesis by simp
qed

subsection \<open>From the claim to the end\<close>

lemma claim_running:
  assumes job: "job_of (rv_id v) d = Some j" and ids: "distinct (map dj_id (del_jobs d))"
    and alone: "\<And>j'. j' \<in> set (del_jobs d) \<Longrightarrow> dj_id j' \<noteq> rv_id v \<Longrightarrow> \<not> active j'"
  obtains d1 where "run_step now (Claiming v, d) = (next_table v (all_work (rv_kind v)), d1)"
    and "hist_tables d1 = hist_tables d" and "unstopped (rv_id v) d1"
proof -
  define f where "f = (\<lambda>j :: job_row. j\<lparr>dj_state := ''running'', dj_started_at := Some (unix_milli now)\<rparr>)"
  define js where "js = upd_where (\<lambda>j. dj_id j = rv_id v) f (del_jobs d)"
  have jin: "j \<in> set (del_jobs d)" "dj_id j = rv_id v" using job by (auto simp: job_of_def dest: find_Some_in)
  have fid: "dj_id (f j) = dj_id j" for j by (simp add: f_def)
  have ids': "map dj_id js = map dj_id (del_jobs d)" unfolding js_def by (rule map_upd_where) (rule fid)
  have fj: "f j \<in> set js" unfolding js_def by (rule upd_where_hit) (use jin in simp_all)
  have one: "count_where active js \<le> 1"
  proof -
    have "count_where active js \<le> count_where (\<lambda>j'. dj_id j' = rv_id v \<and> True) js"
      by (rule count_where_mono) (use alone in \<open>auto simp: js_def upd_where_def f_def split: if_splits\<close>)
    also have "\<dots> = 1"
      using count_where_key [OF _ fj, of dj_id "\<lambda>_. True"] ids' ids jin(2) fid [of j] by simp
    finally show ?thesis .
  qed
  have "dj_state j' = ''running''" if "j' \<in> set js" "dj_id j' = rv_id v" for j'
    using that by (auto simp: js_def f_def upd_where_def split: if_splits)
  then have "unstopped (rv_id v) (d\<lparr>del_jobs := js\<rparr>)"
    using one fj fid [of j] jin(2) by (auto simp: unstopped_def list_ex_iff)
  moreover have "run_step now (Claiming v, d) = (next_table v (all_work (rv_kind v)), d\<lparr>del_jobs := js\<rparr>)"
    using one by (simp add: mark_def update_jobs_def Let_def js_def f_def)
  ultimately show ?thesis using that by simp
qed

text \<open>A statement that takes the job out of the active states.\<close>

lemma mark_inactive:
  assumes go: "unstopped i d" and dead: "\<And>j. \<not> active (f j)" and fid: "\<And>j. dj_id (f j) = dj_id j"
  obtains d' j where "mark i f d = Inr d'" and "hist_tables d' = hist_tables d" and "job_of i d' = Some (f j)"
proof -
  define d' where "d' = d\<lparr>del_jobs := upd_where (\<lambda>j. dj_id j = i) f (del_jobs d)\<rparr>"
  have "count_where active (upd_where (\<lambda>j. dj_id j = i) f (del_jobs d)) \<le> count_where active (del_jobs d)"
    by (rule count_where_upd_le) (simp add: dead)
  then have m: "mark i f d = Inr d'" using go by (simp add: mark_def update_jobs_def Let_def d'_def unstopped_def)
  obtain j where j: "find (\<lambda>j. dj_id j = i) (del_jobs d) = Some j"
    using go by (auto simp: unstopped_def list_ex_find)
  have "job_of i d' = Some (f j)"
    using j find_Some_in [OF j] by (simp add: job_of_def d'_def find_upd_keep [where kf = dj_id, OF fid])
  then show ?thesis using that [OF m] by (simp add: d'_def)
qed

lemma erased_all:
  assumes "agree T' (erased (in_scope k r b f I) (set (map work_table (all_work k))) T)" and u: "u \<noteq> ''deployment_grace_periods''"
  shows "T' u = del_where (in_scope k r b f I u) (T u)"
proof (cases "u \<in> set (map work_table (all_work k))")
  case True
  then show ?thesis using assms by (simp add: agree_def erased_def)
next
  case False
  then have "\<not> in_scope k r b f I u x" for x using in_scope_tables by blast
  then show ?thesis using assms False by (simp add: agree_def erased_def del_where_def)
qed

text \<open>
  A run that has read its job completes it: the tables are erased in one stroke as the
  specification says, and the job counts the rows that were in scope. All that is needed is
  that no other job is active and that no check refers to a resource that is purged. The state
  of the job itself does not matter.
\<close>

lemma claim_completes:
  fixes v d
  defines "k \<equiv> rv_kind v" and "T \<equiv> hist_tables d"
  defines "I \<equiv> T ''container_instances''"
  assumes job: "job_of (rv_id v) d = Some j" and ids: "distinct (map dj_id (del_jobs d))"
    and alone: "\<And>j'. j' \<in> set (del_jobs d) \<Longrightarrow> dj_id j' \<noteq> rv_id v \<Longrightarrow> \<not> active j'"
    and free: "no_checks v T" and zero: "rv_deleted v = 0"
  shows "\<exists>n d' j'. (run_step now ^^ n) (Claiming v, d) = (Returned None, d') \<and>
    (\<forall>u. u \<noteq> ''deployment_grace_periods'' \<longrightarrow> hist_tables d' u = del_where (vars_scope v I u) (T u)) \<and>
    job_of (rv_id v) d' = Some j' \<and> dj_state j' = ''completed'' \<and>
    dj_deleted j' = deletionCountTx k (rv_resource v) (rv_before v) (rv_fence v) T"
proof -
  obtain d1 where claim: "run_step now (Claiming v, d) = (next_table v (all_work k), d1)"
    and T1: "hist_tables d1 = T" and go: "unstopped (rv_id v) d1"
    unfolding k_def T_def by (rule claim_running [OF job ids alone])
  define m where "m = (\<Sum>u \<leftarrow> map work_table (all_work k). count_where (vars_scope v I u) (T u))"
  have m: "m = deletionCountTx k (rv_resource v) (rv_before v) (rv_fence v) T"
    by (simp add: m_def deletionCount_scope k_def I_def)
  have rdy: "ready v I w (erased (vars_scope v I) (set (map work_table pre)) (hist_tables d1))"
    if "all_work k = pre @ w # post" for pre w post
    unfolding T1 by (rule work_ready [where post = post]) (use that free in \<open>simp_all add: k_def I_def\<close>)
  have "\<exists>n d'. (run_step now ^^ n) (next_table v (all_work k @ []), d1) =
      (next_table (v\<lparr>rv_deleted := rv_deleted v + (\<Sum>u \<leftarrow> map work_table (all_work k). count_where (vars_scope v I u) (hist_tables d1 u))\<rparr>) [], d') \<and>
      agree (hist_tables d') (erased (vars_scope v I) (set (map work_table (all_work k))) (hist_tables d1)) \<and> same_jobs d1 d'"
    by (rule works_done [OF _ distinct_work go]) (erule rdy)
  then obtain n d2 where d2: "(run_step now ^^ n) (next_table v (all_work k), d1) = (Completing (v\<lparr>rv_deleted := m\<rparr>), d2)"
    "agree (hist_tables d2) (erased (vars_scope v I) (set (map work_table (all_work k))) T)" "same_jobs d1 d2"
    by (auto simp: T1 zero m_def)
  define g where "g = (\<lambda>j :: job_row. j\<lparr>dj_state := ''completed'', dj_deleted := m, dj_finished_at := Some (unix_milli now), dj_table := None\<rparr>)"
  obtain d3 j3 where d3: "mark (rv_id v) g d2 = Inr d3" "hist_tables d3 = hist_tables d2" "job_of (rv_id v) d3 = Some (g j3)"
    by (rule mark_inactive [OF same_jobs_unstopped [OF d2(3) go], of g]) (simp_all add: g_def active_def)
  have fin: "run_step now (Completing (v\<lparr>rv_deleted := m\<rparr>), d2) = (Returned None, d3)"
    using d3(1) by (simp add: g_def last_error_def)
  have "(run_step now ^^ (1 + n + 1)) (Claiming v, d) = (Returned None, d3)"
    unfolding funpow_add_apply using claim d2(1) fin by (simp del: run_step.simps)
  moreover have "hist_tables d3 u = del_where (vars_scope v I u) (T u)" if "u \<noteq> ''deployment_grace_periods''" for u
    unfolding d3(2) by (rule erased_all [OF _ that]) (use d2(2) in \<open>simp add: k_def\<close>)
  moreover have "dj_state (g j3) = ''completed''" "dj_deleted (g j3) = deletionCountTx k (rv_resource v) (rv_before v) (rv_fence v) T"
    by (simp_all add: g_def m)
  ultimately show ?thesis using d3(3) by blast
qed

text \<open>
  A purge of a resource that a check refers to gets as far as the resource itself and fails
  there.
\<close>

lemma archived_work: "all_work DeleteArchived = butlast (all_work DeleteArchived) @ [Metadata ''resources'']"
  by (simp add: table_lists Let_def)

lemma purge_fails:
  fixes v d
  defines "T \<equiv> hist_tables d" and "ws \<equiv> butlast (all_work DeleteArchived)"
  defines "I \<equiv> T ''container_instances''"
  assumes job: "job_of (rv_id v) d = Some j" and ids: "distinct (map dj_id (del_jobs d))"
    and alone: "\<And>j'. j' \<in> set (del_jobs d) \<Longrightarrow> dj_id j' \<noteq> rv_id v \<Longrightarrow> \<not> active j'"
    and k: "rv_kind v = DeleteArchived"
    and g: "g \<in> set (T ''resources'')" "vars_scope v I ''resources'' g" "count_where (vars_scope v I ''resources'') (T ''resources'') \<le> 500"
    and h: "h \<in> set (T ''health_checks'')" "refers ''resource_id'' h g"
  shows "\<exists>n d' j'. (run_step now ^^ n) (Claiming v, d) = (Returned (Some (ErrConstraint ''FOREIGN KEY constraint failed'')), d') \<and>
    agree (hist_tables d') (erased (vars_scope v I) (set (map work_table ws)) T) \<and>
    job_of (rv_id v) d' = Some j' \<and> dj_state j' = ''failed''"
proof -
  let ?e = "ErrConstraint ''FOREIGN KEY constraint failed''"
  obtain d1 where claim: "run_step now (Claiming v, d) = (next_table v (ws @ [Metadata ''resources'']), d1)"
    and T1: "hist_tables d1 = T" and go: "unstopped (rv_id v) d1"
    unfolding T_def ws_def by (rule claim_running [OF job ids alone, of now]) (simp_all add: k archived_work [symmetric])
  have rdy: "ready v I w (erased (vars_scope v I) (set (map work_table pre)) (hist_tables d1))"
    if "ws = pre @ w # post" for pre w post
  proof -
    have "w \<in> set ws" using that by simp
    then have "w \<noteq> Metadata ''resources''" by (auto simp: ws_def table_lists Let_def)
    moreover have "all_work (rv_kind v) = pre @ w # post @ [Metadata ''resources'']"
      using archived_work that by (simp add: k ws_def)
    ultimately show ?thesis unfolding T1 by (intro work_ready) (simp_all add: I_def)
  qed
  have dist: "distinct (map work_table ws)" unfolding ws_def by (simp add: table_lists Let_def)
  define m where "m = rv_deleted v + (\<Sum>u \<leftarrow> map work_table ws. count_where (vars_scope v I u) (hist_tables d1 u))"
  have "\<exists>n d'. (run_step now ^^ n) (next_table v (ws @ [Metadata ''resources'']), d1) =
      (next_table (v\<lparr>rv_deleted := m\<rparr>) [Metadata ''resources''], d') \<and>
      agree (hist_tables d') (erased (vars_scope v I) (set (map work_table ws)) (hist_tables d1)) \<and> same_jobs d1 d'"
    unfolding m_def by (rule works_done [OF _ dist go]) (erule rdy)
  then obtain n d2 where d2: "(run_step now ^^ n) (next_table v (ws @ [Metadata ''resources'']), d1) =
      (Polling (v\<lparr>rv_deleted := m\<rparr>) (Metadata ''resources'') [], d2)"
    "agree (hist_tables d2) (erased (vars_scope v I) (set (map work_table ws)) T)" "same_jobs d1 d2"
    by (auto simp: T1)
  let ?v = "v\<lparr>rv_deleted := m\<rparr>" and ?p = "vars_scope v I ''resources''"
  have go2: "unstopped (rv_id v) d2" by (rule same_jobs_unstopped [OF d2(3) go])
  have "''resources'' \<notin> set (map work_table ws)" "''health_checks'' \<notin> set (map work_table ws)"
    by (simp_all add: ws_def table_lists Let_def)
  then have same: "hist_tables d2 ''resources'' = T ''resources''" "hist_tables d2 ''health_checks'' = T ''health_checks''"
    using d2(2) by (simp_all add: agree_def erased_def)
  have "g \<in> set (taken 500 ?p (T ''resources''))" using g by (simp add: taken_def count_where_def)
  moreover have "referenced ((hist_tables d2)(''resources'' := x)) ''resources'' g" for x
    using h same(2) by (auto simp: referenced_def foreign_keys_def list_ex_iff)
  ultimately have "delete_batch 500 ''resources'' ?p (hist_tables d2) = Inl ?e"
    by (auto simp: delete_batch_def Let_def list_ex_iff same(1))
  then have batch: "work_batch (Metadata ''resources'') ?v (hist_tables d2) = Inl ?e"
    using metadata_batch [of "''resources''" v "hist_tables d2" I] by (simp add: k metadataDeletionTables_def)
  define f where "f = (\<lambda>j :: job_row. j\<lparr>dj_state := ''failed'', dj_error := Some (safeDeletionError ?e), dj_finished_at := Some (unix_milli now)\<rparr>)"
  obtain d3 j3 where d3: "mark (rv_id v) f d2 = Inr d3" "hist_tables d3 = hist_tables d2" "job_of (rv_id v) d3 = Some (f j3)"
    by (rule mark_inactive [OF go2, of f]) (simp_all add: f_def active_def)
  have "run_step now (Polling ?v (Metadata ''resources'') [], d2) = (Deleting ?v (Metadata ''resources'') [], d2)"
    by (rule poll_passes) (simp add: go2)
  moreover have "run_step now (Deleting ?v (Metadata ''resources'') [], d2) = (Failing ?v ?e, d2)" using batch by simp
  moreover have "run_step now (Failing ?v ?e, d2) = (Returned (Some ?e), d3)" using d3(1) by (simp add: f_def)
  ultimately have "(run_step now ^^ 3) (Polling ?v (Metadata ''resources'') [], d2) = (Returned (Some ?e), d3)"
    by (simp add: numeral_3_eq_3 del: run_step.simps)
  then have "(run_step now ^^ (1 + n + 3)) (Claiming v, d) = (Returned (Some ?e), d3)"
    unfolding funpow_add_apply using claim d2(1) by (simp del: run_step.simps)
  then show ?thesis using d2(2) d3(2,3) by (intro exI [of _ "1 + n + 3"] exI [of _ d3] exI [of _ "f j3"]) (simp add: f_def)
qed

end
