(* ===== verification/Deletion_Properties.thy ===== *)
theory Deletion_Properties
  imports Deletion_Run
begin

section \<open>Properties of history deletion\<close>

text \<open>
  What an administrator can rely on: a job deletes its scope, nothing outside it, and only after
  the phrase that names the scope was confirmed; and the three places where the code does not
  do what it is meant to (a cancellation that is lost, a purge that cannot succeed, tables that
  a reset leaves).
\<close>

abbreviation job_scope :: "job_row \<Rightarrow> row list \<Rightarrow> string \<Rightarrow> row \<Rightarrow> bool" where
  "job_scope j \<equiv> in_scope (dj_kind j) (null_string (dj_resource_id j)) (nullableInt (dj_before j)) (dj_fence j)"

definition vars_of :: "job_row \<Rightarrow> run_vars" where
  "vars_of j = \<lparr>rv_id = dj_id j, rv_kind = dj_kind j, rv_resource = null_string (dj_resource_id j),
     rv_before = nullableInt (dj_before j), rv_fence = dj_fence j, rv_deleted = 0\<rparr>"

lemma vars_of_simps [simp]:
  "rv_id (vars_of j) = dj_id j" "rv_kind (vars_of j) = dj_kind j"
  "rv_resource (vars_of j) = null_string (dj_resource_id j)" "rv_before (vars_of j) = nullableInt (dj_before j)"
  "rv_fence (vars_of j) = dj_fence j" "rv_deleted (vars_of j) = 0"
  by (simp_all add: vars_of_def)

lemma job_ofD: "job_of i d = Some j \<Longrightarrow> j \<in> set (del_jobs d) \<and> dj_id j = i"
  by (auto simp: job_of_def dest: find_Some_in)

lemma select_queued:
  assumes "job_of i d = Some j" "dj_state j = ''queued''" "distinct (map dj_id (del_jobs d))"
  shows "run_step now (Selecting i, d) = (Claiming (vars_of j), d)"
proof -
  have "find (\<lambda>j. dj_id j = i \<and> dj_state j = ''queued'') (del_jobs d) = Some j"
    by (rule find_only) (use job_ofD [OF assms(1)] assms(2,3) in \<open>auto dest: distinct_map_unique\<close>)
  then show ?thesis using job_ofD [OF assms(1)] by (simp add: vars_of_def)
qed

lemma only_active:
  assumes "count_where active js \<le> 1" "j \<in> set js" "active j" "j' \<in> set js" "dj_id j' \<noteq> dj_id j"
  shows "\<not> active j'"
  using count_where_unique [OF assms(1,2,4)] assms(3,5) by blast

text \<open>
  C24. A run of a queued job, with nothing in between, comes to an end, and the end is the
  specification of a deletion: every table has lost exactly the rows in the scope of the job
  (deployment grace periods go with their resource), the job is completed, and the number of
  deleted rows is the number that a preview of the same scope announces. It needs that no
  check refers to a resource that the job removes.
\<close>

theorem deletion_refines:
  assumes "job_of i d = Some j" and "dj_state j = ''queued''" and "distinct (map dj_id (del_jobs d))"
    and "count_where active (del_jobs d) \<le> 1"
    and "\<forall>h \<in> set (hist_tables d ''health_checks''). \<forall>g \<in> set (hist_tables d ''resources'').
      job_scope j (hist_tables d ''container_instances'') ''resources'' g \<longrightarrow> \<not> refers ''resource_id'' h g"
  shows "\<exists>n d' j'. RunDeletion n now i d = (Returned None, d') \<and>
    (\<forall>u. u \<noteq> ''deployment_grace_periods'' \<longrightarrow>
      hist_tables d' u = del_where (job_scope j (hist_tables d ''container_instances'') u) (hist_tables d u)) \<and>
    job_of i d' = Some j' \<and> dj_state j' = ''completed'' \<and>
    dj_deleted j' = deletionCountTx (dj_kind j) (null_string (dj_resource_id j)) (nullableInt (dj_before j)) (dj_fence j) (hist_tables d)"
proof -
  have j: "j \<in> set (del_jobs d)" "dj_id j = i" using job_ofD [OF assms(1)] by simp_all
  have act: "active j" using assms(2) by (simp add: active_def)
  have alone: "\<not> active j'" if "j' \<in> set (del_jobs d)" "dj_id j' \<noteq> rv_id (vars_of j)" for j'
    using only_active [OF assms(4) j(1) act that(1)] that(2) by simp
  have free: "no_checks (vars_of j) (hist_tables d)" using assms(5) by (simp add: no_checks_def)
  have job: "job_of (rv_id (vars_of j)) d = Some j" using assms(1) j(2) by simp
  obtain n d' j' where run: "(run_step now ^^ n) (Claiming (vars_of j), d) = (Returned None, d')"
    and tabs: "\<forall>u. u \<noteq> ''deployment_grace_periods'' \<longrightarrow>
      hist_tables d' u = del_where (job_scope j (hist_tables d ''container_instances'') u) (hist_tables d u)"
    and fin: "job_of i d' = Some j'" "dj_state j' = ''completed''"
      "dj_deleted j' = deletionCountTx (dj_kind j) (null_string (dj_resource_id j)) (nullableInt (dj_before j)) (dj_fence j) (hist_tables d)"
    using claim_completes [OF job assms(3) alone free, of now] j(2) by auto
  have "RunDeletion (1 + n) now i d = (Returned None, d')"
    unfolding RunDeletion_def funpow_add_apply using select_queued [OF assms(1-3), of now] run by (simp del: run_step.simps)
  then show ?thesis using tabs fin by blast
qed

text \<open>
  C27. A cancellation can be lost. \<open>RunDeletion\<close> reads the queued job, and its next statement sets
  the state to \<^verbatim>\<open>running\<close> whatever the state is by then. When \<open>CancelDeletion\<close> comes between the
  two, it succeeds and the job is cancelled; the run goes on all the same, deletes the whole
  scope and reports the job as completed.
\<close>

theorem cancellation_lost:
  assumes "job_of i d = Some j" and "dj_state j = ''queued''" and "distinct (map dj_id (del_jobs d))"
    and "count_where active (del_jobs d) \<le> 1"
    and "\<forall>h \<in> set (hist_tables d ''health_checks''). \<forall>g \<in> set (hist_tables d ''resources'').
      job_scope j (hist_tables d ''container_instances'') ''resources'' g \<longrightarrow> \<not> refers ''resource_id'' h g"
  shows "\<exists>v d1 j1 n d2 j2. run_step now (Selecting i, d) = (Claiming v, d) \<and>
    CancelDeletion t i d = Inr d1 \<and> job_of i d1 = Some j1 \<and> dj_state j1 = ''cancelled'' \<and>
    (run_step now ^^ n) (Claiming v, d1) = (Returned None, d2) \<and>
    (\<forall>u. u \<noteq> ''deployment_grace_periods'' \<longrightarrow>
      hist_tables d2 u = del_where (job_scope j (hist_tables d ''container_instances'') u) (hist_tables d u)) \<and>
    job_of i d2 = Some j2 \<and> dj_state j2 = ''completed''"
proof -
  have j: "j \<in> set (del_jobs d)" "dj_id j = i" using job_ofD [OF assms(1)] by simp_all
  have act: "active j" using assms(2) by (simp add: active_def)
  define hit where "hit = (\<lambda>j :: job_row. dj_id j = i \<and> dj_state j \<in> {''queued'', ''running''})"
  define f where "f = (\<lambda>j :: job_row. j\<lparr>dj_state := if dj_state j = ''queued'' then ''cancelled'' else ''cancelling'',
     dj_finished_at := if dj_state j = ''queued'' then Some (unix_milli t) else dj_finished_at j\<rparr>)"
  define d1 where "d1 = d\<lparr>del_jobs := upd_where hit f (del_jobs d)\<rparr>"
  have fid: "dj_id (f j) = dj_id j" for j by (simp add: f_def)
  have one: "count_where hit (del_jobs d) = 1"
    using count_where_key [OF assms(3) j(1), of "\<lambda>j'. dj_state j' \<in> {''queued'', ''running''}"] assms(2)
    by (simp add: hit_def j(2))
  have le: "count_where active (upd_where hit f (del_jobs d)) \<le> 1"
  proof -
    have "count_where active (upd_where hit f (del_jobs d)) = count_where (\<lambda>j. active (if hit j then f j else j)) (del_jobs d)"
      by (simp add: upd_where_def count_map)
    also have "\<dots> \<le> count_where active (del_jobs d)"
      by (rule count_where_mono) (auto simp: active_def hit_def f_def split: if_splits)
    finally show ?thesis using assms(4) by simp
  qed
  have cancel: "CancelDeletion t i d = Inr d1"
    unfolding CancelDeletion_def Let_def hit_def [symmetric] f_def [symmetric] update_jobs_def
    using le one by (simp add: d1_def)
  have job1: "job_of i d1 = Some (f j)"
    using assms(1,2) j(2) by (simp add: job_of_def d1_def find_upd_keep [where kf = dj_id, OF fid] hit_def)
  have st: "dj_state (f j) = ''cancelled''" using assms(2) by (simp add: f_def)
  have ids: "distinct (map dj_id (del_jobs d1))"
    using assms(3) by (simp add: d1_def map_upd_where [where g = dj_id, OF fid])
  have alone: "\<not> active j'" if j': "j' \<in> set (del_jobs d1)" "dj_id j' \<noteq> rv_id (vars_of j)" for j'
  proof -
    have "j' \<in> set (del_jobs d)" using j' fid by (auto simp: d1_def hit_def j(2) elim!: upd_whereE split: if_splits)
    then show ?thesis using only_active [OF assms(4) j(1) act] j'(2) by simp
  qed
  have T: "hist_tables d1 = hist_tables d" by (simp add: d1_def)
  have free: "no_checks (vars_of j) (hist_tables d1)" using assms(5) by (simp add: no_checks_def T)
  have job: "job_of (rv_id (vars_of j)) d1 = Some (f j)" using job1 j(2) by simp
  obtain n d2 j2 where "(run_step now ^^ n) (Claiming (vars_of j), d1) = (Returned None, d2)"
    "\<forall>u. u \<noteq> ''deployment_grace_periods'' \<longrightarrow>
      hist_tables d2 u = del_where (job_scope j (hist_tables d ''container_instances'') u) (hist_tables d u)"
    "job_of i d2 = Some j2" "dj_state j2 = ''completed''"
    using claim_completes [OF job ids alone free, of now] j(2) by (auto simp: T)
  then show ?thesis using select_queued [OF assms(1-3), of now] cancel job1 st by blast
qed

subsection \<open>Only what was confirmed\<close>

text \<open>
  The phrase that names a scope. A deletion up to a date names a day, and its bound is the
  requested instant or the time of the preview, whichever is earlier.
\<close>

definition phrase_names :: "DeletionKind \<Rightarrow> string \<Rightarrow> int \<Rightarrow> int \<Rightarrow> string \<Rightarrow> bool" where
  "phrase_names k resource before fence phrase =
    (case k of
       DeleteResource \<Rightarrow> phrase = ''DELETE HISTORY '' @ resource
     | DeleteArchived \<Rightarrow> phrase = ''PURGE ARCHIVED '' @ resource
     | DeleteBefore \<Rightarrow> \<exists>t. before = min (unix_milli t) fence \<and> phrase = ''DELETE HISTORY BEFORE '' @ format_date t
     | DeleteAll \<Rightarrow> phrase = ''RESET ALL HISTORY''
     | OtherKind _ \<Rightarrow> False)"

abbreviation preview_named :: "preview_row \<Rightarrow> bool" where
  "preview_named p \<equiv>
    phrase_names (hp_kind p) (null_string (hp_resource_id p)) (nullableInt (hp_before p)) (hp_fence p) (hp_confirmation p)"

abbreviation job_named :: "job_row \<Rightarrow> bool" where
  "job_named j \<equiv>
    phrase_names (dj_kind j) (null_string (dj_resource_id j)) (nullableInt (dj_before j)) (dj_fence j) (dj_confirmation j)"

fun vars_in :: "run \<Rightarrow> run_vars option" where
  "vars_in (Selecting i) = None"
| "vars_in (Claiming v) = Some v"
| "vars_in (Polling v w ws) = Some v"
| "vars_in (Stopping v) = Some v"
| "vars_in (Deleting v w ws) = Some v"
| "vars_in (Reporting v w ws n) = Some v"
| "vars_in (Failing v e) = Some v"
| "vars_in (Completing v) = Some v"
| "vars_in (Returned e) = None"

fun works_in :: "run \<Rightarrow> work list" where
  "works_in (Polling v w ws) = w # ws"
| "works_in (Deleting v w ws) = w # ws"
| "works_in (Reporting v w ws n) = w # ws"
| "works_in _ = []"

text \<open>What a job is about does not change once it is created.\<close>

definition job_core :: "job_row \<Rightarrow> string \<times> DeletionKind \<times> string option \<times> int option \<times> int \<times> string" where
  "job_core j = (dj_id j, dj_kind j, dj_resource_id j, dj_before j, dj_fence j, dj_confirmation j)"

definition jobs_grow :: "hist_db \<Rightarrow> hist_db \<Rightarrow> bool" where
  "jobs_grow d d' = (job_core ` set (del_jobs d) \<subseteq> job_core ` set (del_jobs d'))"

definition run_ok :: "hist_db \<Rightarrow> run \<Rightarrow> bool" where
  "run_ok d r =
    (case vars_in r of
       None \<Rightarrow> True
     | Some v \<Rightarrow> (\<exists>j \<in> set (del_jobs d). v\<lparr>rv_deleted := 0\<rparr> = vars_of j) \<and>
                 set (works_in r) \<subseteq> set (all_work (rv_kind v)))"

fun worker_ok :: "hist_db \<Rightarrow> worker \<Rightarrow> bool" where
  "worker_ok d Waiting = True"
| "worker_ok d (Running r) = run_ok d r"

definition del_inv :: "worker \<times> hist_db \<Rightarrow> bool" where
  "del_inv s = (worker_ok (snd s) (fst s) \<and> list_all preview_named (previews (snd s)) \<and> list_all job_named (del_jobs (snd s)))"

lemma job_core_vars: "job_core j = job_core j' \<Longrightarrow> vars_of j = vars_of j'"
  by (simp add: job_core_def vars_of_def)

lemma job_core_named: "job_core j = job_core j' \<Longrightarrow> job_named j = job_named j'"
  by (simp add: job_core_def)

lemma run_ok_grow: "run_ok d r \<Longrightarrow> jobs_grow d d' \<Longrightarrow> run_ok d' r"
proof (cases "vars_in r")
  case None
  then show ?thesis by (simp add: run_ok_def)
next
  case (Some v)
  assume r: "run_ok d r" and g: "jobs_grow d d'"
  obtain j where j: "j \<in> set (del_jobs d)" "v\<lparr>rv_deleted := 0\<rparr> = vars_of j" using r Some by (auto simp: run_ok_def)
  have "job_core j \<in> job_core ` set (del_jobs d')" using g j(1) by (auto simp: jobs_grow_def)
  then obtain j' where j': "j' \<in> set (del_jobs d')" "job_core j = job_core j'" by auto
  have "v\<lparr>rv_deleted := 0\<rparr> = vars_of j'" using j(2) job_core_vars [OF j'(2)] by (rule trans)
  then have "\<exists>j \<in> set (del_jobs d'). v\<lparr>rv_deleted := 0\<rparr> = vars_of j" by (rule bexI) (rule j'(1))
  then show ?thesis using r Some by (simp add: run_ok_def)
qed

lemma worker_ok_grow: "worker_ok d w \<Longrightarrow> jobs_grow d d' \<Longrightarrow> worker_ok d' w"
  by (cases w) (auto intro: run_ok_grow)

text \<open>An update of the job table that keeps what the jobs are about.\<close>

definition jobs_kept :: "hist_db \<Rightarrow> hist_db \<Rightarrow> bool" where
  "jobs_kept d d' = (map job_core (del_jobs d') = map job_core (del_jobs d) \<and> previews d' = previews d)"

lemma jobs_kept_grow: "jobs_kept d d' \<Longrightarrow> jobs_grow d d'"
  unfolding jobs_kept_def jobs_grow_def by (metis order_refl set_map)

lemma jobs_kept_named:
  assumes "jobs_kept d d'" and "list_all job_named (del_jobs d)"
  shows "list_all job_named (del_jobs d')"
proof -
  have "job_named j'" if "j' \<in> set (del_jobs d')" for j'
  proof -
    have "job_core j' \<in> job_core ` set (del_jobs d)"
      using that assms(1) unfolding jobs_kept_def by (metis imageI set_map)
    then obtain j where j: "j \<in> set (del_jobs d)" "job_core j' = job_core j" by auto
    have "job_named j" using assms(2) j(1) by (simp add: list_all_iff)
    then show ?thesis using job_core_named [OF j(2)] by simp
  qed
  then show ?thesis by (simp add: list_all_iff)
qed

lemma update_jobs_kept:
  "update_jobs p f d = Inr d' \<Longrightarrow> (\<And>j. job_core (f j) = job_core j) \<Longrightarrow> jobs_kept d d' \<and> hist_tables d' = hist_tables d"
  by (auto simp: update_jobs_def Let_def jobs_kept_def map_upd_where split: if_splits)

lemma mark_kept:
  "mark i f d = Inr d' \<Longrightarrow> (\<And>j. job_core (f j) = job_core j) \<Longrightarrow> jobs_kept d d' \<and> hist_tables d' = hist_tables d"
  unfolding mark_def by (rule update_jobs_kept)

lemma jobs_kept_refl [simp]: "jobs_kept d d"
  by (simp add: jobs_kept_def)

lemma jobs_kept_trans: "jobs_kept d d' \<Longrightarrow> jobs_kept d' d'' \<Longrightarrow> jobs_kept d d''"
  by (simp add: jobs_kept_def)

lemma core_updates [simp]:
  "job_core (j\<lparr>dj_state := a, dj_started_at := b\<rparr>) = job_core j"
  "job_core (j\<lparr>dj_state := a, dj_finished_at := b\<rparr>) = job_core j"
  "job_core (j\<lparr>dj_deleted := c, dj_table := e\<rparr>) = job_core j"
  "job_core (j\<lparr>dj_state := a, dj_error := e', dj_finished_at := b\<rparr>) = job_core j"
  "job_core (j\<lparr>dj_state := a, dj_started_at := b, dj_error := e'\<rparr>) = job_core j"
  "job_core (j\<lparr>dj_state := a, dj_deleted := c, dj_finished_at := b, dj_table := e\<rparr>) = job_core j"
  by (simp_all add: job_core_def)

lemma run_step_kept:
  assumes "run_step now (r, d) = (r', d')"
  shows "jobs_kept d d'"
proof (cases r)
  case (Deleting v w ws)
  then show ?thesis using assms by (auto simp: jobs_kept_def split: sum.splits)
qed (use assms mark_kept in \<open>auto simp: Let_def split: option.splits sum.splits if_splits\<close>)

lemma next_table_ok:
  "v\<lparr>rv_deleted := 0\<rparr> = vars_of j \<Longrightarrow> j \<in> set (del_jobs d) \<Longrightarrow> set ws \<subseteq> set (all_work (rv_kind v)) \<Longrightarrow> run_ok d (next_table v ws)"
  by (cases ws) (auto simp: run_ok_def)

lemma run_okE:
  assumes "run_ok d r" and "vars_in r = Some v"
  obtains j where "j \<in> set (del_jobs d)" "v\<lparr>rv_deleted := 0\<rparr> = vars_of j" "set (works_in r) \<subseteq> set (all_work (rv_kind v))"
  using assms by (auto simp: run_ok_def)

lemma run_step_ok:
  assumes step: "run_step now (r, d) = (r', d')" and ok: "run_ok d r"
  shows "run_ok d' r'"
proof -
  have grow: "jobs_grow d d'" by (rule jobs_kept_grow [OF run_step_kept [OF step]])
  have "run_ok d r'"
  proof (cases r)
    case (Selecting i)
    show ?thesis
    proof (cases "find (\<lambda>j. dj_id j = i \<and> dj_state j = ''queued'') (del_jobs d)")
      case None
      then show ?thesis using step Selecting by (auto simp: run_ok_def)
    next
      case (Some j)
      then have "r' = Claiming (vars_of j)" and "j \<in> set (del_jobs d)"
        using step Selecting find_Some_in [OF Some] by (auto simp: vars_of_def)
      then show ?thesis by (auto simp: run_ok_def vars_of_def)
    qed
  next
    case (Claiming v)
    obtain j where j: "j \<in> set (del_jobs d)" "v\<lparr>rv_deleted := 0\<rparr> = vars_of j"
      by (rule run_okE [OF ok, of v]) (simp_all add: Claiming)
    show ?thesis using step Claiming next_table_ok [OF j(2,1), of "all_work (rv_kind v)"]
      by (auto simp: run_ok_def split: sum.splits)
  next
    case (Polling v w ws)
    then show ?thesis using step ok by (auto simp: run_ok_def split: option.splits if_splits)
  next
    case (Stopping v)
    then show ?thesis using step by (auto simp: run_ok_def Let_def)
  next
    case (Deleting v w ws)
    then show ?thesis using step ok by (auto simp: run_ok_def split: sum.splits)
  next
    case (Reporting v w ws n)
    obtain j where j: "j \<in> set (del_jobs d)" "v\<lparr>rv_deleted := 0\<rparr> = vars_of j" "set (w # ws) \<subseteq> set (all_work (rv_kind v))"
      by (rule run_okE [OF ok, of v]) (simp_all add: Reporting)
    have "run_ok d (next_table v ws)" "run_ok d (Polling v w ws)"
      using next_table_ok [OF j(2,1), of ws] next_table_ok [OF j(2,1), of "w # ws"] j(3) by simp_all
    then show ?thesis using step Reporting by auto
  next
    case (Failing v e)
    then show ?thesis using step by (auto simp: run_ok_def)
  next
    case (Completing v)
    then show ?thesis using step by (auto simp: run_ok_def Let_def)
  next
    case (Returned e)
    then show ?thesis using step by (auto simp: run_ok_def)
  qed
  then show ?thesis by (rule run_ok_grow [OF _ grow])
qed

lemma worker_step_cases:
  assumes "runDeletionWorker now (w, d) = (w', d')"
  obtains "w' = Waiting" "d' = d" | i where "w' = Running (Selecting i)" "d' = d"
  | r r' where "w = Running r" "w' = Running r'" "run_step now (r, d) = (r', d')"
proof (cases w)
  case Waiting
  then show ?thesis using assms that by (auto split: option.splits if_splits)
next
  case (Running r)
  show ?thesis
  proof (cases "\<exists>e. r = Returned e")
    case True
    then show ?thesis using assms that Running by auto
  next
    case False
    then have "runDeletionWorker now (w, d) = (case run_step now (r, d) of (r', d') \<Rightarrow> (Running r', d'))"
      by (cases r) (simp_all add: Running)
    then show ?thesis using assms that(3) [OF Running] by (auto split: prod.splits)
  qed
qed

lemma worker_inv:
  assumes "runDeletionWorker now (w, d) = (w', d')" and inv: "del_inv (w, d)"
  shows "del_inv (w', d')"
  using assms(1)
proof (cases rule: worker_step_cases)
  case 1
  then show ?thesis using inv by (simp add: del_inv_def)
next
  case (2 i)
  then show ?thesis using inv by (simp add: del_inv_def run_ok_def)
next
  case (3 r r')
  note kept = run_step_kept [OF 3(3)]
  have "run_ok d' r'" by (rule run_step_ok [OF 3(3)]) (use inv 3(1) in \<open>simp add: del_inv_def\<close>)
  then show ?thesis using inv jobs_kept_named [OF kept] kept 3(2) by (simp add: del_inv_def jobs_kept_def)
qed

lemma kept_inv: "del_inv (w, d) \<Longrightarrow> jobs_kept d d' \<Longrightarrow> del_inv (w, d')"
  using jobs_kept_named [of d d'] worker_ok_grow [OF _ jobs_kept_grow, of d w d']
  by (simp add: del_inv_def jobs_kept_def)

subsubsection \<open>Requests\<close>

lemma null_string_nullString [simp]: "null_string (nullString s) = s"
  by (simp add: null_string_def nullString_def)

lemma preview_named_request:
  assumes "validDeletion q = Inr u"
  shows "phrase_names (dr_Kind q) (dr_ResourceID q)
    (nullableInt (nullableBefore (dr_Kind q)
      (if dr_Kind q = DeleteBefore \<and> f < unix_milli (dr_Before q) then f else unix_milli (dr_Before q)))) f (confirmationFor q)"
  using assms
  by (cases "dr_Kind q")
    (auto simp: phrase_names_def confirmationFor_def validDeletion_def nullableInt_def nullableBefore_def intro!: exI [of _ "dr_Before q"])

lemma list_all_del_limit: "list_all p t \<Longrightarrow> list_all p (del_limit k q t)"
  using del_limit_subset [of k q t] by (auto simp: list_all_iff)

lemma preview_inv:
  assumes "PreviewDeletion c rnd now q d = (r, d')" and "list_all preview_named (previews d)"
  shows "list_all preview_named (previews d') \<and> del_jobs d' = del_jobs d \<and> hist_tables d' = hist_tables d"
proof (cases "bind_result (validDeletion q) (\<lambda>_. check_resource q (hist_tables d))")
  case (Inl e)
  then show ?thesis using assms by (simp add: PreviewDeletion_def)
next
  case (Inr u)
  then obtain u' where valid: "validDeletion q = Inr u'" by (auto simp: bind_result_Inr)
  show ?thesis
    using assms Inr preview_named_request [OF valid, of "unix_milli now"]
    by (auto simp: PreviewDeletion_def Let_def list_all_del_limit split: if_splits)
qed

lemma create_cases:
  assumes "CreateDeletion c rnd checked now token confirmation actor d = Inr (j, d')"
  obtains p row where "p \<in> set (previews d)" "hp_id_hash p = hashDeletionToken c token" "hp_used_at p = None"
    "unix_milli checked < hp_expires_at p" "confirmation = hp_confirmation p" "\<not> list_ex active (del_jobs d)"
    "del_jobs d' = del_jobs d @ [row]" "dj_state row = ''queued''" "dj_id row = job_ID j"
    "job_core row = (dj_id row, hp_kind p, hp_resource_id p, hp_before p, hp_fence p, confirmation)"
    "dj_total row = deletionCountTx (hp_kind p) (null_string (hp_resource_id p)) (nullableInt (hp_before p)) (hp_fence p) (hist_tables d)"
    "previews d' = upd_where (\<lambda>p. hp_id_hash p = hashDeletionToken c token) (\<lambda>p. p\<lparr>hp_used_at := Some (unix_milli now)\<rparr>) (previews d)"
    "hist_tables d' = hist_tables d"
proof (cases "find (\<lambda>p. hp_id_hash p = hashDeletionToken c token \<and> hp_used_at p = None) (previews d)")
  case None
  then show ?thesis using assms by (simp add: CreateDeletion_def)
next
  case (Some p)
  note p = find_Some_in [OF Some]
  show ?thesis
    using assms Some p by (intro that [of p "List.last (del_jobs d')"]) (auto simp: CreateDeletion_def Let_def job_core_def split: if_splits)
qed

lemma create_inv:
  assumes "CreateDeletion c rnd checked now token confirmation actor d = Inr (j, d')"
    and inv: "del_inv (w, d)"
  shows "del_inv (w, d')"
  using assms(1)
proof (cases rule: create_cases)
  case (1 p row)
  have "jobs_grow d d'" using 1(7) by (auto simp: jobs_grow_def)
  then have "worker_ok d' w" using inv by (auto simp: del_inv_def intro: worker_ok_grow)
  moreover have "preview_named p" using inv 1(1) by (simp add: del_inv_def list_all_iff)
  then have "job_named row" using 1(5,10) by (simp add: job_core_def)
  moreover have "list_all preview_named (previews d')"
    using inv by (auto simp: del_inv_def list_all_iff 1(12) elim!: upd_whereE split: if_splits)
  ultimately show ?thesis using inv 1(7) by (simp add: del_inv_def)
qed

lemma cancel_kept: "CancelDeletion now i d = Inr d' \<Longrightarrow> jobs_kept d d'"
  unfolding CancelDeletion_def Let_def bind_result_Inr
  by (auto split: if_splits dest: update_jobs_kept)

lemma retry_kept: "RetryDeletion i d = Inr d' \<Longrightarrow> jobs_kept d d'"
  unfolding RetryDeletion_def Let_def bind_result_Inr
  by (auto split: if_splits dest: update_jobs_kept)

lemma recover_kept: "recoverDeletionJobs now d = Inr d' \<Longrightarrow> jobs_kept d d'"
  unfolding recoverDeletionJobs_def bind_result_Inr
  by (auto dest!: update_jobs_kept intro: jobs_kept_trans)

lemma reachable_del_inv: "del_reachable c rnd s \<Longrightarrow> del_inv s"
proof (induction rule: del_reachable.induct)
  case (start d)
  then show ?case by (simp add: del_inv_def no_deletions_def)
next
  case (step s s')
  from step(2,3) show ?case
  proof (cases rule: del_step.cases)
    case (work now)
    obtain w d w' d' where "s = (w, d)" "s' = (w', d')" by (cases s, cases s') auto
    then show ?thesis using worker_inv [of now w d w' d'] work step(3) by simp
  next
    case (preview now q d r d' w)
    note p = preview_inv [OF preview(3)]
    have "jobs_grow d d'" using p step(3) preview(1) by (simp add: jobs_grow_def del_inv_def)
    then show ?thesis using p step(3) preview(1,2) worker_ok_grow [of d w d'] by (simp add: del_inv_def)
  next
    case (create checked now token confirmation actor d j d' w)
    then show ?thesis using create_inv step(3) by simp
  next
    case (cancel now i d d' w)
    then show ?thesis using cancel_kept kept_inv step(3) by simp
  next
    case (retry i d d' w)
    then show ?thesis using retry_kept kept_inv step(3) by simp
  next
    case (restart now d d' w)
    have "del_inv (w, d')" using restart recover_kept kept_inv step(3) by simp
    then show ?thesis using restart by (simp add: del_inv_def)
  next
    case (telemetry w d T)
    have "del_inv (w, d\<lparr>hist_tables := T\<rparr>)"
      by (rule kept_inv [of w d]) (use telemetry step(3) in \<open>simp_all add: jobs_kept_def\<close>)
    then show ?thesis using telemetry by simp
  qed
qed

text \<open>
  C25. Whatever happens in between, the worker removes a row only when the row lies in the scope
  of a job whose confirmation phrase names that scope: the resource of the phrase, history up
  to the time of the preview, or before the confirmed date.
\<close>

theorem deletion_confined:
  assumes "del_reachable c rnd (w, d)" and "runDeletionWorker now (w, d) = (w', d')"
    and "r \<in> set (hist_tables d t)" and "r \<notin> set (hist_tables d' t)" and "t \<noteq> ''deployment_grace_periods''"
  shows "\<exists>j \<in> set (del_jobs d).
    phrase_names (dj_kind j) (null_string (dj_resource_id j)) (nullableInt (dj_before j)) (dj_fence j) (dj_confirmation j) \<and>
    in_scope (dj_kind j) (null_string (dj_resource_id j)) (nullableInt (dj_before j)) (dj_fence j)
      (hist_tables d ''container_instances'') t r"
  using assms(2)
proof (cases rule: worker_step_cases)
  case (3 rn rn')
  have inv: "del_inv (w, d)" by (rule reachable_del_inv [OF assms(1)])
  have ok: "run_ok d rn" using inv 3(1) by (simp add: del_inv_def)
  have changed: "hist_tables d' \<noteq> hist_tables d" using assms(3,4) by auto
  obtain v x ws where rn: "rn = Deleting v x ws"
    using 3(3) changed mark_kept
    by (cases rn) (auto simp: Let_def split: option.splits sum.splits if_splits)
  obtain j where j: "j \<in> set (del_jobs d)" "v\<lparr>rv_deleted := 0\<rparr> = vars_of j" "set (x # ws) \<subseteq> set (all_work (rv_kind v))"
    by (rule run_okE [OF ok, of v]) (simp_all add: rn)
  let ?I = "hist_tables d ''container_instances''"
  have same: "vars_scope v ?I = job_scope j ?I"
    using arg_cong [OF j(2), of rv_kind] arg_cong [OF j(2), of rv_resource] arg_cong [OF j(2), of rv_before]
      arg_cong [OF j(2), of rv_fence] by simp
  have "x \<in> set (all_work (rv_kind v))" using j(3) by simp
  then have batch: "work_batch x v (hist_tables d) = delete_batch 500 (work_table x) (vars_scope v ?I (work_table x)) (hist_tables d)"
    using history_batch [where I = ?I and T = "hist_tables d" and v = v] metadata_batch [where I = ?I and T = "hist_tables d" and v = v]
    by (auto simp: all_work_def)
  obtain T n where T: "work_batch x v (hist_tables d) = Inr (T, n)" "hist_tables d' = T"
    using 3(3) changed by (auto simp: rn split: sum.splits)
  have "T t = (if t = work_table x then del_limit 500 (vars_scope v ?I (work_table x)) (hist_tables d t) else hist_tables d t)"
    using delete_batch_cases [OF T(1) [unfolded batch] assms(5)] by simp
  then have "vars_scope v ?I t r"
    using assms(3,4) T(2) del_limit_keeps [of r "hist_tables d t"] by (auto split: if_splits)
  moreover have "job_named j" using inv j(1) by (simp add: del_inv_def list_all_iff)
  ultimately show ?thesis using j(1) same by auto
qed (use assms(3,4) in auto)

text \<open>
  C26. \<open>CreateDeletion\<close> succeeds only for an unused preview that has not expired, with its
  confirmation phrase, while no other job is active. The job takes over the scope of the
  preview and is queued, and the token is spent: no later request with it creates a job.
\<close>

theorem create_deletion_guarded:
  assumes "CreateDeletion c rnd checked now token confirmation actor d = Inr (j, d')"
  shows "(\<exists>p \<in> set (previews d). hp_id_hash p = hashDeletionToken c token \<and> hp_used_at p = None \<and>
      unix_milli checked < hp_expires_at p \<and> confirmation = hp_confirmation p \<and>
      (\<exists>row. del_jobs d' = del_jobs d @ [row] \<and> dj_id row = job_ID j \<and> dj_state row = ''queued'' \<and> dj_kind row = hp_kind p \<and>
        dj_resource_id row = hp_resource_id p \<and> dj_before row = hp_before p \<and> dj_fence row = hp_fence p)) \<and>
    (\<forall>j' \<in> set (del_jobs d). \<not> active j') \<and>
    (\<forall>rnd' checked' now' confirmation' actor'.
      CreateDeletion c rnd' checked' now' token confirmation' actor' d' = Inl (ErrMsg ''deletion preview is invalid''))"
  using assms
proof (cases rule: create_cases)
  case (1 p row)
  have "find (\<lambda>p. hp_id_hash p = hashDeletionToken c token \<and> hp_used_at p = None) (previews d') = None"
    unfolding 1(12) find_None by (auto elim!: upd_whereE split: if_splits)
  then have again: "CreateDeletion c rnd' checked' now' token confirmation' actor' d' = Inl (ErrMsg ''deletion preview is invalid'')"
    for rnd' checked' now' confirmation' actor' by (simp add: CreateDeletion_def)
  have idle: "\<forall>j' \<in> set (del_jobs d). \<not> active j'" using 1(6) by (simp add: list_ex_iff)
  have "\<exists>row. del_jobs d' = del_jobs d @ [row] \<and> dj_id row = job_ID j \<and> dj_state row = ''queued'' \<and> dj_kind row = hp_kind p \<and>
        dj_resource_id row = hp_resource_id p \<and> dj_before row = hp_before p \<and> dj_fence row = hp_fence p"
    using 1(7-10) by (intro exI [of _ row]) (simp add: job_core_def)
  then show ?thesis using 1(1-5) idle again by blast
qed

subsection \<open>A purge that cannot succeed\<close>

text \<open>
  An archived resource that still has a health check cannot be purged. The run deletes its
  history and its instances, and then fails on the foreign key of \<^verbatim>\<open>health_checks\<close>: the job ends as
  failed and the resource stays. Retrying the job changes nothing about that.
\<close>

theorem purge_blocked_by_check:
  assumes "job_of i d = Some j" and "dj_state j = ''queued''" and "distinct (map dj_id (del_jobs d))"
    and "count_where active (del_jobs d) \<le> 1"
    and "dj_kind j = DeleteArchived" and "dj_resource_id j = Some res"
    and "g \<in> set (hist_tables d ''resources'')" and "g ''id'' = SText res" and "g ''status'' = SText ''archived''"
    and "h \<in> set (hist_tables d ''health_checks'')" and "h ''resource_id'' = SText res"
    and "distinct (map (\<lambda>r. r ''id'') (hist_tables d ''resources''))"
  shows "\<exists>n d' j'. RunDeletion n now i d = (Returned (Some (ErrConstraint ''FOREIGN KEY constraint failed'')), d') \<and>
    hist_tables d' ''resources'' = hist_tables d ''resources'' \<and>
    hist_tables d' ''container_instances'' =
      del_where (\<lambda>r. r ''resource_id'' = SText res) (hist_tables d ''container_instances'') \<and>
    hist_tables d' ''events'' =
      del_where (\<lambda>r. int_le (r ''ts'') (dj_fence j) \<and> r ''resource_id'' = SText res) (hist_tables d ''events'') \<and>
    job_of i d' = Some j' \<and> dj_state j' = ''failed''"
proof -
  let ?T = "hist_tables d" and ?I = "hist_tables d ''container_instances''" and ?v = "vars_of j"
  have j: "j \<in> set (del_jobs d)" "dj_id j = i" using job_ofD [OF assms(1)] by simp_all
  have act: "active j" using assms(2) by (simp add: active_def)
  have alone: "\<not> active j'" if "j' \<in> set (del_jobs d)" "dj_id j' \<noteq> rv_id ?v" for j'
    using only_active [OF assms(4) j(1) act that(1)] that(2) by simp
  have job: "job_of (rv_id ?v) d = Some j" using assms(1) j(2) by simp
  have res: "null_string (dj_resource_id j) = res" by (simp add: assms(6) null_string_def)
  have scope: "job_scope j ?I ''resources'' = (\<lambda>r. r ''id'' = SText res \<and> r ''status'' = SText ''archived'')"
    "job_scope j ?I ''container_instances'' = (\<lambda>r. r ''resource_id'' = SText res)"
    "job_scope j ?I ''events'' = (\<lambda>r. int_le (r ''ts'') (dj_fence j) \<and> r ''resource_id'' = SText res)"
    by (simp_all add: in_scope_def [abs_def] assms(5) res text_is_def deletionTables_def Let_def)
  have "count_where (job_scope j ?I ''resources'') (?T ''resources'') \<le> count_where (\<lambda>r. r ''id'' = g ''id'' \<and> True) (?T ''resources'')"
    by (rule count_where_mono) (simp add: scope assms(8))
  also have "\<dots> = 1" using count_where_key [OF assms(12) assms(7), of "\<lambda>_. True"] by simp
  finally have few: "count_where (job_scope j ?I ''resources'') (?T ''resources'') \<le> 500" by simp
  have g: "job_scope j ?I ''resources'' g" and ref: "refers ''resource_id'' h g"
    by (simp_all add: scope assms(8,9,11) refers_def)
  have gv: "vars_scope ?v ?I ''resources'' g" and fewv: "count_where (vars_scope ?v ?I ''resources'') (?T ''resources'') \<le> 500"
    using g few by simp_all
  have kv: "rv_kind ?v = DeleteArchived" by (simp add: assms(5))
  obtain n d' j' where run: "(run_step now ^^ n) (Claiming ?v, d) = (Returned (Some (ErrConstraint ''FOREIGN KEY constraint failed'')), d')"
    and tabs: "agree (hist_tables d') (erased (vars_scope ?v ?I) (set (map work_table (butlast (all_work DeleteArchived)))) ?T)"
    and fin: "job_of i d' = Some j'" "dj_state j' = ''failed''"
    using purge_fails [OF job assms(3) alone kv assms(7) gv fewv assms(10) ref, of now] j(2) by auto
  have "hist_tables d' ''resources'' = ?T ''resources''"
    "hist_tables d' ''container_instances'' = del_where (\<lambda>r. r ''resource_id'' = SText res) ?I"
    "hist_tables d' ''events'' = del_where (\<lambda>r. int_le (r ''ts'') (dj_fence j) \<and> r ''resource_id'' = SText res) (?T ''events'')"
    using tabs by (simp_all add: agree_def erased_def scope table_lists Let_def)
  moreover have "RunDeletion (1 + n) now i d = (Returned (Some (ErrConstraint ''FOREIGN KEY constraint failed'')), d')"
    unfolding RunDeletion_def funpow_add_apply using select_queued [OF assms(1-3), of now] run by (simp del: run_step.simps)
  ultimately show ?thesis using fin by blast
qed

end
