(* ===== verification/Deletion_Samples.thy ===== *)
theory Deletion_Samples
  imports Deletion_Properties
begin

section \<open>History deletion on concrete data\<close>

text \<open>
  A queued job for one resource among rows of two resources; an archived resource with a check;
  and a reset that is previewed, confirmed and run up to its first batch.
\<close>

definition sample_row :: "int \<Rightarrow> string \<Rightarrow> row" where
  "sample_row ts resource = row_of [(''ts'', SInt ts), (''resource_id'', SText resource)]"

definition sample_job :: "DeletionKind \<Rightarrow> job_row" where
  "sample_job k = \<lparr>dj_id = ''del_1'', dj_kind = k, dj_resource_id = Some ''res_a'', dj_before = None, dj_fence = 100,
     dj_confirmation = [], dj_state = ''queued'', dj_requested_by = None, dj_requested_at = 100, dj_started_at = None,
     dj_finished_at = None, dj_total = 1, dj_deleted = 0, dj_table = None, dj_error = None\<rparr>"

definition sample_tables :: tables where
  "sample_tables = (\<lambda>_. [])(''events'' := [sample_row 50 ''res_a'', sample_row 60 ''res_b'', sample_row 150 ''res_a''])"

definition sample_hist :: hist_db where
  "sample_hist = \<lparr>hist_tables = sample_tables, previews = [], del_jobs = [sample_job DeleteResource], hist_reads = 0\<rparr>"

lemma sample_hist_simps [simp]:
  "hist_tables sample_hist = sample_tables" "del_jobs sample_hist = [sample_job DeleteResource]"
  "sample_tables ''health_checks'' = []" "sample_tables ''container_instances'' = []"
  "job_of ''del_1'' sample_hist = Some (sample_job DeleteResource)"
  by (simp_all add: sample_hist_def sample_tables_def job_of_def sample_job_def)

lemma sample_job_simps [simp]:
  "dj_state (sample_job k) = ''queued''" "dj_kind (sample_job k) = k" "dj_fence (sample_job k) = 100"
  "dj_resource_id (sample_job k) = Some ''res_a''" "dj_id (sample_job k) = ''del_1''" "active (sample_job k)"
  by (simp_all add: sample_job_def active_def)

lemma sample_scope:
  "del_where (in_scope DeleteResource ''res_a'' b 100 [] ''events'') (sample_tables ''events'') =
   [sample_row 60 ''res_b'', sample_row 150 ''res_a'']"
  by (simp add: del_where_def in_scope_def deletionTables_def Let_def text_is_def sample_row_def row_of_def sample_tables_def)

theorem deletion_refines_witness:
  "\<exists>n d'. RunDeletion n 0 ''del_1'' sample_hist = (Returned None, d') \<and>
    hist_tables d' ''events'' = [sample_row 60 ''res_b'', sample_row 150 ''res_a'']"
proof -
  have "\<exists>n d' j'. RunDeletion n 0 ''del_1'' sample_hist = (Returned None, d') \<and>
    (\<forall>u. u \<noteq> ''deployment_grace_periods'' \<longrightarrow>
      hist_tables d' u = del_where (job_scope (sample_job DeleteResource) (hist_tables sample_hist ''container_instances'') u) (hist_tables sample_hist u)) \<and>
    job_of ''del_1'' d' = Some j' \<and> dj_state j' = ''completed'' \<and>
    dj_deleted j' = deletionCountTx (dj_kind (sample_job DeleteResource)) (null_string (dj_resource_id (sample_job DeleteResource)))
      (nullableInt (dj_before (sample_job DeleteResource))) (dj_fence (sample_job DeleteResource)) (hist_tables sample_hist)"
    by (rule deletion_refines) simp_all
  then obtain n d' where w: "RunDeletion n 0 ''del_1'' sample_hist = (Returned None, d')"
    and tabs: "\<forall>u. u \<noteq> ''deployment_grace_periods'' \<longrightarrow>
      hist_tables d' u = del_where (job_scope (sample_job DeleteResource) [] u) (sample_tables u)"
    by auto
  have "hist_tables d' ''events'' = [sample_row 60 ''res_b'', sample_row 150 ''res_a'']"
    using tabs by (simp add: null_string_def sample_scope)
  then show ?thesis using w by blast
qed

theorem cancellation_lost_witness:
  "\<exists>v d1 n d2 j2. run_step 0 (Selecting ''del_1'', sample_hist) = (Claiming v, sample_hist) \<and>
    CancelDeletion 0 ''del_1'' sample_hist = Inr d1 \<and>
    (run_step 0 ^^ n) (Claiming v, d1) = (Returned None, d2) \<and>
    hist_tables d2 ''events'' = [sample_row 60 ''res_b'', sample_row 150 ''res_a''] \<and>
    job_of ''del_1'' d2 = Some j2 \<and> dj_state j2 = ''completed''"
proof -
  have "\<exists>v d1 j1 n d2 j2. run_step 0 (Selecting ''del_1'', sample_hist) = (Claiming v, sample_hist) \<and>
    CancelDeletion 0 ''del_1'' sample_hist = Inr d1 \<and> job_of ''del_1'' d1 = Some j1 \<and> dj_state j1 = ''cancelled'' \<and>
    (run_step 0 ^^ n) (Claiming v, d1) = (Returned None, d2) \<and>
    (\<forall>u. u \<noteq> ''deployment_grace_periods'' \<longrightarrow>
      hist_tables d2 u = del_where (job_scope (sample_job DeleteResource) (hist_tables sample_hist ''container_instances'') u) (hist_tables sample_hist u)) \<and>
    job_of ''del_1'' d2 = Some j2 \<and> dj_state j2 = ''completed''"
    by (rule cancellation_lost) simp_all
  then obtain v d1 n d2 j2 where w: "run_step 0 (Selecting ''del_1'', sample_hist) = (Claiming v, sample_hist)"
    "CancelDeletion 0 ''del_1'' sample_hist = Inr d1" "(run_step 0 ^^ n) (Claiming v, d1) = (Returned None, d2)"
    "job_of ''del_1'' d2 = Some j2" "dj_state j2 = ''completed''"
    and tabs: "\<forall>u. u \<noteq> ''deployment_grace_periods'' \<longrightarrow>
      hist_tables d2 u = del_where (job_scope (sample_job DeleteResource) [] u) (sample_tables u)"
    by auto
  have "hist_tables d2 ''events'' = [sample_row 60 ''res_b'', sample_row 150 ''res_a'']"
    using tabs by (simp add: null_string_def sample_scope)
  then show ?thesis using w by blast
qed

definition archived_resource :: row where
  "archived_resource = row_of [(''id'', SText ''res_a''), (''status'', SText ''archived'')]"

definition purge_hist :: hist_db where
  "purge_hist = \<lparr>hist_tables = sample_tables(''resources'' := [archived_resource], ''health_checks'' := [sample_row 0 ''res_a'']),
     previews = [], del_jobs = [sample_job DeleteArchived], hist_reads = 0\<rparr>"

theorem purge_blocked_by_check_witness:
  "\<exists>n d' j'. RunDeletion n 0 ''del_1'' purge_hist = (Returned (Some (ErrConstraint ''FOREIGN KEY constraint failed'')), d') \<and>
    hist_tables d' ''resources'' = [archived_resource] \<and> job_of ''del_1'' d' = Some j' \<and> dj_state j' = ''failed''"
proof -
  have "job_of ''del_1'' purge_hist = Some (sample_job DeleteArchived)" "del_jobs purge_hist = [sample_job DeleteArchived]"
    "hist_tables purge_hist ''resources'' = [archived_resource]" "hist_tables purge_hist ''health_checks'' = [sample_row 0 ''res_a'']"
    "archived_resource ''id'' = SText ''res_a''" "archived_resource ''status'' = SText ''archived''"
    "sample_row 0 ''res_a'' ''resource_id'' = SText ''res_a''"
    by (simp_all add: purge_hist_def job_of_def archived_resource_def sample_row_def row_of_def)
  then show ?thesis
    using purge_blocked_by_check [of "''del_1''" purge_hist "sample_job DeleteArchived" "''res_a''" archived_resource "sample_row 0 ''res_a''" 0]
    by simp blast
qed

subsection \<open>A reset from its preview to the first batch\<close>

definition plain_crypto :: crypto where
  "plain_crypto = \<lparr>sha256 = (\<lambda>s. s), hmac_sha1 = (\<lambda>_ s. s), argon2id = (\<lambda>p _ _ _ _ _. p),
     gcm_seal = (\<lambda>_ _ t _. t), gcm_open = (\<lambda>_ _ t _. Some t)\<rparr>"

definition reset_request :: DeletionRequest where
  "reset_request = \<lparr>dr_Kind = DeleteAll, dr_ResourceID = [], dr_Before = zero_time\<rparr>"

definition reset_tables :: tables where
  "reset_tables = (\<lambda>_. [])(''host_samples_10s'' := [sample_row 5 ''host''])"

definition reset_preview :: "int option \<Rightarrow> preview_row" where
  "reset_preview used = \<lparr>hp_id_hash = [], hp_kind = DeleteAll, hp_resource_id = None, hp_before = None, hp_fence = 10,
     hp_confirmation = ''RESET ALL HISTORY'', hp_summary = (1, DeleteAll, []), hp_expires_at = 600010, hp_used_at = used\<rparr>"

definition reset_job :: "string \<Rightarrow> int option \<Rightarrow> job_row" where
  "reset_job st started = \<lparr>dj_id = ''del_'', dj_kind = DeleteAll, dj_resource_id = None, dj_before = None, dj_fence = 10,
     dj_confirmation = ''RESET ALL HISTORY'', dj_state = st, dj_requested_by = None, dj_requested_at = 20, dj_started_at = started,
     dj_finished_at = None, dj_total = 1, dj_deleted = 0, dj_table = None, dj_error = None\<rparr>"

definition reset_hist :: "preview_row list \<Rightarrow> job_row list \<Rightarrow> nat \<Rightarrow> hist_db" where
  "reset_hist ps js n = \<lparr>hist_tables = reset_tables, previews = ps, del_jobs = js, hist_reads = n\<rparr>"

abbreviation no_rand :: "nat \<Rightarrow> nat \<Rightarrow> string" where
  "no_rand \<equiv> \<lambda>_ _. []"

lemma reset_codes [simp]: "base64url_encode [] = []" "base64_encode [] = []" "hex_encode [] = []"
  by code_simp+

lemma reset_count: "deletionCountTx DeleteAll r b 10 reset_tables = 1"
  by (simp add: deletionCountTx_def deletionTables_def resourceScopedTable_def reset_tables_def sample_row_def row_of_def Let_def)

lemma reset_previewed:
  "\<exists>r. PreviewDeletion plain_crypto no_rand (from_milli 10) reset_request (reset_hist [] [] 0) = (r, reset_hist [reset_preview None] [] 1)"
  by (simp add: PreviewDeletion_def reset_request_def validDeletion_def check_resource_def reset_hist_def reset_count
      reset_preview_def hashDeletionToken_def plain_crypto_def nullString_def nullableBefore_def confirmationFor_def Let_def
      unix_milli_def from_milli_def minutes_def)

lemma reset_created:
  "CreateDeletion plain_crypto no_rand (from_milli 20) (from_milli 20) [] ''RESET ALL HISTORY'' [] (reset_hist [reset_preview None] [] 1) =
   Inr (\<lparr>job_ID = ''del_'', job_Kind = DeleteAll, job_ResourceID = [], job_State = ''queued'', job_TotalRows = 1, job_DeletedRows = 0, job_Error = []\<rparr>,
        reset_hist [reset_preview (Some 20)] [reset_job ''queued'' None] 2)"
  by (simp add: CreateDeletion_def reset_hist_def reset_preview_def reset_job_def hashDeletionToken_def plain_crypto_def
      reset_count null_string_def nullString_def newDeletionID_def Let_def)

theorem create_deletion_guarded_witness:
  "CreateDeletion plain_crypto no_rand (from_milli 20) (from_milli 20) [] ''RESET ALL HISTORY'' []
     (reset_hist [reset_preview (Some 20)] [reset_job ''queued'' None] 2) = Inl (ErrMsg ''deletion preview is invalid'')"
  using create_deletion_guarded [OF reset_created] by blast

definition reset_vars :: run_vars where
  "reset_vars = vars_of (reset_job ''queued'' None)"

definition reset_claimed :: hist_db where
  "reset_claimed = reset_hist [reset_preview (Some 20)] [reset_job ''running'' (Some 30)] 2"

lemma reset_steps:
  "runDeletionWorker (from_milli 30) (Waiting, reset_hist [reset_preview (Some 20)] [reset_job ''queued'' None] 2) =
    (Running (Selecting ''del_''), reset_hist [reset_preview (Some 20)] [reset_job ''queued'' None] 2)"
  "runDeletionWorker (from_milli 30) (Running (Selecting ''del_''), reset_hist [reset_preview (Some 20)] [reset_job ''queued'' None] 2) =
    (Running (Claiming reset_vars), reset_hist [reset_preview (Some 20)] [reset_job ''queued'' None] 2)"
  "runDeletionWorker (from_milli 30) (Running (Claiming reset_vars), reset_hist [reset_preview (Some 20)] [reset_job ''queued'' None] 2) =
    (Running (Polling reset_vars (History ''host_samples_10s'') (tl (all_work DeleteAll))), reset_claimed)"
  "runDeletionWorker (from_milli 30) (Running (Polling reset_vars (History ''host_samples_10s'') (tl (all_work DeleteAll))), reset_claimed) =
    (Running (Deleting reset_vars (History ''host_samples_10s'') (tl (all_work DeleteAll))), reset_claimed)"
  by (simp_all add: reset_hist_def reset_job_def first_by_def reset_vars_def vars_of_def null_string_def nullableInt_def
      mark_def update_jobs_def active_def all_work_def deletionTables_def metadataDeletionTables_def reset_claimed_def job_of_def Let_def)

lemma reset_reachable:
  "del_reachable plain_crypto no_rand (Running (Deleting reset_vars (History ''host_samples_10s'') (tl (all_work DeleteAll))), reset_claimed)"
proof -
  have "del_reachable plain_crypto no_rand (Waiting, reset_hist [] [] 0)"
    by (rule del_reachable.start) (simp add: no_deletions_def reset_hist_def)
  moreover obtain r where "PreviewDeletion plain_crypto no_rand (from_milli 10) reset_request (reset_hist [] [] 0) = (r, reset_hist [reset_preview None] [] 1)"
    using reset_previewed by blast
  ultimately have "del_reachable plain_crypto no_rand (Waiting, reset_hist [reset_preview None] [] 1)"
    by (rule del_reachable.step [OF _ del_step.preview])
  then have "del_reachable plain_crypto no_rand (Waiting, reset_hist [reset_preview (Some 20)] [reset_job ''queued'' None] 2)"
    by (rule del_reachable.step [OF _ del_step.create [OF reset_created]])
  from del_reachable.step [OF this del_step.work [of _ _ _ "from_milli 30"]]
  have "del_reachable plain_crypto no_rand (Running (Selecting ''del_''), reset_hist [reset_preview (Some 20)] [reset_job ''queued'' None] 2)"
    unfolding reset_steps .
  from del_reachable.step [OF this del_step.work [of _ _ _ "from_milli 30"]]
  have "del_reachable plain_crypto no_rand (Running (Claiming reset_vars), reset_hist [reset_preview (Some 20)] [reset_job ''queued'' None] 2)"
    unfolding reset_steps .
  from del_reachable.step [OF this del_step.work [of _ _ _ "from_milli 30"]]
  have "del_reachable plain_crypto no_rand (Running (Polling reset_vars (History ''host_samples_10s'') (tl (all_work DeleteAll))), reset_claimed)"
    unfolding reset_steps .
  from del_reachable.step [OF this del_step.work [of _ _ _ "from_milli 30"]]
  show ?thesis unfolding reset_steps .
qed

theorem deletion_confined_witness:
  "\<exists>j \<in> set (del_jobs reset_claimed).
    phrase_names (dj_kind j) (null_string (dj_resource_id j)) (nullableInt (dj_before j)) (dj_fence j) (dj_confirmation j) \<and>
    in_scope (dj_kind j) (null_string (dj_resource_id j)) (nullableInt (dj_before j)) (dj_fence j)
      (hist_tables reset_claimed ''container_instances'') ''host_samples_10s'' (sample_row 5 ''host'')"
proof -
  obtain w d where step: "runDeletionWorker 0 (Running (Deleting reset_vars (History ''host_samples_10s'') (tl (all_work DeleteAll))), reset_claimed) = (w, d)"
    by force
  have "hist_tables d ''host_samples_10s'' = []"
    using step by (auto simp: deleteBatch_def delete_batch_plain reset_vars_def vars_of_def reset_job_def reset_claimed_def
        reset_hist_def reset_tables_def sample_row_def row_of_def null_string_def nullableInt_def eval_nat_numeral)
  then show ?thesis
    by (intro deletion_confined [OF reset_reachable step]) (simp_all add: reset_claimed_def reset_hist_def reset_tables_def)
qed

end
