(* ===== verification/Storage_Writer.thy ===== *)
theory Storage_Writer
  imports Storage_Tables "HOL-Library.List_Lexorder"
begin

section \<open>Writing history, retention and the storage budget\<close>

text \<open>
  \<^verbatim>\<open>internal/storage/writer.go, hosts.go, resources.go, retention.go, budget.go, retry.go\<close>. A
  \<open>Manager\<close> is its database tables and the fields that its methods change. Sizes and times come
  from outside and are arguments. The ratio of the budget is taken exactly.
\<close>

datatype BudgetState = BudgetUnset | BudgetOK | BudgetWarning | BudgetCritical | BudgetEmergency

record RetentionCutoffs =
  rc_Raw :: duration
  rc_OneMinute :: duration
  rc_FifteenMinute :: duration
  rc_OneHour :: duration

record DatabaseBudget =
  bud_UsedBytes :: int
  bud_TargetBytes :: int
  bud_State :: BudgetState

record manager =
  mg_tables :: tables
  mg_prevCollectors :: "string \<Rightarrow> string"
  mg_retention :: RetentionCutoffs
  mg_budget :: DatabaseBudget
  mg_emergencyPause :: bool

subsection \<open>Inserting rows\<close>

definition same_key :: "string list \<Rightarrow> row \<Rightarrow> row \<Rightarrow> bool" where
  "same_key columns r r' = list_all (\<lambda>c. r c \<noteq> SNull \<and> r' c = r c) columns"

text \<open>\<^verbatim>\<open>INSERT OR REPLACE\<close> and \<^verbatim>\<open>INSERT OR IGNORE\<close>, with the columns of the key.\<close>

definition insert_replace :: "string list \<Rightarrow> row \<Rightarrow> row list \<Rightarrow> row list" where
  "insert_replace columns row t = del_where (same_key columns row) t @ [row]"

definition insert_or_ignore :: "string list \<Rightarrow> row \<Rightarrow> row list \<Rightarrow> row list" where
  "insert_or_ignore columns row t = insert_ignore (same_key columns row) row t"

definition opt_real :: "float64 option \<Rightarrow> sqlval" where
  "opt_real v = (case v of None \<Rightarrow> SNull | Some x \<Rightarrow> SReal x)"

definition opt_int :: "int option \<Rightarrow> sqlval" where
  "opt_int v = (case v of None \<Rightarrow> SNull | Some x \<Rightarrow> SInt x)"

fun status_text :: "ResourceStatus \<Rightarrow> string" where
  "status_text StatusHealthy = ''healthy''"
| "status_text StatusPaused = ''paused''"
| "status_text StatusUnknown = ''unknown''"
| "status_text StatusDegraded = ''degraded''"
| "status_text StatusDown = ''down''"
| "status_text StatusArchived = ''archived''"
| "status_text (StatusOther s) = s"

fun collector_text :: "CollectorState \<Rightarrow> string" where
  "collector_text CollectorHealthy = ''healthy''"
| "collector_text CollectorDegraded = ''degraded''"
| "collector_text CollectorDown = ''down''"
| "collector_text CollectorUnknown = ''unknown''"
| "collector_text (CollectorOther s) = s"

subsection \<open>Events\<close>

definition eventSeverity :: "string \<Rightarrow> string" where
  "eventSeverity t =
    (if t \<in> {''container_oom'', ''collector_down'', ''persistence_degraded'', ''host_reboot''} then ''critical''
     else if t \<in> {''container_restart'', ''container_stop'', ''container_die'', ''persistence_gap''} then ''warning''
     else ''info'')"

definition severity :: "Event \<Rightarrow> string" where
  "severity e = (if event_Severity e \<noteq> [] then event_Severity e else eventSeverity (event_Type e))"

definition eventSource :: "string \<Rightarrow> string" where
  "eventSource t =
    (if t = ''host_reboot'' \<or> t = ''collector_down'' \<or> t = ''collector_degraded'' \<or> t = ''persistence_degraded'' \<or> t = ''persistence_gap''
     then ''binnacle'' else ''docker'')"

definition event_columns :: "Event \<Rightarrow> row" where
  "event_columns e = row_of
    [(''id'', SText (show_nat (event_ID e))), (''ts'', SInt (unix_milli (event_At e))), (''host_id'', SText ''host''),
     (''resource_id'', null_text (event_ResourceID e)), (''container_instance_id'', null_text (event_ContainerInstance e)),
     (''type'', SText (event_Type e)), (''severity'', SText (severity e)), (''summary'', SText (event_Message e)),
     (''details_json'', null_text (event_Details e)), (''correlation_key'', null_text (event_CorrelationKey e)),
     (''source'', SText (eventSource (event_Type e))), (''created_at'', SInt (unix_milli (event_At e)))]"

definition WriteEvent :: "Event \<Rightarrow> tables \<Rightarrow> tables" where
  "WriteEvent e T = T(''events'' := insert_or_ignore [''id''] (event_columns e) (T ''events''))"

subsection \<open>Batches\<close>

definition host_sample :: "Snapshot \<Rightarrow> row" where
  "host_sample s = (let h = snap_Host s in row_of
    [(''ts'', SInt (unix_milli (snap_At s))), (''host_id'', SText ''host''), (''boot_session_id'', SText (snap_BootIdentity s)),
     (''cpu_busy_pct'', opt_real (host_CPUPercent h)), (''cpu_user_pct'', opt_real (host_CPUUserPercent h)),
     (''cpu_system_pct'', opt_real (host_CPUSystemPercent h)), (''cpu_iowait_pct'', opt_real (host_CPUIOWaitPercent h)),
     (''cpu_steal_pct'', opt_real (host_CPUStealPercent h)),
     (''load_1'', opt_real (host_Load1 h)), (''load_5'', opt_real (host_Load5 h)), (''load_15'', opt_real (host_Load15 h)),
     (''memory_used_bytes'', opt_int (host_MemoryUsedBytes h)), (''memory_available_bytes'', opt_int (host_MemoryAvailableBytes h)),
     (''memory_total_bytes'', opt_int (host_MemoryTotalBytes h)), (''memory_used_pct'', opt_real (host_MemoryPercent h)),
     (''memory_cached_bytes'', opt_int (host_MemoryCachedBytes h)), (''memory_buffers_bytes'', opt_int (host_MemoryBuffersBytes h)),
     (''swap_used_bytes'', opt_int (host_SwapUsedBytes h)), (''swap_total_bytes'', opt_int (host_SwapTotalBytes h)),
     (''swap_used_pct'', opt_real (host_SwapPercent h)),
     (''network_rx_bps'', opt_real (host_NetworkRXBPS h)), (''network_tx_bps'', opt_real (host_NetworkTXBPS h)),
     (''network_rx_packets_ps'', opt_real (host_NetworkRXPacketsPS h)), (''network_tx_packets_ps'', opt_real (host_NetworkTXPacketsPS h)),
     (''network_rx_errors_delta'', opt_int (host_NetworkRXErrorsDelta h)), (''network_tx_errors_delta'', opt_int (host_NetworkTXErrorsDelta h)),
     (''network_rx_drops_delta'', opt_int (host_NetworkRXDropsDelta h)), (''network_tx_drops_delta'', opt_int (host_NetworkTXDropsDelta h)),
     (''disk_read_bps'', opt_real (host_DiskReadBPS h)), (''disk_write_bps'', opt_real (host_DiskWriteBPS h)),
     (''disk_read_iops'', opt_real (host_DiskReadIOPS h)), (''disk_write_iops'', opt_real (host_DiskWriteIOPS h))])"

definition resource_sample :: "time \<Rightarrow> ResourceSnapshot \<Rightarrow> row" where
  "resource_sample t r = row_of
    [(''ts'', SInt (unix_milli t)), (''resource_id'', SText (res_ID r)), (''cpu_host_pct'', opt_real (res_CPUHostPercent r)),
     (''memory_working_set_bytes'', opt_int (res_MemoryBytes r)), (''network_rx_bps'', opt_real (res_RXBPS r)),
     (''network_tx_bps'', opt_real (res_TXBPS r)), (''block_read_bps'', opt_real (res_BlockReadBPS r)),
     (''block_write_bps'', opt_real (res_BlockWriteBPS r)), (''active_instance_count'', SInt (int (length (res_Components r)))),
     (''status'', SText (status_text (res_Status r)))]"

definition instance_sample :: "time \<Rightarrow> ResourceComponent \<Rightarrow> row" where
  "instance_sample t k = row_of
    [(''ts'', SInt (unix_milli t)), (''container_instance_id'', SText (comp_ID k)), (''cpu_host_pct'', opt_real (comp_CPUHostPercent k)),
     (''memory_working_set_bytes'', opt_int (comp_MemoryBytes k)), (''network_rx_bps'', opt_real (comp_RXBPS k)),
     (''network_tx_bps'', opt_real (comp_TXBPS k)), (''block_read_bps'', opt_real (comp_BlockReadBPS k)),
     (''block_write_bps'', opt_real (comp_BlockWriteBPS k)), (''pids'', opt_int (comp_PIDs k))]"

definition filesystem_sample :: "FilesystemObservation \<Rightarrow> row" where
  "filesystem_sample f = row_of
    [(''ts'', SInt (unix_milli (fso_At f))), (''host_id'', SText ''host''), (''mount_key'', SText (fso_MountKey f)),
     (''mount_point'', SText (fso_MountPoint f)), (''fs_type'', SText (fso_FSType f)), (''total_bytes'', opt_int (fso_TotalBytes f)),
     (''used_bytes'', opt_int (fso_UsedBytes f)), (''available_bytes'', opt_int (fso_AvailableBytes f)),
     (''used_pct'', opt_real (fso_UsedPercent f)), (''inodes_total'', opt_int (fso_InodesTotal f)),
     (''inodes_used'', opt_int (fso_InodesUsed f)), (''inodes_used_pct'', opt_real (fso_InodesUsedPercent f))]"

text \<open>
  A component refers to its resource: the two statements on \<^verbatim>\<open>container_instances\<close> fail when the
  resource is not in \<^verbatim>\<open>resources\<close>. The second one moves an instance that is known already.
\<close>

definition write_component :: "time \<Rightarrow> string \<Rightarrow> ResourceComponent \<Rightarrow> tables \<Rightarrow> tables result" where
  "write_component t resource k T =
    (if \<not> list_ex (\<lambda>r. text_is (r ''id'') resource) (T ''resources'') then Inl (ErrConstraint ''FOREIGN KEY constraint failed'')
     else
       let row = row_of [(''id'', SText (comp_ID k)), (''resource_id'', SText resource), (''name'', SText (comp_Name k)),
                         (''created_at'', SInt (unix_milli t))];
           instances = insert_or_ignore [''id''] row (T ''container_instances'');
           instances = upd_where (\<lambda>r. text_is (r ''id'') (comp_ID k))
             (\<lambda>r. r(''resource_id'' := SText resource, ''name'' := SText (comp_Name k))) instances
       in Inr (T(''container_instances'' := instances,
                 ''container_instance_samples_10s'' := insert_replace [''container_instance_id'', ''ts''] (instance_sample t k)
                    (T ''container_instance_samples_10s''))))"

definition write_resource :: "time \<Rightarrow> ResourceSnapshot \<Rightarrow> tables \<Rightarrow> tables result" where
  "write_resource t r T =
    fold_result (write_component t (res_ID r)) (res_Components r)
      (T(''resource_samples_10s'' := insert_replace [''resource_id'', ''ts''] (resource_sample t r) (T ''resource_samples_10s'')))"

definition write_samples :: "Snapshot \<Rightarrow> tables \<Rightarrow> tables result" where
  "write_samples s T =
    (if 0 < snap_Sequence s
     then fold_result (write_resource (snap_At s)) (snap_Resources s)
       (T(''host_samples_10s'' := insert_replace [''host_id'', ''ts''] (host_sample s) (T ''host_samples_10s'')))
     else Inr T)"

definition write_filesystem :: "FilesystemObservation \<Rightarrow> tables \<Rightarrow> tables" where
  "write_filesystem f T =
    T(''filesystem_samples_1m'' := insert_replace [''host_id'', ''mount_key'', ''ts''] (filesystem_sample f) (T ''filesystem_samples_1m''))"

text \<open>
  \<open>names\<close> lists the collectors in the order in which the loop meets them. \<open>prevCollectors\<close> is a
  field of the manager and not part of the transaction.
\<close>

definition write_collector :: "time \<Rightarrow> (string \<Rightarrow> CollectorHealth option) \<Rightarrow> string \<Rightarrow> tables \<times> (string \<Rightarrow> string) \<Rightarrow> tables \<times> (string \<Rightarrow> string)" where
  "write_collector t collectors name s =
    (case (s, collectors name) of
       ((T, prev), None) \<Rightarrow> (T, prev)
     | ((T, prev), Some health) \<Rightarrow>
       let before = (if prev name = [] then ''unknown'' else prev name); current = collector_text (coll_State health)
       in if before = current then (T, prev)
          else (T(''collector_state_events'' := insert_or_ignore [''id'']
                    (row_of [(''id'', SText (''cse_'' @ show_int (unix_milli t) @ ''_'' @ name)), (''ts'', SInt (unix_milli t)),
                             (''collector_name'', SText name), (''previous_state'', SText before), (''new_state'', SText current),
                             (''reason_code'', SText current), (''message'', SText (coll_Reason health))])
                    (T ''collector_state_events'')),
                prev(name := current)))"

definition writeCollectorStateEvents ::
  "time \<Rightarrow> string list \<Rightarrow> (string \<Rightarrow> CollectorHealth option) \<Rightarrow> tables \<times> (string \<Rightarrow> string) \<Rightarrow> tables \<times> (string \<Rightarrow> string)" where
  "writeCollectorStateEvents t names collectors = fold (write_collector t collectors) names"

text \<open>The argument \<open>committed\<close> is what \<open>tx.Commit\<close> returns: an error leaves the tables as they were.\<close>

definition WriteBatch :: "go_error option \<Rightarrow> string list \<Rightarrow> PersistenceBatch \<Rightarrow> manager \<Rightarrow> manager outcome" where
  "WriteBatch committed names b m =
    (case write_samples (batch_Snapshot b) (mg_tables m) of
       Inl e \<Rightarrow> (m, Some e)
     | Inr T \<Rightarrow>
       let T = fold WriteEvent (batch_Events b) (fold write_filesystem (batch_Filesystems b) T);
           s = batch_Snapshot b
       in case writeCollectorStateEvents (snap_At s) names (snap_Collectors s) (T, mg_prevCollectors m) of
            (T, prev) \<Rightarrow>
              (case committed of
                 None \<Rightarrow> (m\<lparr>mg_tables := T, mg_prevCollectors := prev\<rparr>, None)
               | Some e \<Rightarrow> (m\<lparr>mg_prevCollectors := prev\<rparr>, Some e)))"

subsection \<open>Retrying\<close>

text \<open>
  \<open>Retry\<close>: \<open>f n\<close> is the \<open>n\<close>-th call of the function, \<open>cancelled n\<close> tells whether the context is done
  during the pause after it. An error is transient when its text says so.
\<close>

definition go_error_text :: "go_error \<Rightarrow> string" where
  "go_error_text e =
    (case e of ErrMsg s \<Rightarrow> s | ErrConstraint s \<Rightarrow> s | ErrNoRows \<Rightarrow> ''sql: no rows in result set''
     | NilDeref \<Rightarrow> ''invalid memory address or nil pointer dereference'')"

definition Transient :: "go_error \<Rightarrow> bool" where
  "Transient e = (let s = to_lower (go_error_text e)
    in contains s ''busy'' \<or> contains s ''locked'' \<or> e = ErrMsg ''context deadline exceeded'')"

fun retry_from :: "nat \<Rightarrow> nat \<Rightarrow> (nat \<Rightarrow> 's \<Rightarrow> 's outcome) \<Rightarrow> (nat \<Rightarrow> bool) \<Rightarrow> 's outcome \<Rightarrow> 's outcome" where
  "retry_from 0 attempt f cancelled latest = latest"
| "retry_from (Suc n) attempt f cancelled latest =
    (case f attempt (fst latest) of
       (s, None) \<Rightarrow> (s, None)
     | (s, Some e) \<Rightarrow>
         if \<not> Transient e then (s, Some e)
         else if cancelled attempt then (s, Some (ErrMsg ''context canceled''))
         else retry_from n (Suc attempt) f cancelled (s, Some e))"

definition Retry_storage :: "(nat \<Rightarrow> 's \<Rightarrow> 's outcome) \<Rightarrow> (nat \<Rightarrow> bool) \<Rightarrow> 's \<Rightarrow> 's outcome" where
  "Retry_storage f cancelled s = retry_from 5 0 f cancelled (s, None)"

subsection \<open>Budget and retention\<close>

definition SetRetention :: "RetentionCutoffs \<Rightarrow> manager \<Rightarrow> manager" where
  "SetRetention r m = m\<lparr>mg_retention := r\<rparr>"

definition SetBudgetTarget :: "int \<Rightarrow> manager \<Rightarrow> manager" where
  "SetBudgetTarget bytes m = m\<lparr>mg_budget := (mg_budget m)\<lparr>bud_TargetBytes := bytes\<rparr>\<rparr>"

definition EvaluateBudget :: "int \<Rightarrow> int \<Rightarrow> rat \<Rightarrow> rat \<Rightarrow> rat \<Rightarrow> BudgetState" where
  "EvaluateBudget used target warning critical emergency =
    (if target \<le> 0 then BudgetOK
     else let r = of_int used / of_int target
       in if emergency \<le> r then BudgetEmergency
          else if critical \<le> r then BudgetCritical
          else if warning \<le> r then BudgetWarning
          else BudgetOK)"

definition databaseSize :: "(string \<Rightarrow> int option) \<Rightarrow> string \<Rightarrow> int" where
  "databaseSize stat path =
    sum_list (map (\<lambda>name. case stat name of None \<Rightarrow> 0 | Some bytes \<Rightarrow> bytes) [path, path @ ''-wal'', path @ ''-shm''])"

text \<open>
  One table: batches until no row is older than the cutoff. During an aggressive run the loop
  pauses after every batch and returns when the context is done (\<open>cancelled n\<close>, at the \<open>n\<close>-th
  pause).
\<close>

function prune :: "bool \<Rightarrow> (nat \<Rightarrow> bool) \<Rightarrow> nat \<Rightarrow> int \<Rightarrow> row list \<Rightarrow> row list \<times> nat \<times> bool" where
  "prune aggressive cancelled n cutoff t =
    (if count_where (\<lambda>r. int_lt (r ''ts'') cutoff) t = 0 then (t, n, False)
     else let t' = del_limit (if aggressive then 2000 else 500) (\<lambda>r. int_lt (r ''ts'') cutoff) t
       in if aggressive \<and> cancelled n then (t', Suc n, True)
          else prune aggressive cancelled (if aggressive then Suc n else n) cutoff t')"
  by pat_completeness auto
termination
  by (relation "measure (\<lambda>(aggressive, cancelled, n, cutoff, t). count_where (\<lambda>r. int_lt (r ''ts'') cutoff) t)")
    (auto simp: count_del_limit)

declare prune.simps [simp del]

definition cutoffs :: "RetentionCutoffs \<Rightarrow> (string \<times> duration) list" where
  "cutoffs r =
    [(''host_samples_10s'', rc_Raw r), (''resource_samples_10s'', rc_Raw r), (''container_instance_samples_10s'', rc_Raw r),
     (''filesystem_samples_1m'', rc_Raw r), (''network_interface_samples_1m'', rc_Raw r), (''events'', rc_Raw r),
     (''collector_state_events'', rc_Raw r), (''host_rollups_1m'', rc_OneMinute r), (''resource_rollups_1m'', rc_OneMinute r),
     (''host_rollups_15m'', rc_FifteenMinute r), (''resource_rollups_15m'', rc_FifteenMinute r),
     (''host_rollups_1h'', rc_OneHour r), (''resource_rollups_1h'', rc_OneHour r)]"

fun prune_tables :: "bool \<Rightarrow> (nat \<Rightarrow> bool) \<Rightarrow> nat \<Rightarrow> time \<Rightarrow> (string \<times> duration) list \<Rightarrow> tables \<Rightarrow> tables outcome" where
  "prune_tables aggressive cancelled n now [] T = (T, None)"
| "prune_tables aggressive cancelled n now ((table, duration) # rest) T =
    (if duration \<le> 0 then prune_tables aggressive cancelled n now rest T
     else case prune aggressive cancelled n (unix_milli (now - duration)) (T table) of
       (t, n', stopped) \<Rightarrow>
         if stopped then (T(table := t), Some (ErrMsg ''context canceled''))
         else prune_tables aggressive cancelled n' now rest (T(table := t)))"

definition applyRetention :: "(nat \<Rightarrow> bool) \<Rightarrow> time \<Rightarrow> RetentionCutoffs \<Rightarrow> bool \<Rightarrow> tables \<Rightarrow> tables outcome" where
  "applyRetention cancelled now r aggressive T =
    (if rc_Raw r = 0 then (T, None) else prune_tables aggressive cancelled 0 now (cutoffs r) T)"

definition budget_event :: "bool \<Rightarrow> time \<Rightarrow> Event" where
  "budget_event paused now =
    \<lparr>event_ID = 0, event_At = now, event_Type = if paused then ''persistence_emergency'' else ''persistence_resumed'',
     event_ResourceID = [], event_ContainerInstance = [], event_Severity = if paused then ''critical'' else ''info'',
     event_Message = if paused then ''Raw history persistence paused; database volume reached emergency threshold''
       else ''Raw history persistence resumed; database volume below emergency threshold'',
     event_Details = [], event_CorrelationKey = []\<rparr>"

definition evaluateBudgetAndRetention :: "int \<Rightarrow> (nat \<Rightarrow> bool) \<Rightarrow> time \<Rightarrow> bool \<Rightarrow> manager \<Rightarrow> manager" where
  "evaluateBudgetAndRetention used cancelled now runRetention m =
    (let target = bud_TargetBytes (mg_budget m);
         state = EvaluateBudget used target (80/100) (95/100) (98/100);
         wasPaused = mg_emergencyPause m;
         paused = (state = BudgetEmergency);
         m = m\<lparr>mg_budget := \<lparr>bud_UsedBytes = used, bud_TargetBytes = target, bud_State = state\<rparr>, mg_emergencyPause := paused\<rparr>;
         m = (if wasPaused \<noteq> paused then m\<lparr>mg_tables := WriteEvent (budget_event paused now) (mg_tables m)\<rparr> else m)
     in if \<not> runRetention then m
        else m\<lparr>mg_tables := fst (applyRetention cancelled now (mg_retention m) (state = BudgetCritical \<or> state = BudgetEmergency) (mg_tables m))\<rparr>)"

subsection \<open>Hosts and resources\<close>

text \<open>\<open>stamp\<close> is the current time as \<^verbatim>\<open>RFC3339Nano\<close> text.\<close>

definition HostIdentity :: "crypto \<Rightarrow> string \<Rightarrow> string \<Rightarrow> string" where
  "HostIdentity c machineID installationID =
    hex_encode (sha256 c (if machineID = [] then installationID else machineID))"

definition UpsertHost :: "string \<Rightarrow> string \<Rightarrow> string \<Rightarrow> string \<Rightarrow> tables \<Rightarrow> tables result" where
  "UpsertHost stamp i identity name T =
    (if list_ex (\<lambda>r. text_is (r ''identity_hash'') identity \<and> \<not> text_is (r ''id'') i) (T ''hosts'')
     then Inl (ErrConstraint ''UNIQUE constraint failed'')
     else Inr (T(''hosts'' := upsert (\<lambda>r. text_is (r ''id'') i)
       (\<lambda>r. r(''name'' := SText name, ''updated_at'' := SText stamp))
       (row_of [(''id'', SText i), (''identity_hash'', SText identity), (''name'', SText name), (''updated_at'', SText stamp)])
       (T ''hosts''))))"

definition OpenBoot :: "string \<Rightarrow> string \<Rightarrow> string \<Rightarrow> tables \<Rightarrow> tables outcome" where
  "OpenBoot stamp host boot T =
    (let ended = upd_where (\<lambda>r. text_is (r ''host_id'') host \<and> r ''ended_at'' = SNull \<and> r ''boot_identity'' \<noteq> SNull \<and> \<not> text_is (r ''boot_identity'') boot)
           (\<lambda>r. r(''ended_at'' := SText stamp)) (T ''boot_sessions'');
         row = row_of [(''host_id'', SText host), (''boot_identity'', SText boot), (''started_at'', SText stamp)];
         T = T(''boot_sessions'' := ended)
     in if list_ex (same_key [''host_id'', ''boot_identity''] row) ended then (T, None)
        else if \<not> list_ex (\<lambda>r. text_is (r ''id'') host) (T ''hosts'') then (T, Some (ErrConstraint ''FOREIGN KEY constraint failed''))
        else (T(''boot_sessions'' := ended @ [row]), None))"

record Resource =
  rsc_ID :: string
  rsc_HostID :: string
  rsc_StableKey :: string
  rsc_SourceKind :: string
  rsc_Name :: string
  rsc_Context :: string
  rsc_Category :: string
  rsc_Status :: string
  rsc_ProjectName :: string
  rsc_EnvironmentName :: string
  rsc_ArchivedAt :: "time option"

definition UpsertResource :: "time \<Rightarrow> Resource \<Rightarrow> tables \<Rightarrow> tables result" where
  "UpsertResource now r T =
    (let same = (\<lambda>x. text_is (x ''host_id'') (rsc_HostID r) \<and> text_is (x ''stable_key'') (rsc_StableKey r));
         shown = [(''name'', SText (rsc_Name r)), (''context'', SText (rsc_Context r)), (''project_name'', null_text (rsc_ProjectName r)),
                  (''environment_name'', null_text (rsc_EnvironmentName r)), (''category'', SText (rsc_Category r)),
                  (''status'', SText (rsc_Status r)), (''last_seen_at'', SInt (unix_milli now))];
         row = row_of ([(''id'', SText (rsc_ID r)), (''host_id'', SText (rsc_HostID r)), (''stable_key'', SText (rsc_StableKey r)),
                        (''source_kind'', SText (rsc_SourceKind r)), (''first_seen_at'', SInt (unix_milli now))] @ shown)
     in if list_ex (\<lambda>x. text_is (x ''id'') (rsc_ID r) \<and> \<not> same x) (T ''resources'')
        then Inl (ErrConstraint ''UNIQUE constraint failed'')
        else if \<not> list_ex same (T ''resources'') \<and> \<not> list_ex (\<lambda>x. text_is (x ''id'') (rsc_HostID r)) (T ''hosts'')
        then Inl (ErrConstraint ''FOREIGN KEY constraint failed'')
        else Inr (T(''resources'' := upsert same
          (\<lambda>x c. if c = ''archived_at'' then SNull else case map_of shown c of Some v \<Rightarrow> v | None \<Rightarrow> x c) row (T ''resources''))))"

definition ArchiveMissingResources :: "time \<Rightarrow> string list \<Rightarrow> time \<Rightarrow> tables \<Rightarrow> tables" where
  "ArchiveMissingResources now live before T =
    T(''resources'' := upd_where
      (\<lambda>r. r ''status'' \<noteq> SNull \<and> \<not> text_is (r ''status'') ''archived'' \<and> int_lt (r ''last_seen_at'') (unix_milli before) \<and>
           (live \<noteq> [] \<longrightarrow> \<not> list_ex (text_is (r ''id'')) live))
      (\<lambda>r. r(''status'' := SText ''archived'', ''archived_at'' := SInt (unix_milli now))) (T ''resources''))"

definition ArchiveResource :: "time \<Rightarrow> string \<Rightarrow> tables \<Rightarrow> tables" where
  "ArchiveResource now i T =
    T(''resources'' := upd_where (\<lambda>r. text_is (r ''id'') i)
      (\<lambda>r. r(''status'' := SText ''archived'', ''archived_at'' := SInt (unix_milli now))) (T ''resources''))"

fun column_text :: "sqlval \<Rightarrow> string" where
  "column_text (SText s) = s"
| "column_text (SInt i) = show_int i"
| "column_text _ = []"

definition scan_resource :: "row \<Rightarrow> Resource" where
  "scan_resource r =
    \<lparr>rsc_ID = column_text (r ''id''), rsc_HostID = column_text (r ''host_id''), rsc_StableKey = column_text (r ''stable_key''),
     rsc_SourceKind = column_text (r ''source_kind''), rsc_Name = column_text (r ''name''), rsc_Context = column_text (r ''context''),
     rsc_Category = column_text (r ''category''), rsc_Status = column_text (r ''status''),
     rsc_ProjectName = column_text (r ''project_name''), rsc_EnvironmentName = column_text (r ''environment_name''),
     rsc_ArchivedAt = (case r ''archived_at'' of SInt ms \<Rightarrow> Some (from_milli ms) | _ \<Rightarrow> None)\<rparr>"

definition Resource_get :: "string \<Rightarrow> tables \<Rightarrow> Resource result" where
  "Resource_get i T =
    (case find (\<lambda>r. text_is (r ''id'') i) (T ''resources'') of
       None \<Rightarrow> Inl ErrNoRows | Some r \<Rightarrow> Inr (scan_resource r))"

text \<open>
  \<open>ArchivedResources\<close>: the most recently archived first. Reading a \<^verbatim>\<open>NULL\<close> time is an error.
\<close>

fun archived_time :: "row \<Rightarrow> int" where
  "archived_time r = (case r ''archived_at'' of SInt ms \<Rightarrow> ms | _ \<Rightarrow> 0)"

definition ArchivedResources :: "tables \<Rightarrow> Resource list result" where
  "ArchivedResources T =
    (let rows = sort_key (\<lambda>r. - archived_time r) (sort_key (\<lambda>r. column_text (r ''name''))
           (filter (\<lambda>r. text_is (r ''status'') ''archived'') (T ''resources'')))
     in if list_ex (\<lambda>r. r ''archived_at'' = SNull) rows then Inl (ErrMsg ''converting NULL to int64 is unsupported'')
        else Inr (map scan_resource rows))"

end
