(* ===== verification/Storage_Rollups.thy ===== *)
theory Storage_Rollups
  imports Storage_Writer
begin

section \<open>Rollups\<close>

text \<open>
  \<^verbatim>\<open>internal/storage/rollups.go\<close>: every minute the raw samples are aggregated into buckets of one
  minute, fifteen minutes and one hour, with \<^verbatim>\<open>AVG, MIN, MAX\<close> and \<^verbatim>\<open>COUNT\<close> per metric, and the rows
  of closed buckets are written with \<^verbatim>\<open>INSERT OR REPLACE\<close>. Aggregates skip \<^verbatim>\<open>NULL\<close>, and a sum with
  \<^verbatim>\<open>NULL\<close> is \<^verbatim>\<open>NULL\<close>.
\<close>

fun num :: "sqlval \<Rightarrow> rat option" where
  "num (SInt i) = Some (of_int i)"
| "num (SReal x) = Some x"
| "num _ = None"

definition plus_columns :: "string \<Rightarrow> string \<Rightarrow> row \<Rightarrow> rat option" where
  "plus_columns a b r = (case (num (r a), num (r b)) of (Some x, Some y) \<Rightarrow> Some (x + y) | _ \<Rightarrow> None)"

definition measured :: "(row \<Rightarrow> rat option) \<Rightarrow> row list \<Rightarrow> rat list" where
  "measured e rows = List.map_filter e rows"

definition agg_avg :: "rat list \<Rightarrow> sqlval" where
  "agg_avg vs = (if vs = [] then SNull else SReal (sum_list vs / of_nat (length vs)))"

definition agg_min :: "rat list \<Rightarrow> sqlval" where
  "agg_min vs = (if vs = [] then SNull else SReal (Min (set vs)))"

definition agg_max :: "rat list \<Rightarrow> sqlval" where
  "agg_max vs = (if vs = [] then SNull else SReal (Max (set vs)))"

text \<open>A metric of a rollup: the prefix of its columns, its count column, and the aggregated expression.\<close>

type_synonym rollup_metric = "string \<times> string \<times> (row \<Rightarrow> rat option)"

definition host_rollup_metrics :: "rollup_metric list" where
  "host_rollup_metrics =
    [(''cpu'', ''sample_count'', \<lambda>r. num (r ''cpu_busy_pct'')),
     (''memory'', ''memory_count'', \<lambda>r. num (r ''memory_used_bytes'')),
     (''network_rx'', ''network_rx_count'', \<lambda>r. num (r ''network_rx_bps'')),
     (''network_tx'', ''network_tx_count'', \<lambda>r. num (r ''network_tx_bps'')),
     (''cpu_user'', ''cpu_user_count'', \<lambda>r. num (r ''cpu_user_pct'')),
     (''cpu_system'', ''cpu_system_count'', \<lambda>r. num (r ''cpu_system_pct'')),
     (''cpu_iowait'', ''cpu_iowait_count'', \<lambda>r. num (r ''cpu_iowait_pct'')),
     (''cpu_steal'', ''cpu_steal_count'', \<lambda>r. num (r ''cpu_steal_pct'')),
     (''load_1'', ''load_1_count'', \<lambda>r. num (r ''load_1'')),
     (''load_5'', ''load_5_count'', \<lambda>r. num (r ''load_5'')),
     (''load_15'', ''load_15_count'', \<lambda>r. num (r ''load_15'')),
     (''swap_used'', ''swap_used_count'', \<lambda>r. num (r ''swap_used_bytes'')),
     (''disk_read'', ''disk_read_count'', \<lambda>r. num (r ''disk_read_bps'')),
     (''disk_write'', ''disk_write_count'', \<lambda>r. num (r ''disk_write_bps'')),
     (''disk_iops'', ''disk_iops_count'', plus_columns ''disk_read_iops'' ''disk_write_iops'')]"

definition resource_rollup_metrics :: "rollup_metric list" where
  "resource_rollup_metrics =
    [(''cpu'', ''sample_count'', \<lambda>r. num (r ''cpu_host_pct'')),
     (''memory'', ''memory_count'', \<lambda>r. num (r ''memory_working_set_bytes'')),
     (''network_rx'', ''network_rx_count'', \<lambda>r. num (r ''network_rx_bps'')),
     (''network_tx'', ''network_tx_count'', \<lambda>r. num (r ''network_tx_bps'')),
     (''block_read'', ''block_read_count'', \<lambda>r. num (r ''block_read_bps'')),
     (''block_write'', ''block_write_count'', \<lambda>r. num (r ''block_write_bps''))]"

definition metric_columns :: "row list \<Rightarrow> rollup_metric \<Rightarrow> (string \<times> sqlval) list" where
  "metric_columns rows m =
    (case m of (prefix, count, e) \<Rightarrow>
      let vs = measured e rows
      in [(prefix @ ''_avg'', agg_avg vs), (prefix @ ''_min'', agg_min vs), (prefix @ ''_max'', agg_max vs),
          (count, SInt (int (length vs)))])"

definition rollup_row :: "(string \<times> sqlval) list \<Rightarrow> rollup_metric list \<Rightarrow> row list \<Rightarrow> row" where
  "rollup_row keys metrics rows = row_of (keys @ concat (map (metric_columns rows) metrics))"

text \<open>The bucket of a sample, \<^verbatim>\<open>ts/bucket\<close> on integers.\<close>

definition bucket_of :: "int \<Rightarrow> row \<Rightarrow> int" where
  "bucket_of width r = (case r ''ts'' of SInt i \<Rightarrow> trunc_div i width | _ \<Rightarrow> 0)"

text \<open>\<^verbatim>\<open>INSERT OR REPLACE .. SELECT .. GROUP BY\<close>: one row per group.\<close>

definition replace_groups :: "string list \<Rightarrow> (row \<Rightarrow> 'k) \<Rightarrow> ('k \<Rightarrow> row list \<Rightarrow> row) \<Rightarrow> row list \<Rightarrow> row list \<Rightarrow> row list" where
  "replace_groups columns g build rows t =
    fold (\<lambda>k. insert_replace columns (build k (filter (\<lambda>r. g r = k) rows))) (remdups (map g rows)) t"

definition host_rollup :: "int \<Rightarrow> int \<Rightarrow> row list \<Rightarrow> row" where
  "host_rollup width q = rollup_row [(''ts'', SInt (q * width))] host_rollup_metrics"

definition resource_rollup :: "int \<Rightarrow> string \<times> int \<Rightarrow> row list \<Rightarrow> row" where
  "resource_rollup width k = rollup_row [(''ts'', SInt (snd k * width)), (''resource_id'', SText (fst k))] resource_rollup_metrics"

definition resource_group :: "int \<Rightarrow> row \<Rightarrow> string \<times> int" where
  "resource_group width r = (column_text (r ''resource_id''), bucket_of width r)"

definition closed :: "int \<Rightarrow> row list \<Rightarrow> row list" where
  "closed cutoff rows = filter (\<lambda>r. int_lt (r ''ts'') cutoff) rows"

text \<open>\<open>Time.Truncate\<close> counts from the zero time.\<close>

definition truncate_time :: "duration \<Rightarrow> time \<Rightarrow> time" where
  "truncate_time d t = t - (t - zero_time) mod d"

definition rollup_tiers :: "(string \<times> duration) list" where
  "rollup_tiers = [(''1m'', minutes 1), (''15m'', minutes 15), (''1h'', hours 1)]"

definition rollup_tier :: "time \<Rightarrow> string \<times> duration \<Rightarrow> tables \<Rightarrow> tables" where
  "rollup_tier now tier T =
    (let name = fst tier; bucket = snd tier div 1000000; cutoff = unix_milli (truncate_time (snd tier) now);
         T = T(''host_rollups_'' @ name := replace_groups [''ts''] (bucket_of bucket) (host_rollup bucket)
               (closed cutoff (T ''host_samples_10s'')) (T (''host_rollups_'' @ name)))
     in T(''resource_rollups_'' @ name := replace_groups [''resource_id'', ''ts''] (resource_group bucket) (resource_rollup bucket)
               (closed cutoff (T ''resource_samples_10s'')) (T (''resource_rollups_'' @ name))))"

definition RollupOnce :: "time \<Rightarrow> tables \<Rightarrow> tables" where
  "RollupOnce now T = fold (rollup_tier now) rollup_tiers T"

subsection \<open>One row per group\<close>

text \<open>
  What the loop over the groups relies on: the row of a group carries the key of the group, and
  different groups have different keys.
\<close>

locale keyed_groups =
  fixes columns :: "string list" and build :: "'k \<Rightarrow> row list \<Rightarrow> row"
  assumes own_key: "same_key columns (build k G) (build k G')"
    and keys_differ: "same_key columns (build k G) (build k' G') \<Longrightarrow> k = k'"
begin

lemma same_key_group: "same_key columns (build k G) r = same_key columns (build k G') r"
  using own_key [of k G G'] own_key [of k G' G] unfolding same_key_def list_all_iff by metis

lemma key_unique: "same_key columns (build k G) r \<Longrightarrow> same_key columns (build k' G') r \<Longrightarrow> k = k'"
  by (rule keys_differ [of _ G _ G']) (simp add: same_key_def list_all_iff)

lemma filter_replace:
  "filter (same_key columns (build k G)) (insert_replace columns (build k' G') t) =
   (if k' = k then [build k' G'] else filter (same_key columns (build k G)) t)"
proof (cases "k' = k")
  case True
  then show ?thesis using own_key same_key_group [of k G _ G']
    by (auto simp: insert_replace_def del_where_def filter_empty_conv)
next
  case False
  then have "\<not> same_key columns (build k G) (build k' G')" using keys_differ by blast
  moreover have "filter (\<lambda>r. same_key columns (build k G) r \<and> \<not> same_key columns (build k' G') r) t =
      filter (same_key columns (build k G)) t"
    using False key_unique by (metis (mono_tags, lifting))
  ultimately show ?thesis using False by (simp add: insert_replace_def del_where_def conj_commute)
qed

lemma filter_groups:
  "distinct ks \<Longrightarrow>
   filter (same_key columns (build k [])) (fold (\<lambda>k. insert_replace columns (build k (G k))) ks t) =
   (if k \<in> set ks then [build k (G k)] else filter (same_key columns (build k [])) t)"
  by (induction ks arbitrary: t) (auto simp: filter_replace)

lemma replace_groups_key:
  "filter (same_key columns (build k [])) (replace_groups columns g build rows t) =
   (let G = filter (\<lambda>r. g r = k) rows in if G = [] then filter (same_key columns (build k [])) t else [build k G])"
proof -
  have "(k \<in> set (remdups (map g rows))) = (filter (\<lambda>r. g r = k) rows \<noteq> [])"
    by (auto simp: filter_empty_conv)
  then show ?thesis unfolding replace_groups_def by (simp add: filter_groups Let_def)
qed

end

lemma rollup_row_key: "map_of keys c = Some v \<Longrightarrow> rollup_row keys metrics rows c = v"
  by (simp add: rollup_row_def row_of_def map_add_def)

interpretation host_groups: keyed_groups "[''ts'']" "host_rollup (int (Suc w))" for w
  by unfold_locales (auto simp: same_key_def host_rollup_def rollup_row_key)

interpretation resource_groups: keyed_groups "[''resource_id'', ''ts'']" "resource_rollup (int (Suc w))" for w
  by unfold_locales (auto simp: same_key_def resource_rollup_def rollup_row_key prod_eq_iff)

text \<open>The row of one bucket after a rollup, for any width of the buckets.\<close>

definition host_bucket :: "int \<Rightarrow> int \<Rightarrow> row list \<Rightarrow> row list" where
  "host_bucket width q t = filter (\<lambda>r. r ''ts'' = SInt (q * width)) t"

definition resource_bucket :: "int \<Rightarrow> string \<Rightarrow> int \<Rightarrow> row list \<Rightarrow> row list" where
  "resource_bucket width res q t = filter (\<lambda>r. r ''resource_id'' = SText res \<and> r ''ts'' = SInt (q * width)) t"

lemma host_bucket_rollup:
  assumes "0 < width"
  shows "host_bucket width q (replace_groups [''ts''] (bucket_of width) (host_rollup width) rows t) =
    (let G = filter (\<lambda>r. bucket_of width r = q) rows in if G = [] then host_bucket width q t else [host_rollup width q G])"
proof -
  obtain w where w: "width = int (Suc w)" using assms by (metis Suc_pred nat_0_less_mult_iff of_nat_0_less_iff pos_int_cases)
  have key: "same_key [''ts''] (host_rollup width q []) = (\<lambda>r. r ''ts'' = SInt (q * width))"
    by (auto simp: same_key_def host_rollup_def rollup_row_key)
  show ?thesis using host_groups.replace_groups_key [of w q "bucket_of width" rows t]
    unfolding host_bucket_def w [symmetric] key .
qed

lemma resource_bucket_rollup:
  assumes "0 < width"
  shows "resource_bucket width res q (replace_groups [''resource_id'', ''ts''] (resource_group width) (resource_rollup width) rows t) =
    (let G = filter (\<lambda>r. resource_group width r = (res, q)) rows
     in if G = [] then resource_bucket width res q t else [resource_rollup width (res, q) G])"
proof -
  obtain w where w: "width = int (Suc w)" using assms by (metis Suc_pred nat_0_less_mult_iff of_nat_0_less_iff pos_int_cases)
  have key: "same_key [''resource_id'', ''ts''] (resource_rollup width (res, q) []) =
      (\<lambda>r. r ''resource_id'' = SText res \<and> r ''ts'' = SInt (q * width))"
    by (auto simp: same_key_def resource_rollup_def rollup_row_key)
  show ?thesis using resource_groups.replace_groups_key [of w "(res, q)" "resource_group width" rows t]
    unfolding resource_bucket_def w [symmetric] key .
qed

end
