(* ===== verification/Storage_History.thy ===== *)
theory Storage_History
  imports Storage_Rollups
begin

section \<open>Reading history\<close>

text \<open>
  \<^verbatim>\<open>internal/storage/history.go\<close> and \<^verbatim>\<open>events.go\<close>: a query picks a resolution from the length of its
  range, reads the points of each metric from the table of that resolution, and reports the
  stretches without data with a reason.
\<close>

datatype Metric =
    MetricCPU | MetricCPUUser | MetricCPUSystem | MetricCPUIOWait | MetricCPUSteal | MetricMemory | MetricSwap
  | MetricLoad1 | MetricLoad5 | MetricLoad15 | MetricNetworkRX | MetricNetworkTX | MetricNetworkPackets
  | MetricDiskRead | MetricDiskWrite | MetricDiskIOPS | MetricBlockRead | MetricBlockWrite | MetricOther string

datatype Resolution = ResolutionRaw | Resolution1m | Resolution15m | Resolution1h

fun metric_text :: "Metric \<Rightarrow> string" where
  "metric_text MetricCPU = ''cpu''"
| "metric_text MetricCPUUser = ''cpu_user''"
| "metric_text MetricCPUSystem = ''cpu_system''"
| "metric_text MetricCPUIOWait = ''cpu_iowait''"
| "metric_text MetricCPUSteal = ''cpu_steal''"
| "metric_text MetricMemory = ''memory''"
| "metric_text MetricSwap = ''swap''"
| "metric_text MetricLoad1 = ''load_1''"
| "metric_text MetricLoad5 = ''load_5''"
| "metric_text MetricLoad15 = ''load_15''"
| "metric_text MetricNetworkRX = ''network_rx''"
| "metric_text MetricNetworkTX = ''network_tx''"
| "metric_text MetricNetworkPackets = ''network_packets''"
| "metric_text MetricDiskRead = ''disk_read''"
| "metric_text MetricDiskWrite = ''disk_write''"
| "metric_text MetricDiskIOPS = ''disk_iops''"
| "metric_text MetricBlockRead = ''block_read''"
| "metric_text MetricBlockWrite = ''block_write''"
| "metric_text (MetricOther s) = s"

fun resolution_text :: "Resolution \<Rightarrow> string" where
  "resolution_text ResolutionRaw = ''10s''"
| "resolution_text Resolution1m = ''1m''"
| "resolution_text Resolution15m = ''15m''"
| "resolution_text Resolution1h = ''1h''"

record MetricQuery =
  mq_Scope :: string
  mq_ID :: string
  mq_Metrics :: "Metric list"
  mq_From :: time
  mq_To :: time

record Point =
  pt_At :: time
  pt_Min :: "float64 option"
  pt_Avg :: "float64 option"
  pt_Max :: "float64 option"
  pt_Count :: int

record Series =
  ser_Metric :: Metric
  ser_Unit :: string
  ser_Points :: "Point list"

record Gap =
  gap_From :: time
  gap_To :: time
  gap_Reason :: string

record MetricsResponse =
  mr_Scope :: string
  mr_ID :: string
  mr_From :: time
  mr_To :: time
  mr_Resolution :: Resolution
  mr_Series :: "Series list"
  mr_Gaps :: "Gap list"

subsection \<open>Queries\<close>

definition HasMetricHistory :: "tables \<Rightarrow> bool" where
  "HasMetricHistory T = (T ''host_samples_10s'' \<noteq> [])"

definition hostMetrics :: "Metric list" where
  "hostMetrics = [MetricCPU, MetricCPUUser, MetricCPUSystem, MetricCPUIOWait, MetricCPUSteal, MetricMemory, MetricSwap,
     MetricLoad1, MetricLoad5, MetricLoad15, MetricNetworkRX, MetricNetworkTX, MetricDiskRead, MetricDiskWrite, MetricDiskIOPS]"

definition resourceMetrics :: "Metric list" where
  "resourceMetrics = [MetricCPU, MetricMemory, MetricNetworkRX, MetricNetworkTX, MetricBlockRead, MetricBlockWrite]"

definition metricAllowed :: "string \<Rightarrow> Metric \<Rightarrow> bool" where
  "metricAllowed scope m = (if scope = ''host'' then m \<in> set hostMetrics else m \<in> set resourceMetrics)"

text \<open>\<open>quoted\<close>: the verb \<^verbatim>\<open>%q\<close> on text without characters to escape.\<close>

definition quoted :: "string \<Rightarrow> string" where
  "quoted s = CHR 0x22 # s @ [CHR 0x22]"

fun check_metrics :: "string \<Rightarrow> Metric set \<Rightarrow> Metric list \<Rightarrow> unit result" where
  "check_metrics scope seen [] = Inr ()"
| "check_metrics scope seen (m # ms) =
    (if m \<in> seen \<or> \<not> metricAllowed scope m then Inl (ErrMsg (''invalid metric '' @ quoted (metric_text m)))
     else check_metrics scope (insert m seen) ms)"

definition Validate_query :: "MetricQuery \<Rightarrow> unit result" where
  "Validate_query q =
    (if mq_Scope q \<noteq> ''host'' \<and> mq_Scope q \<noteq> ''resource'' then Inl (ErrMsg ''invalid scope'')
     else if mq_Scope q = ''host'' \<and> mq_ID q \<noteq> [] then Inl (ErrMsg ''host metrics do not accept id'')
     else if mq_Scope q = ''resource'' \<and> mq_ID q = [] then Inl (ErrMsg ''resource id is required'')
     else if mq_From q = zero_time \<or> mq_To q = zero_time \<or> \<not> mq_From q < mq_To q \<or> hours 720 < time_sub (mq_To q) (mq_From q)
     then Inl (ErrMsg ''invalid time range'')
     else if mq_Metrics q = [] \<or> 6 < length (mq_Metrics q) then Inl (ErrMsg ''invalid metric count'')
     else check_metrics (mq_Scope q) {} (mq_Metrics q))"

definition selectResolution :: "duration \<Rightarrow> Resolution" where
  "selectResolution d =
    (if d \<le> hours 2 then ResolutionRaw
     else if d \<le> minutes 1000 then Resolution1m
     else if d \<le> minutes 15000 then Resolution15m
     else Resolution1h)"

fun metricUnit :: "Metric \<Rightarrow> string" where
  "metricUnit m =
    (if m \<in> {MetricCPU, MetricCPUUser, MetricCPUSystem, MetricCPUIOWait, MetricCPUSteal} then ''percent''
     else if m \<in> {MetricMemory, MetricSwap} then ''bytes''
     else if m \<in> {MetricLoad1, MetricLoad5, MetricLoad15} then ''load''
     else if m = MetricDiskIOPS then ''ops_per_second''
     else ''bytes_per_second'')"

text \<open>\<open>metricSource\<close>: the columns and the table of a metric. The raw column of \<open>MetricDiskIOPS\<close> is an expression.\<close>

definition raw_columns :: "(Metric \<times> string) list" where
  "raw_columns =
    [(MetricCPU, ''cpu_busy_pct''), (MetricCPUUser, ''cpu_user_pct''), (MetricCPUSystem, ''cpu_system_pct''),
     (MetricCPUIOWait, ''cpu_iowait_pct''), (MetricCPUSteal, ''cpu_steal_pct''), (MetricMemory, ''memory_used_bytes''),
     (MetricSwap, ''swap_used_bytes''), (MetricLoad1, ''load_1''), (MetricLoad5, ''load_5''), (MetricLoad15, ''load_15''),
     (MetricNetworkRX, ''network_rx_bps''), (MetricNetworkTX, ''network_tx_bps''), (MetricDiskRead, ''disk_read_bps''),
     (MetricDiskWrite, ''disk_write_bps''), (MetricDiskIOPS, ''disk_read_iops + disk_write_iops''),
     (MetricBlockRead, ''block_read_bps''), (MetricBlockWrite, ''block_write_bps'')]"

definition rollup_prefixes :: "(Metric \<times> string) list" where
  "rollup_prefixes =
    [(MetricCPU, ''cpu''), (MetricCPUUser, ''cpu_user''), (MetricCPUSystem, ''cpu_system''), (MetricCPUIOWait, ''cpu_iowait''),
     (MetricCPUSteal, ''cpu_steal''), (MetricMemory, ''memory''), (MetricSwap, ''swap_used''), (MetricLoad1, ''load_1''),
     (MetricLoad5, ''load_5''), (MetricLoad15, ''load_15''), (MetricNetworkRX, ''network_rx''), (MetricNetworkTX, ''network_tx''),
     (MetricDiskRead, ''disk_read''), (MetricDiskWrite, ''disk_write''), (MetricDiskIOPS, ''disk_iops''),
     (MetricBlockRead, ''block_read''), (MetricBlockWrite, ''block_write'')]"

definition metricSource :: "string \<Rightarrow> Metric \<Rightarrow> Resolution \<Rightarrow> (string \<times> string \<times> string \<times> string \<times> string) result" where
  "metricSource scope m res =
    (case map_of raw_columns m of
       None \<Rightarrow> Inl (ErrMsg ''unsupported metric'')
     | Some raw \<Rightarrow>
       if res = ResolutionRaw
       then let table = (if scope = ''host'' then ''host_samples_10s'' else ''resource_samples_10s'');
                column = (if scope = ''resource'' \<and> m = MetricCPU then ''cpu_host_pct''
                          else if scope = ''resource'' \<and> m = MetricMemory then ''memory_working_set_bytes'' else raw)
            in Inr (column, column, column, [], table)
       else (case map_of rollup_prefixes m of
               None \<Rightarrow> Inl (ErrMsg ''unsupported metric for rollup resolution'')
             | Some prefix \<Rightarrow>
               Inr (prefix @ ''_min'', prefix @ ''_avg'', prefix @ ''_max'',
                    if m = MetricCPU then ''sample_count'' else prefix @ ''_count'',
                    (if scope = ''host'' then ''host_rollups_'' else ''resource_rollups_'') @ resolution_text res)))"

definition select_column :: "string \<Rightarrow> row \<Rightarrow> float64 option" where
  "select_column c r =
    (if c = ''disk_read_iops + disk_write_iops'' then plus_columns ''disk_read_iops'' ''disk_write_iops'' r else num (r c))"

fun row_ts :: "row \<Rightarrow> int" where
  "row_ts r = (case r ''ts'' of SInt i \<Rightarrow> i | SReal x \<Rightarrow> \<lfloor>x\<rfloor> | _ \<Rightarrow> 0)"

text \<open>\<open>Scan\<close> into an integer fails on \<^verbatim>\<open>NULL\<close> and leaves the variable as it was.\<close>

fun scan_int :: "sqlval \<Rightarrow> int result" where
  "scan_int (SInt i) = Inr i"
| "scan_int _ = Inl (ErrMsg ''sql: Scan error'')"

definition int_or_zero :: "sqlval \<Rightarrow> int" where
  "int_or_zero v = (case scan_int v of Inr i \<Rightarrow> i | Inl _ \<Rightarrow> 0)"

definition selected_rows :: "MetricQuery \<Rightarrow> row list \<Rightarrow> row list" where
  "selected_rows q rows =
    sort_key row_ts (filter (\<lambda>r. int_ge (r ''ts'') (unix_milli (mq_From q)) \<and> int_le (r ''ts'') (unix_milli (mq_To q)) \<and>
      (mq_Scope q = ''resource'' \<longrightarrow> text_is (r ''resource_id'') (mq_ID q))) rows)"

definition raw_point :: "string \<Rightarrow> row \<Rightarrow> Point" where
  "raw_point column r =
    (let v = select_column column r
     in \<lparr>pt_At = from_milli (row_ts r), pt_Min = v, pt_Avg = v, pt_Max = v, pt_Count = if v \<noteq> None then 1 else 0\<rparr>)"

fun rollup_points :: "string \<Rightarrow> string \<Rightarrow> string \<Rightarrow> string \<Rightarrow> row list \<Rightarrow> Point list result" where
  "rollup_points minC avgC maxC countC [] = Inr []"
| "rollup_points minC avgC maxC countC (r # rows) =
    bind_result (scan_int (r countC)) (\<lambda>n.
    bind_result (rollup_points minC avgC maxC countC rows) (\<lambda>ps.
      Inr (\<lparr>pt_At = from_milli (row_ts r), pt_Min = num (r minC), pt_Avg = num (r avgC), pt_Max = num (r maxC), pt_Count = n\<rparr> # ps)))"

definition metricPoints :: "MetricQuery \<Rightarrow> Metric \<Rightarrow> Resolution \<Rightarrow> tables \<Rightarrow> Point list result" where
  "metricPoints q m res T =
    bind_result (metricSource (mq_Scope q) m res) (\<lambda>(minC, avgC, maxC, countC, table).
      let rows = selected_rows q (T table)
      in if res = ResolutionRaw then Inr (map (raw_point avgC) rows)
         else rollup_points minC avgC maxC countC rows)"

subsection \<open>Gaps\<close>

fun step_of :: "Resolution \<Rightarrow> duration" where
  "step_of ResolutionRaw = seconds 10"
| "step_of Resolution1m = minutes 1"
| "step_of Resolution15m = minutes 15"
| "step_of Resolution1h = hours 1"

fun gaps_from :: "duration \<Rightarrow> time \<Rightarrow> time \<Rightarrow> Point list \<Rightarrow> Gap list" where
  "gaps_from step cursor to [] =
    (if step * 2 < time_sub to cursor then [\<lparr>gap_From = cursor, gap_To = to, gap_Reason = ''missing''\<rparr>] else [])"
| "gaps_from step cursor to (p # ps) =
    (if step * 2 < time_sub (pt_At p) cursor then [\<lparr>gap_From = cursor, gap_To = pt_At p, gap_Reason = ''missing''\<rparr>] else []) @
    (if pt_Avg p = None then [\<lparr>gap_From = pt_At p, gap_To = pt_At p + step, gap_Reason = ''missing''\<rparr>] else []) @
    gaps_from step (pt_At p + step) to ps"

definition findGaps :: "time \<Rightarrow> time \<Rightarrow> Resolution \<Rightarrow> Point list \<Rightarrow> Gap list" where
  "findGaps from to res ps = gaps_from (step_of res) from to ps"

fun merge_into :: "Gap \<Rightarrow> Gap list \<Rightarrow> Gap list" where
  "merge_into g [] = [g]"
| "merge_into g (h # hs) =
    (if gap_Reason h = gap_Reason g \<and> gap_From h \<le> gap_To g
     then merge_into (if gap_To g < gap_To h then g\<lparr>gap_To := gap_To h\<rparr> else g) hs
     else g # merge_into h hs)"

fun mergeGaps :: "Gap list \<Rightarrow> Gap list" where
  "mergeGaps [] = []"
| "mergeGaps (g # gs) = merge_into g gs"

definition between :: "int \<Rightarrow> int \<Rightarrow> row \<Rightarrow> bool" where
  "between a b r = (int_ge (r ''ts'') a \<and> int_lt (r ''ts'') b)"

definition classifyGap :: "MetricQuery \<Rightarrow> Gap \<Rightarrow> tables \<Rightarrow> string" where
  "classifyGap q g T =
    (let from = unix_milli (gap_From g); to = unix_milli (gap_To g);
         collector = (if mq_Scope q = ''resource'' then ''docker'' else ''host'');
         states = filter (\<lambda>r. text_is (r ''collector_name'') collector) (T ''collector_state_events'')
     in if list_ex (\<lambda>r. between from to r \<and> r ''type'' \<in> {SText ''persistence_degraded'', SText ''persistence_gap''}) (T ''events'')
        then ''persistence_failure''
        else if (case latest_by row_ts (filter (\<lambda>r. int_le (r ''ts'') from) states) of
                   None \<Rightarrow> False | Some r \<Rightarrow> r ''new_state'' \<in> {SText ''degraded'', SText ''down''})
        then ''collector_unavailable''
        else if list_ex (\<lambda>r. between from to r \<and> r ''new_state'' \<in> {SText ''degraded'', SText ''down''}) states
        then ''collector_unavailable''
        else if mq_Scope q = ''resource'' \<and>
          (case latest_by row_ts (filter (\<lambda>r. text_is (r ''resource_id'') (mq_ID q) \<and> int_lt (r ''ts'') to) (T ''resource_samples_10s'')) of
             None \<Rightarrow> True
           | Some r \<Rightarrow> int_or_zero (r ''active_instance_count'') = 0 \<or> r ''status'' \<in> {SText ''paused'', SText ''archived''})
        then ''inactive''
        else ''missing'')"

fun query_series :: "MetricQuery \<Rightarrow> Resolution \<Rightarrow> Metric list \<Rightarrow> tables \<Rightarrow> Series list result" where
  "query_series q res [] T = Inr []"
| "query_series q res (m # ms) T =
    bind_result (metricPoints q m res T) (\<lambda>ps.
    bind_result (query_series q res ms T) (\<lambda>rest. Inr (\<lparr>ser_Metric = m, ser_Unit = metricUnit m, ser_Points = ps\<rparr> # rest)))"

text \<open>\<open>QueryMetrics\<close>: the gaps are those of the first metric.\<close>

definition QueryMetrics :: "MetricQuery \<Rightarrow> tables \<Rightarrow> MetricsResponse result" where
  "QueryMetrics q T =
    bind_result (Validate_query q) (\<lambda>_.
      let res = selectResolution (time_sub (mq_To q) (mq_From q))
      in bind_result (query_series q res (mq_Metrics q) T) (\<lambda>series.
           Inr \<lparr>mr_Scope = mq_Scope q, mr_ID = mq_ID q, mr_From = mq_From q, mr_To = mq_To q, mr_Resolution = res, mr_Series = series,
             mr_Gaps = (case series of [] \<Rightarrow> []
               | s # _ \<Rightarrow> mergeGaps (map (\<lambda>g. g\<lparr>gap_Reason := classifyGap q g T\<rparr>)
                   (findGaps (mq_From q) (mq_To q) res (ser_Points s))))\<rparr>))"

definition HostCPU :: "time \<Rightarrow> time \<Rightarrow> int \<Rightarrow> tables \<Rightarrow> Point list result" where
  "HostCPU from to limit T =
    bind_result (QueryMetrics \<lparr>mq_Scope = ''host'', mq_ID = [], mq_Metrics = [MetricCPU], mq_From = from, mq_To = to\<rparr> T) (\<lambda>r.
      case mr_Series r of
        [] \<Rightarrow> Inr []
      | s # _ \<Rightarrow> Inr (if 0 < limit \<and> limit < int (length (ser_Points s)) then take (nat limit) (ser_Points s) else ser_Points s))"

subsection \<open>Events\<close>

record HistoricalEvent =
  he_ID :: string
  he_At :: time
  he_Type :: string
  he_Severity :: string
  he_Summary :: string
  he_Details :: "string option"
  he_CorrelationKey :: "string option"
  he_ContainerInstance :: "string option"
  he_ResourceID :: "string option"
  he_Source :: string

definition opt_text :: "sqlval \<Rightarrow> string option" where
  "opt_text v = (if v = SNull then None else Some (column_text v))"

definition scan_event :: "row \<Rightarrow> HistoricalEvent" where
  "scan_event r =
    \<lparr>he_ID = column_text (r ''id''), he_At = from_milli (row_ts r), he_Type = column_text (r ''type''),
     he_Severity = column_text (r ''severity''), he_Summary = column_text (r ''summary''), he_Details = opt_text (r ''details_json''),
     he_CorrelationKey = opt_text (r ''correlation_key''), he_ContainerInstance = opt_text (r ''container_instance_id''),
     he_ResourceID = opt_text (r ''resource_id''), he_Source = column_text (r ''source'')\<rparr>"

definition events_in :: "time \<Rightarrow> time \<Rightarrow> tables \<Rightarrow> row list" where
  "events_in from to T =
    sort_key row_ts (sort_key (\<lambda>r. column_text (r ''id''))
      (filter (\<lambda>r. int_ge (r ''ts'') (unix_milli from) \<and> int_le (r ''ts'') (unix_milli to)) (T ''events'')))"

text \<open>\<open>EventsFor\<close>; \<open>Events\<close> calls it with no resource.\<close>

definition EventsFor :: "time \<Rightarrow> time \<Rightarrow> int \<Rightarrow> string \<Rightarrow> tables \<Rightarrow> HistoricalEvent list" where
  "EventsFor from to limit resource T =
    (let limit = (if limit < 1 \<or> 200 < limit then 100 else limit)
     in map scan_event (take (nat limit)
          (filter (\<lambda>r. resource \<noteq> [] \<longrightarrow> text_is (r ''resource_id'') resource) (rev (events_in from to T)))))"

definition Events :: "time \<Rightarrow> time \<Rightarrow> int \<Rightarrow> tables \<Rightarrow> HistoricalEvent list" where
  "Events from to limit T = EventsFor from to limit [] T"

definition ExportEvents :: "time \<Rightarrow> time \<Rightarrow> int \<Rightarrow> tables \<Rightarrow> HistoricalEvent list" where
  "ExportEvents from to limit T =
    (let limit = (if limit < 1 \<or> 10001 < limit then 10001 else limit)
     in map scan_event (take (nat limit) (events_in from to T)))"

end
