(* ===== verification/Metrics_Engine.thy ===== *)
theory Metrics_Engine
  imports Metrics_Types "HOL-Library.Sublist"
begin

section \<open>The metrics engine\<close>

text \<open>
  \<^verbatim>\<open>internal/metrics/engine.go\<close>. The engine holds the latest snapshot, the most recent events and
  the buffered channels of its live subscribers; its methods run under a lock, so each is one
  step. A channel is the list of messages that wait in it. Copies made so that callers do not
  share slices are not visible here. The map \<open>subscribers\<close> is never filled by any code and is
  left out. A snapshot with the zero time gets the current time \<open>now\<close>.
\<close>

datatype LiveMessage = LiveSnapshot Snapshot | LiveEvent Event

record engine =
  eng_snapshot :: Snapshot
  eng_events :: "Event list"
  eng_filesystems :: "FilesystemObservation list"
  eng_maxEvents :: nat
  eng_live :: "(nat \<times> LiveMessage list) list"
  eng_nextSub :: nat
  eng_nextMessage :: nat

definition no_host :: HostObservation where
  "no_host = \<lparr>host_At = zero_time, host_CPUPercent = None, host_CPUUserPercent = None, host_CPUSystemPercent = None,
     host_CPUIOWaitPercent = None, host_CPUStealPercent = None, host_MemoryUsedBytes = None, host_MemoryTotalBytes = None,
     host_MemoryAvailableBytes = None, host_MemoryPercent = None, host_MemoryCachedBytes = None, host_MemoryBuffersBytes = None,
     host_SwapUsedBytes = None, host_SwapTotalBytes = None, host_SwapPercent = None, host_Load1 = None, host_Load5 = None,
     host_Load15 = None, host_NetworkRXBPS = None, host_NetworkTXBPS = None, host_NetworkRXPacketsPS = None,
     host_NetworkTXPacketsPS = None, host_NetworkRXErrorsDelta = None, host_NetworkTXErrorsDelta = None,
     host_NetworkRXDropsDelta = None, host_NetworkTXDropsDelta = None, host_DiskReadBPS = None, host_DiskWriteBPS = None,
     host_DiskReadIOPS = None, host_DiskWriteIOPS = None, host_DiskUsedBytes = None, host_DiskTotalBytes = None,
     host_UptimeSeconds = None\<rparr>"

definition no_snapshot :: Snapshot where
  "no_snapshot = \<lparr>snap_Sequence = 0, snap_At = zero_time, snap_BootIdentity = [], snap_Host = no_host, snap_Resources = [],
     snap_Collectors = (\<lambda>_. None)\<rparr>"

definition NewEngine :: "int \<Rightarrow> engine" where
  "NewEngine maxEvents =
    \<lparr>eng_snapshot = no_snapshot, eng_events = [], eng_filesystems = [], eng_maxEvents = nat (if maxEvents < 1 then 128 else maxEvents),
     eng_live = [], eng_nextSub = 0, eng_nextMessage = 0\<rparr>"

definition PersistenceBatch_of :: "engine \<Rightarrow> PersistenceBatch" where
  "PersistenceBatch_of e = \<lparr>batch_Snapshot = eng_snapshot e, batch_Events = eng_events e, batch_Filesystems = eng_filesystems e\<rparr>"

text \<open>
  \<open>sendLive\<close>: a snapshot takes the place of the oldest message of the channel, whatever that
  message is; an event is refused when the channel is full.
\<close>

definition live_capacity :: nat where
  "live_capacity = 33"

fun sendLive :: "LiveMessage list \<Rightarrow> LiveMessage \<Rightarrow> LiveMessage list \<times> bool" where
  "sendLive ch (LiveSnapshot s) =
    (let ch = tl ch in (if length ch < live_capacity then ch @ [LiveSnapshot s] else ch, True))"
| "sendLive ch (LiveEvent v) =
    (if length ch < live_capacity then (ch @ [LiveEvent v], True) else (ch, False))"

fun send_events :: "LiveMessage list \<Rightarrow> Event list \<Rightarrow> LiveMessage list option" where
  "send_events ch [] = Some ch"
| "send_events ch (v # vs) =
    (case sendLive ch (LiveEvent v) of (ch', ok) \<Rightarrow> if ok then send_events ch' vs else None)"

fun number_events :: "Event list \<Rightarrow> nat \<Rightarrow> Event list \<times> nat" where
  "number_events [] n = ([], n)"
| "number_events (v # vs) n =
    (if event_ID v = 0
     then (case number_events vs (Suc n) of (ws, m) \<Rightarrow> (v\<lparr>event_ID := Suc n\<rparr> # ws, m))
     else (case number_events vs n of (ws, m) \<Rightarrow> (v # ws, m)))"

definition most_recent :: "nat \<Rightarrow> 'a list \<Rightarrow> 'a list" where
  "most_recent n xs = drop (length xs - n) xs"

text \<open>
  \<open>Publish\<close>. The identifiers are assigned to the copies that the engine keeps; the channels
  get the events as they were passed in. A subscriber whose channel is full is closed.
\<close>

definition publish_live :: "Snapshot \<Rightarrow> Event list \<Rightarrow> (nat \<times> LiveMessage list) list \<Rightarrow> (nat \<times> LiveMessage list) list" where
  "publish_live s vs subs =
    List.map_filter (\<lambda>(i, ch). map_option (\<lambda>ch'. (i, ch')) (send_events (fst (sendLive ch (LiveSnapshot s))) vs)) subs"

definition Publish :: "time \<Rightarrow> Snapshot \<Rightarrow> Event list \<Rightarrow> engine \<Rightarrow> engine" where
  "Publish now s vs e =
    (let n = Suc (eng_nextMessage e);
         s = s\<lparr>snap_Sequence := n, snap_At := if snap_At s = zero_time then now else snap_At s\<rparr>
     in case number_events vs n of (numbered, n') \<Rightarrow>
       e\<lparr>eng_snapshot := s, eng_events := most_recent (eng_maxEvents e) (eng_events e @ numbered),
         eng_live := publish_live s vs (eng_live e), eng_nextMessage := n'\<rparr>)"

definition Subscribe :: "engine \<Rightarrow> nat \<times> engine" where
  "Subscribe e =
    (let i = Suc (eng_nextSub e);
         ch = (if 0 < snap_Sequence (eng_snapshot e) then fst (sendLive [] (LiveSnapshot (eng_snapshot e))) else [])
     in (i, e\<lparr>eng_nextSub := i, eng_live := eng_live e @ [(i, ch)]\<rparr>))"

definition Close_subscription :: "nat \<Rightarrow> engine \<Rightarrow> engine" where
  "Close_subscription i e = e\<lparr>eng_live := filter (\<lambda>c. fst c \<noteq> i) (eng_live e)\<rparr>"

text \<open>A subscriber reads the oldest message of its channel.\<close>

definition receive_live :: "nat \<Rightarrow> engine \<Rightarrow> engine" where
  "receive_live i e = e\<lparr>eng_live := map (\<lambda>c. if fst c = i then (i, tl (snd c)) else c) (eng_live e)\<rparr>"

definition PublishFilesystems :: "FilesystemObservation list \<Rightarrow> engine \<Rightarrow> engine" where
  "PublishFilesystems obs e = e\<lparr>eng_filesystems := obs\<rparr>"

definition SSEClients :: "engine \<Rightarrow> nat" where
  "SSEClients e = length (eng_live e)"

definition EventsAfter :: "nat \<Rightarrow> engine \<Rightarrow> Event list" where
  "EventsAfter i e = filter (\<lambda>v. i < event_ID v) (eng_events e)"

subsection \<open>The log of events\<close>

text \<open>
  The specification of the event buffer is a log that is never cut. \<open>engine_run\<close> relates an engine
  to the log of the events published so far, each with its identifier. Collectors publish
  events without an identifier.
\<close>

inductive engine_run :: "int \<Rightarrow> engine \<Rightarrow> Event list \<Rightarrow> bool" for cap where
  new: "engine_run cap (NewEngine cap) []"
| publish: "engine_run cap e published \<Longrightarrow> list_all (\<lambda>v. event_ID v = 0) vs \<Longrightarrow>
    engine_run cap (Publish now s vs e) (published @ fst (number_events vs (Suc (eng_nextMessage e))))"
| subscribe: "engine_run cap e published \<Longrightarrow> engine_run cap (snd (Subscribe e)) published"
| closing: "engine_run cap e published \<Longrightarrow> engine_run cap (Close_subscription i e) published"
| receive: "engine_run cap e published \<Longrightarrow> engine_run cap (receive_live i e) published"
| filesystems: "engine_run cap e published \<Longrightarrow> engine_run cap (PublishFilesystems obs e) published"

lemma number_events_zero:
  "list_all (\<lambda>v. event_ID v = 0) vs \<Longrightarrow> map event_ID (fst (number_events vs n)) = [Suc n..<Suc (n + length vs)] \<and> snd (number_events vs n) = n + length vs"
proof (induction vs arbitrary: n)
  case Nil
  then show ?case by simp
next
  case (Cons v vs)
  obtain ws m where nm: "number_events vs (Suc n) = (ws, m)" by force
  have "map event_ID ws = [Suc (Suc n)..<Suc (Suc n + length vs)] \<and> m = Suc n + length vs" using Cons.IH [of "Suc n"] Cons.prems by (simp add: nm)
  then show ?case using Cons.prems by (simp add: nm upt_conv_Cons del: upt_Suc)
qed

lemma most_recent_append: "most_recent n (most_recent n xs @ ys) = most_recent n (xs @ ys)"
proof (cases "length xs \<le> n")
  case True
  then show ?thesis by (simp add: most_recent_def)
next
  case False
  then show ?thesis by (simp add: most_recent_def drop_append) (simp add: le_diff_conv add.commute)
qed

lemma most_recent_length: "length (most_recent n xs) \<le> n"
  by (simp add: most_recent_def)

lemma engine_run_inv:
  "engine_run cap e published \<Longrightarrow> eng_maxEvents e = nat (if cap < 1 then 128 else cap) \<and>
    eng_events e = most_recent (eng_maxEvents e) published \<and> sorted_wrt (<) (map event_ID published) \<and>
    (\<forall>v \<in> set published. event_ID v \<le> eng_nextMessage e) \<and> snap_Sequence (eng_snapshot e) \<le> eng_nextMessage e"
proof (induction rule: engine_run.induct)
  case new
  then show ?case by (simp add: NewEngine_def most_recent_def no_snapshot_def)
next
  case (publish e published vs now s)
  obtain ws m where nm: "number_events vs (Suc (eng_nextMessage e)) = (ws, m)" by force
  have ids: "map event_ID ws = [Suc (Suc (eng_nextMessage e))..<Suc (Suc (eng_nextMessage e) + length vs)]"
    and m: "m = Suc (eng_nextMessage e) + length vs"
    using number_events_zero [OF publish.hyps(2), of "Suc (eng_nextMessage e)"] by (simp_all add: nm)
  have new: "event_ID v \<in> {Suc (Suc (eng_nextMessage e))..Suc (eng_nextMessage e) + length vs}" if "v \<in> set ws" for v
  proof -
    have "event_ID v \<in> set (map event_ID ws)" using that by simp
    then show ?thesis unfolding ids by auto
  qed
  have "sorted_wrt (<) (map event_ID (published @ ws))"
    using publish.IH new by (fastforce simp: sorted_wrt_append ids)
  moreover have "\<forall>v \<in> set (published @ ws). event_ID v \<le> m" using publish.IH new by (fastforce simp: m)
  ultimately show ?case using publish.IH by (simp add: Publish_def Let_def nm most_recent_append m)
qed (auto simp: Subscribe_def Close_subscription_def receive_live_def PublishFilesystems_def Let_def)

lemma filter_most_recent:
  assumes "\<forall>x \<in> set a. \<not> P x" and "\<forall>x \<in> set b. P x" and "length b \<le> m"
  shows "filter P (most_recent m (a @ b)) = b"
proof -
  have "most_recent m (a @ b) = drop (length a + length b - m) a @ b"
    using assms(3) by (simp add: most_recent_def)
  moreover have "filter P (drop k a) = []" for k using assms(1) by (auto simp: filter_empty_conv dest: in_set_dropD)
  moreover have "filter P b = b" using assms(2) by (simp add: filter_id_conv)
  ultimately show ?thesis by simp
qed

lemma sorted_split:
  "sorted_wrt (<) (map event_ID xs) \<Longrightarrow>
   \<exists>a b. xs = a @ b \<and> (\<forall>x \<in> set a. \<not> i < event_ID x) \<and> (\<forall>x \<in> set b. i < event_ID x)"
proof (induction xs)
  case Nil
  then show ?case by simp
next
  case (Cons x xs)
  show ?case
  proof (cases "i < event_ID x")
    case True
    then show ?thesis using Cons.prems by (intro exI [of _ "[]"] exI [of _ "x # xs"]) auto
  next
    case False
    obtain a b where "xs = a @ b" "\<forall>x \<in> set a. \<not> i < event_ID x" "\<forall>x \<in> set b. i < event_ID x"
      using Cons by auto
    then show ?thesis using False by (intro exI [of _ "x # a"] exI [of _ b]) simp
  qed
qed

text \<open>
  C31. The event buffer implements the log. It holds the most recent events up to its size, with
  strictly increasing identifiers; and a client that resumes after identifier \<open>i\<close> gets exactly the
  events of the log after \<open>i\<close>, as long as the events it misses still fit into the buffer.
\<close>

theorem events_after_refines_log:
  assumes "engine_run cap e published" and "length (filter (\<lambda>v. i < event_ID v) published) \<le> eng_maxEvents e"
  shows "EventsAfter i e = filter (\<lambda>v. i < event_ID v) published \<and> length (eng_events e) \<le> eng_maxEvents e \<and>
    sorted_wrt (<) (map event_ID (eng_events e))"
proof -
  note inv = engine_run_inv [OF assms(1)]
  let ?m = "eng_maxEvents e"
  obtain a b where ab: "published = a @ b" "\<forall>x \<in> set a. \<not> i < event_ID x" "\<forall>x \<in> set b. i < event_ID x"
    using sorted_split [of published i] inv by blast
  have b: "filter (\<lambda>v. i < event_ID v) published = b"
    using ab(2,3) by (simp add: ab(1) filter_empty_conv filter_id_conv)
  have buf: "eng_events e = most_recent ?m (a @ b)" using inv by (simp add: ab(1))
  have "length b \<le> ?m" using assms(2) by (simp only: b)
  then have "EventsAfter i e = b" unfolding EventsAfter_def buf by (rule filter_most_recent [OF ab(2,3)])
  moreover have "sorted_wrt (<) (map event_ID (eng_events e))"
    using inv by (simp add: most_recent_def drop_map [symmetric] sorted_wrt_drop)
  ultimately show ?thesis using inv most_recent_length [of ?m published] by (simp add: b)
qed

subsection \<open>Live subscribers\<close>

lemma publish_live_mem:
  assumes "(i, ch) \<in> set subs" and "send_events (fst (sendLive ch (LiveSnapshot s))) vs = Some ch'"
  shows "(i, ch') \<in> set (publish_live s vs subs)"
  using assms by (force simp: publish_live_def List.map_filter_def)

text \<open>
  A subscriber loses an event that it has not read yet when the next snapshot is published,
  although its channel is nearly empty: the snapshot takes the place of the oldest message.
\<close>

theorem unread_event_dropped:
  assumes "(i, LiveEvent v # rest) \<in> set (eng_live e)" and "length rest < 32"
  shows "\<exists>s'. (i, rest @ [LiveSnapshot s']) \<in> set (eng_live (Publish now s [] e))"
  using publish_live_mem [OF assms(1), of _ "[]"] assms(2)
  by (auto simp: Publish_def Let_def live_capacity_def)

text \<open>
  A live event carries identifier 0 while the engine keeps it under another one. A client that
  reconnects after it announces 0 as the last event it has seen and is sent every event of the
  buffer again, this one included.
\<close>

theorem live_event_unnumbered:
  assumes "(i, ch) \<in> set (eng_live e)" and "length ch < 32" and "event_ID v = 0" and "1 \<le> eng_maxEvents e"
  shows "\<exists>ch'. (i, ch' @ [LiveEvent v]) \<in> set (eng_live (Publish now s [v] e)) \<and>
    v\<lparr>event_ID := Suc (Suc (eng_nextMessage e))\<rparr> \<in> set (EventsAfter (event_ID v) (Publish now s [v] e))"
proof -
  have live: "\<exists>ch'. (i, ch' @ [LiveEvent v]) \<in> set (publish_live s' [v] (eng_live e))" for s'
  proof -
    have "send_events (fst (sendLive ch (LiveSnapshot s'))) [v] = Some (fst (sendLive ch (LiveSnapshot s')) @ [LiveEvent v])"
      using assms(2) by (auto simp: live_capacity_def Let_def)
    from publish_live_mem [OF assms(1) this] show ?thesis by blast
  qed
  have "\<exists>s'. eng_live (Publish now s [v] e) = publish_live s' [v] (eng_live e)"
    by (auto simp: Publish_def Let_def split: prod.splits)
  then have "\<exists>ch'. (i, ch' @ [LiveEvent v]) \<in> set (eng_live (Publish now s [v] e))" using live by auto
  moreover have "v\<lparr>event_ID := Suc (Suc (eng_nextMessage e))\<rparr> \<in> set (EventsAfter (event_ID v) (Publish now s [v] e))"
    using assms(3,4) by (auto simp: Publish_def Let_def EventsAfter_def most_recent_def)
  ultimately show ?thesis by blast
qed

end
