(* ===== verification/Storage_Properties.thy ===== *)
theory Storage_Properties
  imports Storage_Rollups
begin

section \<open>Properties of retention, rollups and the writer\<close>

text \<open>
  Retention in batches is one deletion per table; a rollup row is the aggregate of the raw
  samples that are there; what happens where the two meet; and what the writer loses.
\<close>

subsection \<open>Retention\<close>

abbreviation older :: "int \<Rightarrow> row \<Rightarrow> bool" where
  "older cutoff r \<equiv> int_lt (r ''ts'') cutoff"

lemma prune_exact:
  assumes "\<not> aggressive \<or> (\<forall>n. \<not> cancelled n)"
  shows "\<exists>n'. prune aggressive cancelled n cutoff t = (del_where (older cutoff) t, n', False)"
proof -
  obtain k where k: "(if aggressive then 2000 else 500) = Suc k" by (cases aggressive) (simp_all add: eval_nat_numeral)
  have "\<forall>n. \<exists>n'. prune aggressive cancelled n cutoff t = (del_where (older cutoff) t, n', False)"
  proof (induction t rule: table_batch.batch_induct [where k = k and p = "older cutoff"])
    case (1 t)
    then show ?case by (simp add: prune.simps del_where_none)
  next
    case (2 t)
    show ?case
    proof
      fix n
      have "prune aggressive cancelled n cutoff t =
          prune aggressive cancelled (if aggressive then Suc n else n) cutoff (del_limit (Suc k) (older cutoff) t)"
        using 2(1) assms by (subst prune.simps) (simp add: k [symmetric])
      then show "\<exists>n'. prune aggressive cancelled n cutoff t = (del_where (older cutoff) t, n', False)"
        using 2(2) by (simp add: del_where_del_limit)
    qed
  qed
  then show ?thesis by blast
qed

definition retained :: "time \<Rightarrow> (string \<times> duration) list \<Rightarrow> tables \<Rightarrow> tables" where
  "retained now tiers T u =
    (case map_of tiers u of
       None \<Rightarrow> T u
     | Some d \<Rightarrow> if d \<le> 0 then T u else del_where (older (unix_milli (now - d))) (T u))"

lemma prune_tables_exact:
  assumes "\<not> aggressive \<or> (\<forall>n. \<not> cancelled n)" and "distinct (map fst tiers)"
  shows "prune_tables aggressive cancelled n now tiers T = (retained now tiers T, None)"
  using assms(2)
proof (induction tiers arbitrary: n T)
  case Nil
  then show ?case by (simp add: retained_def [abs_def])
next
  case (Cons tier tiers)
  obtain u d where ud: "tier = (u, d)" by (cases tier)
  have IH: "prune_tables aggressive cancelled n now tiers T' = (retained now tiers T', None)" for n T'
    using Cons by simp
  have fresh: "map_of tiers u = None" using Cons.prems by (simp add: ud map_of_eq_None_iff)
  obtain n' where p: "prune aggressive cancelled n (unix_milli (now - d)) (T u) = (del_where (older (unix_milli (now - d))) (T u), n', False)"
    using prune_exact [OF assms(1)] by blast
  have "retained now tiers (if d \<le> 0 then T else T(u := del_where (older (unix_milli (now - d))) (T u))) = retained now (tier # tiers) T"
    using fresh by (auto simp: retained_def fun_eq_iff ud split: option.splits)
  then show ?case by (auto simp: ud p IH)
qed

lemma distinct_cutoffs: "distinct (map fst (cutoffs r))"
  by (simp add: cutoffs_def)

text \<open>
  C28. Retention comes to an end and does exactly what the tiers say: in every table with a
  positive retention the rows older than it are gone, and no other row of any table is touched.
  The batches, their size and the pauses of an aggressive run make no difference, as long as
  the run is not cancelled.
\<close>

theorem retention_exact:
  assumes "rc_Raw r \<noteq> 0" and "\<not> aggressive \<or> (\<forall>n. \<not> cancelled n)"
  shows "applyRetention cancelled now r aggressive T =
    (\<lambda>u. case map_of (cutoffs r) u of
       None \<Rightarrow> T u
     | Some d \<Rightarrow> if d \<le> 0 then T u else del_where (\<lambda>x. int_lt (x ''ts'') (unix_milli (now - d))) (T u), None)"
  using assms prune_tables_exact [OF assms(2) distinct_cutoffs, of 0 now r T]
  by (simp add: applyRetention_def retained_def [abs_def])

subsection \<open>Rollups\<close>

lemma rollup_frame:
  "u \<notin> {''host_rollups_1m'', ''host_rollups_15m'', ''host_rollups_1h'',
         ''resource_rollups_1m'', ''resource_rollups_15m'', ''resource_rollups_1h''} \<Longrightarrow> RollupOnce now T u = T u"
  by (simp add: RollupOnce_def rollup_tiers_def rollup_tier_def Let_def)

lemma rollup_table:
  assumes "(name, d) \<in> set rollup_tiers"
  shows "RollupOnce now T (''host_rollups_'' @ name) =
      replace_groups [''ts''] (bucket_of (d div 1000000)) (host_rollup (d div 1000000))
        (closed (unix_milli (truncate_time d now)) (T ''host_samples_10s'')) (T (''host_rollups_'' @ name))"
    and "RollupOnce now T (''resource_rollups_'' @ name) =
      replace_groups [''resource_id'', ''ts''] (resource_group (d div 1000000)) (resource_rollup (d div 1000000))
        (closed (unix_milli (truncate_time d now)) (T ''resource_samples_10s'')) (T (''resource_rollups_'' @ name))"
  using assms by (auto simp: RollupOnce_def rollup_tiers_def rollup_tier_def Let_def)

lemma tier_width: "(name, d) \<in> set rollup_tiers \<Longrightarrow> 0 < d div 1000000"
  by (auto simp: rollup_tiers_def minutes_def hours_def)

text \<open>The columns of a metric in a rollup row.\<close>

lemma metric_names: "map fst (metric_columns rows m) = (case m of (prefix, count, e) \<Rightarrow> [prefix @ ''_avg'', prefix @ ''_min'', prefix @ ''_max'', count])"
  by (cases m) (simp add: metric_columns_def Let_def)

lemma rollup_column:
  assumes "distinct (map fst keys @ concat (map (\<lambda>(prefix, count, e). [prefix @ ''_avg'', prefix @ ''_min'', prefix @ ''_max'', count]) metrics))"
    and "m \<in> set metrics" and "(c, v) \<in> set (metric_columns rows m)"
  shows "rollup_row keys metrics rows c = v"
proof -
  let ?cs = "keys @ concat (map (metric_columns rows) metrics)"
  have "map fst ?cs = map fst keys @ concat (map (\<lambda>(prefix, count, e). [prefix @ ''_avg'', prefix @ ''_min'', prefix @ ''_max'', count]) metrics)"
    by (simp add: map_concat comp_def metric_names)
  then have d: "distinct (map fst ?cs)" using assms(1) by (simp only:)
  have "(c, v) \<in> set ?cs" using assms(2,3) by auto
  from map_of_is_SomeI [OF d this] show ?thesis by (simp only: rollup_row_def row_of_def option.case)
qed

lemma host_columns_distinct:
  "distinct (map fst [(''ts'', v)] @ concat (map (\<lambda>(prefix, count, e). [prefix @ ''_avg'', prefix @ ''_min'', prefix @ ''_max'', count]) host_rollup_metrics))"
  by (simp add: host_rollup_metrics_def)




subsection \<open>Where retention and rollups meet\<close>

definition int_ts :: "row list \<Rightarrow> bool" where
  "int_ts rows = list_all (\<lambda>r. \<exists>i. r ''ts'' = SInt i) rows"

lemma bucket_end:
  assumes "0 < w" and "bucket_of w r = q" and "r ''ts'' = SInt i"
  shows "i < (q + 1) * w"
proof -
  have q: "q = trunc_div i w" using assms(2,3) by (simp add: bucket_of_def)
  show ?thesis
  proof (cases "0 \<le> i")
    case True
    then have "q = i div w" by (simp add: q trunc_div_def)
    then show ?thesis using assms(1) by (metis div_mult_mod_eq pos_mod_bound add_strict_left_mono distrib_right mult_1)
  next
    case False
    have "w * ((- i) div w) \<le> - i" using assms(1) by (metis minus_mod_eq_mult_div pos_mod_sign diff_ge_0_iff_ge diff_le_eq le_add_same_cancel1)
    then have "i \<le> q * w" using False by (simp add: q trunc_div_def mult.commute)
    then show ?thesis using assms(1) by (simp add: distrib_right)
  qed
qed

text \<open>A closed bucket takes all its samples into the rollup.\<close>

lemma closed_bucket:
  assumes "0 < w" and "int_ts rows" and "(q + 1) * w \<le> cutoff"
  shows "filter (\<lambda>r. bucket_of w r = q) (closed cutoff rows) = filter (\<lambda>r. bucket_of w r = q) rows"
proof -
  have "int_lt (r ''ts'') cutoff" if r: "r \<in> set rows" "bucket_of w r = q" for r
  proof -
    obtain i where i: "r ''ts'' = SInt i" using assms(2) r(1) by (auto simp: int_ts_def list_all_iff)
    show ?thesis using bucket_end [OF assms(1) r(2) i] assms(3) by (simp add: i)
  qed
  then show ?thesis by (auto simp: closed_def intro: filter_cong)
qed

lemma truncate_mono: "0 < d \<Longrightarrow> t \<le> u \<Longrightarrow> truncate_time d t \<le> truncate_time d u"
proof -
  assume d: "0 < d" and tu: "t \<le> u"
  have eq: "truncate_time d x = zero_time + d * ((x - zero_time) div d)" for x
    by (simp add: truncate_time_def minus_mod_eq_mult_div [symmetric])
  show ?thesis unfolding eq using d tu by (simp add: zdiv_mono1)
qed

lemma measured_split:
  "length (measured e (filter p rows)) \<le> length (measured e rows)"
  by (induction rows) (auto simp: measured_def List.map_filter_def)

lemma measured_drop:
  "y \<in> set rows \<Longrightarrow> \<not> p y \<Longrightarrow> e y \<noteq> None \<Longrightarrow> length (measured e (filter p rows)) < length (measured e rows)"
proof (induction rows)
  case Nil
  then show ?case by simp
next
  case (Cons r rows)
  show ?case
  proof (cases "y = r")
    case True
    then show ?thesis using Cons.prems measured_split [of e p rows] by (auto simp: measured_def List.map_filter_def)
  next
    case False
    then show ?thesis using Cons by (auto simp: measured_def List.map_filter_def)
  qed
qed

text \<open>
  C30. Retention spoils rollups. A rollup writes the complete aggregate of a closed bucket. When
  retention later removes only the older part of the raw samples of the bucket, the next rollup
  replaces the complete row by the aggregate of the samples that are left, with a smaller
  count. The longer tiers, which are to outlive the raw samples, end up with these remainders.
\<close>

theorem retention_spoils_rollup:
  assumes "T1 = RollupOnce now T" and "T2 = fst (applyRetention cancelled pruned r False T1)" and "T3 = RollupOnce later T2"
    and "(name, d) \<in> set rollup_tiers" and "now \<le> later" and "0 < rc_Raw r"
    and "(q + 1) * (d div 1000000) \<le> unix_milli (truncate_time d now)"
    and "int_ts (T ''host_samples_10s'')"
    and "x \<in> set (T ''host_samples_10s'')" and "bucket_of (d div 1000000) x = q" and "\<not> int_lt (x ''ts'') (unix_milli (pruned - rc_Raw r))"
    and "y \<in> set (T ''host_samples_10s'')" and "bucket_of (d div 1000000) y = q" and "int_lt (y ''ts'') (unix_milli (pruned - rc_Raw r))"
    and "num (y ''cpu_busy_pct'') \<noteq> None"
  shows "\<exists>row1 row3 n1 n3. host_bucket (d div 1000000) q (T1 (''host_rollups_'' @ name)) = [row1] \<and> row1 ''sample_count'' = SInt n1 \<and>
    host_bucket (d div 1000000) q (T3 (''host_rollups_'' @ name)) = [row3] \<and> row3 ''sample_count'' = SInt n3 \<and> n3 < n1"
proof -
  let ?w = "d div 1000000" and ?raw = "T ''host_samples_10s''" and ?old = "older (unix_milli (pruned - rc_Raw r))"
  let ?cpu = "\<lambda>r. num (r ''cpu_busy_pct'')" and ?G = "filter (\<lambda>r. bucket_of (d div 1000000) r = q) (T ''host_samples_10s'')"
  have w: "0 < ?w" by (rule tier_width [OF assms(4)])
  have d: "0 < d" using assms(4) by (auto simp: rollup_tiers_def minutes_def hours_def)
  have raw2: "T2 ''host_samples_10s'' = del_where ?old ?raw"
    using assms(6) prune_tables_exact [OF _ distinct_cutoffs, of False cancelled 0 pruned r T1]
    by (simp add: assms(2) applyRetention_def retained_def cutoffs_def assms(1) rollup_frame)
  have G3: "filter (\<lambda>r. bucket_of ?w r = q) (del_where ?old ?raw) = filter (\<lambda>r. \<not> ?old r) ?G"
    by (simp add: del_where_def conj_commute)
  have later: "(q + 1) * ?w \<le> unix_milli (truncate_time d later)"
    using assms(7) unix_milli_mono [OF truncate_mono [OF d assms(5)]] by linarith
  have ts2: "int_ts (del_where ?old ?raw)" using assms(8) by (auto simp: int_ts_def list_all_iff)
  have row: "host_bucket ?w q (RollupOnce t S (''host_rollups_'' @ name)) = [host_rollup ?w q H] \<and>
      host_rollup ?w q H ''sample_count'' = SInt (int (length (measured ?cpu H)))"
    if "int_ts (S ''host_samples_10s'')" "(q + 1) * ?w \<le> unix_milli (truncate_time d t)"
      "H = filter (\<lambda>r. bucket_of ?w r = q) (S ''host_samples_10s'')" "H \<noteq> []" for t S H
  proof -
    have "host_rollup ?w q H ''sample_count'' = SInt (int (length (measured ?cpu H)))"
      unfolding host_rollup_def
      by (rule rollup_column [OF host_columns_distinct, of "(''cpu'', ''sample_count'', ?cpu)"])
        (simp_all add: host_rollup_metrics_def metric_columns_def Let_def)
    moreover have "host_bucket ?w q (RollupOnce t S (''host_rollups_'' @ name)) = [host_rollup ?w q H]"
      unfolding rollup_table(1) [OF assms(4)] host_bucket_rollup [OF w] closed_bucket [OF w that(1,2)] Let_def that(3) [symmetric]
      using that(4) by simp
    ultimately show ?thesis by simp
  qed
  have x: "x \<in> set (filter (\<lambda>r. \<not> ?old r) ?G)" "?G \<noteq> []" using assms(9-12) by (auto simp: filter_empty_conv)
  then have "filter (\<lambda>r. \<not> ?old r) ?G \<noteq> []" by (metis list.set(1) empty_iff)
  then have "host_bucket ?w q (T3 (''host_rollups_'' @ name)) = [host_rollup ?w q (filter (\<lambda>r. \<not> ?old r) ?G)] \<and>
      host_rollup ?w q (filter (\<lambda>r. \<not> ?old r) ?G) ''sample_count'' = SInt (int (length (measured ?cpu (filter (\<lambda>r. \<not> ?old r) ?G))))"
    unfolding assms(3) by (intro row [OF _ later]) (simp_all add: raw2 ts2 G3)
  moreover have "host_bucket ?w q (T1 (''host_rollups_'' @ name)) = [host_rollup ?w q ?G] \<and>
      host_rollup ?w q ?G ''sample_count'' = SInt (int (length (measured ?cpu ?G)))"
    unfolding assms(1) by (rule row [where S = T, OF assms(8,7) refl x(2)])
  moreover have "length (measured ?cpu (filter (\<lambda>r. \<not> ?old r) ?G)) < length (measured ?cpu ?G)"
    by (rule measured_drop [of y]) (use assms(12-15) in auto)
  ultimately show ?thesis by (metis of_nat_less_iff)
qed

subsection \<open>What the writer loses\<close>

lemma WriteEvent_other: "u \<noteq> ''events'' \<Longrightarrow> WriteEvent e T u = T u"
  by (simp add: WriteEvent_def)

lemma fold_frame: "(\<And>x S. f x S u = S u) \<Longrightarrow> fold f xs S u = S u"
  by (induction xs arbitrary: S) simp_all

lemma fold_result_frame:
  assumes "fold_result f xs S = Inr S'" and "\<And>x S S'. f x S = Inr S' \<Longrightarrow> S' u = S u"
  shows "S' u = S u"
proof (rule fold_result_inv [OF assms(1), where P = "\<lambda>X. X u = S u"])
  show "X' u = S u" if "X u = S u" "f x X = Inr X'" for x X X'
    using assms(2) [OF that(2)] that(1) by (rule trans)
qed (rule refl)

lemma write_resource_frame:
  assumes "write_resource t r S = Inr S'"
    and "u \<notin> {''resource_samples_10s'', ''container_instances'', ''container_instance_samples_10s''}"
  shows "S' u = S u"
proof -
  have comp: "S' u = S u" if "write_component t res k S = Inr S'" for t res k S S'
    using that assms(2) by (auto simp: write_component_def Let_def split: if_splits)
  have "S' u = (S(''resource_samples_10s'' := insert_replace [''resource_id'', ''ts''] (resource_sample t r) (S ''resource_samples_10s''))) u"
    by (rule fold_result_frame [OF assms(1) [unfolded write_resource_def]]) (erule comp)
  then show ?thesis using assms(2) by simp
qed

lemma write_samples_frame:
  assumes "write_samples s T = Inr T'"
    and "u \<notin> {''host_samples_10s'', ''resource_samples_10s'', ''container_instances'', ''container_instance_samples_10s''}"
  shows "T' u = T u"
proof -
  have res: "S' u = S u" if "write_resource t r S = Inr S'" for t r S S'
    by (rule write_resource_frame [OF that]) (use assms(2) in simp)
  show ?thesis
  proof (cases "0 < snap_Sequence s")
    case True
    then have run: "fold_result (write_resource (snap_At s)) (snap_Resources s)
       (T(''host_samples_10s'' := insert_replace [''host_id'', ''ts''] (host_sample s) (T ''host_samples_10s''))) = Inr T'"
      using assms(1) unfolding write_samples_def by simp
    have "T' u = (T(''host_samples_10s'' := insert_replace [''host_id'', ''ts''] (host_sample s) (T ''host_samples_10s''))) u"
      by (rule fold_result_frame [OF run]) (erule res)
    then show ?thesis using assms(2) by simp
  next
    case False
    then show ?thesis using assms(1) by (simp add: write_samples_def)
  qed
qed

lemma collector_events_frame:
  "u \<noteq> ''collector_state_events'' \<Longrightarrow> fst (writeCollectorStateEvents t names collectors (T, prev)) u = T u"
  unfolding writeCollectorStateEvents_def
proof (induction names arbitrary: T prev)
  case Nil
  then show ?case by simp
next
  case (Cons n ns)
  obtain T' prev' where w: "write_collector t collectors n (T, prev) = (T', prev')" by force
  have "T' u = T u"
    using w Cons.prems by (auto simp: write_collector_def Let_def split: option.splits if_splits)
  then show ?case using Cons.IH [OF Cons.prems, of T' prev'] w by simp
qed

text \<open>A collector whose current state is remembered causes no event.\<close>

definition settled :: "(string \<Rightarrow> CollectorHealth option) \<Rightarrow> (string \<Rightarrow> string) \<Rightarrow> string \<Rightarrow> bool" where
  "settled collectors prev name =
    (case collectors name of None \<Rightarrow> True
     | Some health \<Rightarrow> (if prev name = [] then ''unknown'' else prev name) = collector_text (coll_State health))"

lemma settled_write: "settled collectors prev name \<Longrightarrow> write_collector t collectors name (T, prev) = (T, prev)"
  by (cases "collectors name") (auto simp: settled_def write_collector_def Let_def split: if_splits)

lemma settled_writes:
  "\<forall>name \<in> set names. settled collectors prev name \<Longrightarrow> writeCollectorStateEvents t names collectors (T, prev) = (T, prev)"
  unfolding writeCollectorStateEvents_def by (induction names) (simp_all add: settled_write)

lemma valid_state_text: "CollectorState_Valid st \<Longrightarrow> collector_text st \<noteq> []"
  by (cases st) (simp_all add: CollectorState_Valid_def)

lemma write_settles:
  assumes "\<And>name health. collectors name = Some health \<Longrightarrow> CollectorState_Valid (coll_State health)"
    and "writeCollectorStateEvents t names collectors (T, prev) = (T', prev')"
  shows "\<forall>name \<in> set names. settled collectors prev' name"
  using assms(2)
proof (induction names arbitrary: T' prev' rule: rev_induct)
  case Nil
  then show ?case by simp
next
  case (snoc name names)
  obtain T1 prev1 where one: "writeCollectorStateEvents t names collectors (T, prev) = (T1, prev1)" by force
  have IH: "\<forall>n \<in> set names. settled collectors prev1 n" by (rule snoc.IH [OF one])
  have last: "write_collector t collectors name (T1, prev1) = (T', prev')"
    using snoc.prems one by (simp add: writeCollectorStateEvents_def)
  show ?case
  proof (cases "settled collectors prev1 name")
    case True
    then show ?thesis using IH last settled_write [OF True] by auto
  next
    case False
    then obtain h where h: "collectors name = Some h" by (auto simp: settled_def split: option.splits)
    have prev': "prev' = prev1(name := collector_text (coll_State h))"
      using last h False by (auto simp: write_collector_def settled_def Let_def split: if_splits)
    have "settled collectors prev' name"
      using h valid_state_text [OF assms(1) [OF h]] by (simp add: settled_def prev')
    moreover have "settled collectors prev' n" if "n \<in> set names" "n \<noteq> name" for n
    proof -
      have "settled collectors prev1 n" using IH that(1) by blast
      moreover have "prev' n = prev1 n" using that(2) by (simp add: prev')
      ultimately show ?thesis by (simp only: settled_def)
    qed
    ultimately show ?thesis by auto
  qed
qed

text \<open>
  A failed commit loses collector transitions. \<open>WriteBatch\<close> remembers the new state of a
  collector while its transaction is still open. When the commit fails and the same batch is
  written again, as \<open>Retry\<close> does, the second attempt finds the state already remembered: it
  succeeds, and \<^verbatim>\<open>collector_state_events\<close> is as it was before the first attempt.
\<close>

theorem collector_transition_lost:
  assumes "WriteBatch (Some e) names b m = (m1, Some e)" and "WriteBatch None names b m1 = (m2, None)"
    and "\<And>name health. snap_Collectors (batch_Snapshot b) name = Some health \<Longrightarrow> CollectorState_Valid (coll_State health)"
  shows "mg_tables m1 = mg_tables m \<and> mg_tables m2 ''collector_state_events'' = mg_tables m ''collector_state_events''"
proof -
  let ?s = "batch_Snapshot b"
  have same: "mg_tables m1 = mg_tables m" using assms(1) by (auto simp: WriteBatch_def Let_def split: sum.splits prod.splits)
  obtain T where T: "write_samples ?s (mg_tables m) = Inr T"
    using assms(2) by (auto simp: WriteBatch_def same split: sum.splits)
  let ?T = "fold WriteEvent (batch_Events b) (fold write_filesystem (batch_Filesystems b) T)"
  obtain T1 prev where w: "writeCollectorStateEvents (snap_At ?s) names (snap_Collectors ?s) (?T, mg_prevCollectors m) = (T1, prev)"
    by force
  have m1: "mg_prevCollectors m1 = prev" using assms(1) T w by (auto simp: WriteBatch_def Let_def)
  have "\<forall>name \<in> set names. settled (snap_Collectors ?s) prev name"
    by (rule write_settles [OF assms(3) w])
  then have "writeCollectorStateEvents (snap_At ?s) names (snap_Collectors ?s) (?T, mg_prevCollectors m1) = (?T, prev)"
    unfolding m1 by (rule settled_writes)
  then have m2: "mg_tables m2 = ?T" using assms(2) T same by (auto simp: WriteBatch_def Let_def m1)
  have "fold WriteEvent (batch_Events b) S ''collector_state_events'' = S ''collector_state_events''" for S
    by (rule fold_frame) (simp add: WriteEvent_def)
  moreover have "fold write_filesystem (batch_Filesystems b) S ''collector_state_events'' = S ''collector_state_events''" for S
    by (rule fold_frame) (simp add: write_filesystem_def)
  ultimately show ?thesis using same write_samples_frame [OF T, of "''collector_state_events''"] m2 by simp
qed

lemma show_nat_zero: "show_nat 0 = ''0''"
  by code_simp

lemma event_zero_kept:
  "list_ex (\<lambda>r. r ''id'' = SText ''0'') (T ''events'') \<Longrightarrow> WriteEvent (budget_event paused now) T = T"
  by (auto simp: WriteEvent_def insert_or_ignore_def insert_ignore_def list_ex_iff same_key_def event_columns_def row_of_def
      budget_event_def show_nat_zero)

lemma event_zero_written:
  "list_ex (\<lambda>r. r ''id'' = SText ''0'') (WriteEvent (budget_event paused now) T ''events'')"
  by (auto simp: WriteEvent_def insert_or_ignore_def insert_ignore_def list_ex_iff same_key_def event_columns_def row_of_def
      budget_event_def show_nat_zero)

text \<open>
  Only the first change of the emergency pause is recorded. Its event is written without an
  identifier, that is with identifier 0, and \<^verbatim>\<open>INSERT OR IGNORE\<close> drops every later one as long
  as the first is stored: the history shows that writing was paused and not that it resumed.
\<close>

theorem pause_event_lost:
  assumes "m1 = evaluateBudgetAndRetention used1 cancelled1 now1 False m" and "mg_emergencyPause m1 \<noteq> mg_emergencyPause m"
    and "m2 = evaluateBudgetAndRetention used2 cancelled2 now2 False m1"
  shows "mg_tables m2 = mg_tables m1 \<and>
    mg_emergencyPause m2 = (0 < bud_TargetBytes (mg_budget m) \<and> 98 * bud_TargetBytes (mg_budget m) \<le> 100 * used2)"
proof -
  have target: "bud_TargetBytes (mg_budget m1) = bud_TargetBytes (mg_budget m)"
    by (simp add: assms(1) evaluateBudgetAndRetention_def Let_def)
  have "list_ex (\<lambda>r. r ''id'' = SText ''0'') (mg_tables m1 ''events'')"
    using assms(1,2) event_zero_written by (auto simp: evaluateBudgetAndRetention_def Let_def)
  then have "mg_tables m2 = mg_tables m1"
    by (simp add: assms(3) evaluateBudgetAndRetention_def Let_def event_zero_kept)
  moreover have "(EvaluateBudget used2 t (80/100) (95/100) (98/100) = BudgetEmergency) = (0 < t \<and> 98 * t \<le> 100 * used2)" for t
  proof (cases "0 < t")
    case True
    have "((98::rat) / 100 \<le> of_int used2 / of_int t) = (98 * of_int t \<le> (100 * of_int used2 :: rat))"
      using True by (simp add: field_simps)
    also have "\<dots> = (of_int (98 * t) \<le> (of_int (100 * used2) :: rat))" by simp
    also have "\<dots> = (98 * t \<le> 100 * used2)" by (rule of_int_le_iff)
    finally show ?thesis using True by (simp add: EvaluateBudget_def Let_def)
  qed (simp add: EvaluateBudget_def)
  then have "mg_emergencyPause m2 = (0 < bud_TargetBytes (mg_budget m) \<and> 98 * bud_TargetBytes (mg_budget m) \<le> 100 * used2)"
    by (simp add: assms(3) evaluateBudgetAndRetention_def Let_def target)
  ultimately show ?thesis by simp
qed

end
