(* ===== verification/Storage_Persistence.thy ===== *)
theory Storage_Persistence
  imports Metrics_Engine Storage_Properties
begin

section \<open>The persistence queue\<close>

text \<open>
  \<^verbatim>\<open>internal/storage/persistence.go\<close>. One goroutine offers the current batch of the engine at every
  tick, another writes batches to the database; between them is a channel of \<open>QueueLimit\<close>
  batches. The channel operations of \<open>enqueue\<close> are separate steps, and the writer may take a
  batch between any two of them. The components \<open>offered\<close> and \<open>written\<close> record what was offered
  and what the writer has taken, for the properties only.
\<close>

datatype producer = Resting | Sending PersistenceBatch | Evicting PersistenceBatch | Resending PersistenceBatch

record persistence =
  pq_queue :: "PersistenceBatch list"
  pq_limit :: nat
  pq_dropped :: nat
  pq_depth :: nat
  pq_paused :: bool
  pq_producer :: producer
  offered :: "PersistenceBatch list"
  written :: "PersistenceBatch list"

definition Start_persistence :: "int \<Rightarrow> persistence" where
  "Start_persistence limit =
    \<lparr>pq_queue = [], pq_limit = nat (if limit < 1 then 60 else limit), pq_dropped = 0, pq_depth = 0, pq_paused = False,
     pq_producer = Resting, offered = [], written = []\<rparr>"

definition enqueue :: "engine \<Rightarrow> bool \<Rightarrow> persistence \<Rightarrow> persistence" where
  "enqueue e emergency p =
    (let batch = PersistenceBatch_of e
     in if snap_Sequence (batch_Snapshot batch) = 0 then p
        else if emergency then p\<lparr>pq_paused := True, pq_dropped := Suc (pq_dropped p)\<rparr>
        else p\<lparr>pq_paused := False, pq_producer := Sending batch, offered := offered p @ [batch]\<rparr>)"

fun enqueue_step :: "producer \<Rightarrow> persistence \<Rightarrow> persistence" where
  "enqueue_step Resting p = p"
| "enqueue_step (Sending b) p =
    (if length (pq_queue p) < pq_limit p
     then p\<lparr>pq_queue := pq_queue p @ [b], pq_depth := Suc (length (pq_queue p)), pq_producer := Resting\<rparr>
     else p\<lparr>pq_producer := Evicting b\<rparr>)"
| "enqueue_step (Evicting b) p =
    (case pq_queue p of
       [] \<Rightarrow> p\<lparr>pq_depth := 0, pq_producer := Resending b\<rparr>
     | _ # q \<Rightarrow> p\<lparr>pq_queue := q, pq_dropped := Suc (pq_dropped p), pq_depth := length q, pq_producer := Resending b\<rparr>)"
| "enqueue_step (Resending b) p =
    (if length (pq_queue p) < pq_limit p
     then p\<lparr>pq_queue := pq_queue p @ [b], pq_depth := Suc (length (pq_queue p)), pq_producer := Resting\<rparr>
     else p\<lparr>pq_dropped := Suc (pq_dropped p), pq_producer := Resting\<rparr>)"

inductive persist_step :: "persistence \<Rightarrow> persistence \<Rightarrow> bool" where
  tick: "pq_producer p = Resting \<Longrightarrow> persist_step p (enqueue e emergency p)"
| produce: "persist_step p (enqueue_step (pq_producer p) p)"
| consume: "pq_queue p = b # q \<Longrightarrow> persist_step p (p\<lparr>pq_queue := q, pq_depth := length q, written := written p @ [b]\<rparr>)"

inductive persist_reachable :: "int \<Rightarrow> persistence \<Rightarrow> bool" for limit where
  start: "persist_reachable limit (Start_persistence limit)"
| step: "persist_reachable limit p \<Longrightarrow> persist_step p p' \<Longrightarrow> persist_reachable limit p'"

definition persist_inv :: "persistence \<Rightarrow> bool" where
  "persist_inv p =
    (1 \<le> pq_limit p \<and> length (pq_queue p) \<le> pq_limit p \<and>
     (case pq_producer p of
        Resting \<Rightarrow> subseq (written p @ pq_queue p) (offered p) \<and>
          (offered p \<noteq> [] \<longrightarrow> written p @ pq_queue p \<noteq> [] \<and> last (written p @ pq_queue p) = last (offered p))
      | Sending b \<Rightarrow> (\<exists>old. offered p = old @ [b] \<and> subseq (written p @ pq_queue p) old)
      | Evicting b \<Rightarrow> (\<exists>old. offered p = old @ [b] \<and> subseq (written p @ pq_queue p) old)
      | Resending b \<Rightarrow> length (pq_queue p) < pq_limit p \<and> (\<exists>old. offered p = old @ [b] \<and> subseq (written p @ pq_queue p) old)))"

lemma subseq_drop_mid: "subseq (xs @ y # ys) zs \<Longrightarrow> subseq (xs @ ys) zs"
  by (rule subseq_order.trans [of _ "xs @ y # ys"]) (auto intro: list_emb_append_mono)

lemma subseq_snoc: "subseq xs ys \<Longrightarrow> subseq (xs @ [b]) (ys @ [b])"
  by (rule list_emb_append_mono) simp_all

lemma persist_step_inv:
  assumes "persist_step p p'" and inv: "persist_inv p"
  shows "persist_inv p'"
  using assms(1)
proof (cases rule: persist_step.cases)
  case (tick e emergency)
  then show ?thesis using inv by (auto simp: persist_inv_def enqueue_def Let_def)
next
  case produce
  show ?thesis
  proof (cases "pq_producer p")
    case Resting
    then show ?thesis using inv produce by simp
  next
    case (Sending b)
    then obtain old where "offered p = old @ [b]" "subseq (written p @ pq_queue p) old" using inv by (auto simp: persist_inv_def)
    then show ?thesis using inv produce Sending subseq_snoc by (auto simp: persist_inv_def simp flip: append_assoc)
  next
    case (Evicting b)
    then obtain old where "offered p = old @ [b]" "subseq (written p @ pq_queue p) old" using inv by (auto simp: persist_inv_def)
    then show ?thesis using inv produce Evicting subseq_drop_mid by (auto simp: persist_inv_def split: list.splits)
  next
    case (Resending b)
    then obtain old where "offered p = old @ [b]" "subseq (written p @ pq_queue p) old" using inv by (auto simp: persist_inv_def)
    then show ?thesis using inv produce Resending subseq_snoc by (auto simp: persist_inv_def simp flip: append_assoc)
  qed
next
  case (consume b q)
  then show ?thesis using inv by (auto simp: persist_inv_def split: producer.splits)
qed

lemma persist_reachable_inv: "persist_reachable limit p \<Longrightarrow> persist_inv p"
proof (induction rule: persist_reachable.induct)
  case start
  then show ?case by (auto simp: persist_inv_def Start_persistence_def)
next
  case (step p p')
  then show ?case by (simp add: persist_step_inv)
qed

text \<open>
  C32. However the two goroutines interleave, the queue stays within its limit, batches reach the
  database in the order in which they were offered, and a batch that was offered is not the
  one that is dropped: whenever \<open>enqueue\<close> has returned, the batch offered last is the last one in
  the queue or has been taken by the writer.
\<close>

theorem newest_batch_kept:
  assumes "persist_reachable limit p"
  shows "length (pq_queue p) \<le> pq_limit p \<and> subseq (written p @ pq_queue p) (offered p) \<and>
    (pq_producer p = Resting \<and> offered p \<noteq> [] \<longrightarrow>
      written p @ pq_queue p \<noteq> [] \<and> last (written p @ pq_queue p) = last (offered p))"
  using persist_reachable_inv [OF assms]
  by (cases "pq_producer p") (auto simp: persist_inv_def intro: subseq_order.dual_order.trans)

subsection \<open>Events after a restart\<close>




end
