(* ===== verification/History_Properties.thy ===== *)
theory History_Properties
  imports Storage_History Storage_Persistence
begin

section \<open>What a query returns\<close>

subsection \<open>Gaps\<close>

text \<open>
  The points of a series are spaced when each is at least one step of the resolution after the
  one before. A point with a value speaks for the step that it starts.
\<close>

definition spaced :: "duration \<Rightarrow> Point list \<Rightarrow> bool" where
  "spaced step = sorted_wrt (\<lambda>p q. pt_At p + step \<le> pt_At q)"


definition measured_at :: "duration \<Rightarrow> time \<Rightarrow> Point list \<Rightarrow> bool" where
  "measured_at step t = list_ex (\<lambda>p. pt_Avg p \<noteq> None \<and> pt_At p \<le> t \<and> t < pt_At p + step)"


lemma measured_at_simps [simp]:
  "measured_at step t [] = False"
  "measured_at step t (p # ps) = (pt_Avg p \<noteq> None \<and> pt_At p \<le> t \<and> t < pt_At p + step \<or> measured_at step t ps)"
  by (simp_all add: measured_at_def)

lemma spaced_simps [simp]:
  "spaced step []" "spaced step (p # ps) = ((\<forall>q \<in> set ps. pt_At p + step \<le> pt_At q) \<and> spaced step ps)"
  by (simp_all add: spaced_def)













subsection \<open>The size of a response\<close>





lemma query_series_points:
  "query_series q res ms T = Inr ss \<Longrightarrow> s \<in> set ss \<Longrightarrow> ser_Metric s \<in> set ms \<and> metricPoints q (ser_Metric s) res T = Inr (ser_Points s)"
  by (induction ms arbitrary: ss) (auto simp: bind_result_def split: sum.splits)

lemma QueryMetrics_series:
  assumes "QueryMetrics q T = Inr r" and "s \<in> set (mr_Series r)"
  shows "ser_Metric s \<in> set (mq_Metrics q)" and "metricPoints q (ser_Metric s) (mr_Resolution r) T = Inr (ser_Points s)"
    and "Validate_query q = Inr ()" and "mr_Resolution r = selectResolution (time_sub (mq_To q) (mq_From q))"
  using assms by (auto simp: QueryMetrics_def Let_def bind_result_def split: sum.splits dest: query_series_points)




subsection \<open>Writing and reading back\<close>

fun host_value :: "Metric \<Rightarrow> HostObservation \<Rightarrow> float64 option" where
  "host_value MetricCPU h = host_CPUPercent h"
| "host_value MetricCPUUser h = host_CPUUserPercent h"
| "host_value MetricCPUSystem h = host_CPUSystemPercent h"
| "host_value MetricCPUIOWait h = host_CPUIOWaitPercent h"
| "host_value MetricCPUSteal h = host_CPUStealPercent h"
| "host_value MetricMemory h = map_option of_int (host_MemoryUsedBytes h)"
| "host_value MetricSwap h = map_option of_int (host_SwapUsedBytes h)"
| "host_value MetricLoad1 h = host_Load1 h"
| "host_value MetricLoad5 h = host_Load5 h"
| "host_value MetricLoad15 h = host_Load15 h"
| "host_value MetricNetworkRX h = host_NetworkRXBPS h"
| "host_value MetricNetworkTX h = host_NetworkTXBPS h"
| "host_value MetricDiskRead h = host_DiskReadBPS h"
| "host_value MetricDiskWrite h = host_DiskWriteBPS h"
| "host_value MetricDiskIOPS h =
    (case (host_DiskReadIOPS h, host_DiskWriteIOPS h) of (Some x, Some y) \<Rightarrow> Some (x + y) | _ \<Rightarrow> None)"
| "host_value _ h = None"

lemma num_opt [simp]: "num (opt_real v) = v" "num (opt_int w) = map_option of_int w"
  by (cases v; simp add: opt_real_def) (cases w; simp add: opt_int_def)

lemma host_columns:
  "list_all (\<lambda>m. \<exists>c. map_of raw_columns m = Some c \<and> select_column c (host_sample s) = host_value m (snap_Host s)) hostMetrics"
  by (simp add: hostMetrics_def raw_columns_def select_column_def host_sample_def row_of_def Let_def plus_columns_def)

lemma host_column:
  assumes "metricAllowed ''host'' m" and "metricSource ''host'' m ResolutionRaw = Inr (a, c, b, n, table)"
  shows "table = ''host_samples_10s'' \<and> select_column c (host_sample s) = host_value m (snap_Host s)"
proof -
  have "m \<in> set hostMetrics" using assms(1) by (simp add: metricAllowed_def)
  then obtain c' where "map_of raw_columns m = Some c'" "select_column c' (host_sample s) = host_value m (snap_Host s)"
    using host_columns [of s] unfolding list_all_iff by blast
  then show ?thesis using assms(2) by (auto simp: metricSource_def Let_def)
qed

lemma host_row_written:
  assumes "WriteBatch None names b m = (m', None)" and "0 < snap_Sequence (batch_Snapshot b)"
  shows "host_sample (batch_Snapshot b) \<in> set (mg_tables m' ''host_samples_10s'')"
proof -
  let ?s = "batch_Snapshot b" and ?u = "''host_samples_10s''"
  let ?T = "(mg_tables m)(?u := insert_replace [''host_id'', ''ts''] (host_sample ?s) (mg_tables m ?u))"
  obtain T where T: "write_samples ?s (mg_tables m) = Inr T" using assms(1) by (auto simp: WriteBatch_def split: sum.splits)
  then have run: "fold_result (write_resource (snap_At ?s)) (snap_Resources ?s) ?T = Inr T" using assms(2) by (simp add: write_samples_def)
  have "T ?u = ?T ?u" by (rule fold_result_frame [OF run]) (erule write_resource_frame, simp)
  moreover have "fold WriteEvent vs X ?u = X ?u" for vs X by (rule fold_frame) (simp add: WriteEvent_def)
  moreover have "fold write_filesystem fs X ?u = X ?u" for fs X by (rule fold_frame) (simp add: write_filesystem_def)
  moreover have "fst (writeCollectorStateEvents t ns cs (X, prev)) ?u = X ?u" for t ns cs X prev
    by (rule collector_events_frame) simp
  ultimately have "mg_tables m' ?u = ?T ?u"
    using assms(1) T
    by (auto simp: WriteBatch_def Let_def split: prod.splits) (metis fst_conv)
  then show ?thesis by (simp add: insert_replace_def)
qed

lemma check_metrics_allowed: "check_metrics scope seen ms = Inr () \<Longrightarrow> m \<in> set ms \<Longrightarrow> metricAllowed scope m"
  by (induction ms arbitrary: seen) (auto split: if_splits)

text \<open>
  C36. What is written is read back: after a batch has been stored, every raw query whose range
  holds the instant of its snapshot returns, for every metric of the host, a point at that
  instant (to the millisecond) with the value that the snapshot had, or without a value when it
  had none.
\<close>

theorem write_query_roundtrip:
  assumes "WriteBatch None names b m = (m', None)" and "0 < snap_Sequence (batch_Snapshot b)"
    and "QueryMetrics q (mg_tables m') = Inr r" and "mq_Scope q = ''host''" and "mr_Resolution r = ResolutionRaw"
    and "unix_milli (mq_From q) \<le> unix_milli (snap_At (batch_Snapshot b))"
    and "unix_milli (snap_At (batch_Snapshot b)) \<le> unix_milli (mq_To q)"
    and "s \<in> set (mr_Series r)" and "v = host_value (ser_Metric s) (snap_Host (batch_Snapshot b))"
  shows "\<lparr>pt_At = from_milli (unix_milli (snap_At (batch_Snapshot b))), pt_Min = v, pt_Avg = v, pt_Max = v,
    pt_Count = if v = None then 0 else 1\<rparr> \<in> set (ser_Points s)"
proof -
  let ?row = "host_sample (batch_Snapshot b)"
  note series = QueryMetrics_series [OF assms(3,8)]
  have ok: "metricAllowed ''host'' (ser_Metric s)"
    using series(1,3) assms(4) check_metrics_allowed by (auto simp: Validate_query_def split: if_splits)
  obtain a c d n table where src: "metricSource ''host'' (ser_Metric s) ResolutionRaw = Inr (a, c, d, n, table)"
    and pts: "ser_Points s = map (raw_point c) (selected_rows q (mg_tables m' table))"
    using series(2) by (auto simp: metricPoints_def assms(4,5) bind_result_def split: sum.splits)
  have ts: "?row ''ts'' = SInt (unix_milli (snap_At (batch_Snapshot b)))" by (simp add: host_sample_def row_of_def Let_def)
  have "?row \<in> set (selected_rows q (mg_tables m' table))"
    using host_row_written [OF assms(1,2)] host_column [OF ok src] assms(4,6,7) by (simp add: selected_rows_def ts)
  then have "raw_point c ?row \<in> set (ser_Points s)" by (simp add: pts)
  then show ?thesis using host_column [OF ok src] by (auto simp: raw_point_def Let_def ts assms(9))
qed

end
