(* ===== verification/Storage_Samples.thy ===== *)
theory Storage_Samples
  imports History_Properties
begin

section \<open>Storage and the engine on concrete data\<close>

text \<open>
  A snapshot of the host, one event, raw rows ten seconds apart, and a database that holds
  nothing or only these.
\<close>

definition sample_host :: HostObservation where
  "sample_host = no_host\<lparr>host_CPUPercent := Some 50\<rparr>"

definition sample_health :: CollectorHealth where
  "sample_health = \<lparr>coll_Name = ''host'', coll_State = CollectorDown, coll_Reason = ''read failed'', coll_FreshAt = 0\<rparr>"

definition sample_snapshot :: Snapshot where
  "sample_snapshot = \<lparr>snap_Sequence = 1, snap_At = seconds 100, snap_BootIdentity = ''boot'', snap_Host = sample_host,
     snap_Resources = [], snap_Collectors = [''host'' \<mapsto> sample_health]\<rparr>"

definition sample_event :: Event where
  "sample_event = \<lparr>event_ID = 0, event_At = seconds 100, event_Type = ''container_oom'', event_ResourceID = [], event_ContainerInstance = [],
     event_Severity = [], event_Message = ''killed'', event_Details = [], event_CorrelationKey = []\<rparr>"

definition sample_batch :: PersistenceBatch where
  "sample_batch = \<lparr>batch_Snapshot = sample_snapshot, batch_Events = [], batch_Filesystems = []\<rparr>"

definition day_cutoffs :: RetentionCutoffs where
  "day_cutoffs = \<lparr>rc_Raw = hours 24, rc_OneMinute = hours 24, rc_FifteenMinute = hours 24, rc_OneHour = hours 24\<rparr>"

definition sample_manager :: "tables \<Rightarrow> manager" where
  "sample_manager T = \<lparr>mg_tables = T, mg_prevCollectors = (\<lambda>_. []), mg_retention = day_cutoffs,
     mg_budget = \<lparr>bud_UsedBytes = 0, bud_TargetBytes = 0, bud_State = BudgetUnset\<rparr>, mg_emergencyPause = False\<rparr>"

definition raw_row :: "int \<Rightarrow> rat \<Rightarrow> row" where
  "raw_row ts cpu = row_of [(''ts'', SInt ts), (''host_id'', SText ''host''), (''cpu_busy_pct'', SReal cpu)]"

definition raw_tables :: tables where
  "raw_tables = (\<lambda>_. [])(''host_samples_10s'' := [raw_row 60000 20, raw_row 70000 40])"

lemmas sample_defs = sample_host_def sample_health_def sample_snapshot_def sample_event_def sample_batch_def sample_manager_def
  raw_row_def raw_tables_def day_cutoffs_def

subsection \<open>Retention and rollups\<close>

theorem retention_exact_witness:
  "applyRetention (\<lambda>_. False) (hours 24 + seconds 65) day_cutoffs True raw_tables =
    (\<lambda>u. case map_of (cutoffs day_cutoffs) u of
       None \<Rightarrow> raw_tables u
     | Some d \<Rightarrow> if d \<le> 0 then raw_tables u
       else del_where (\<lambda>x. int_lt (x ''ts'') (unix_milli (hours 24 + seconds 65 - d))) (raw_tables u), None) \<and>
   fst (applyRetention (\<lambda>_. False) (hours 24 + seconds 65) day_cutoffs True raw_tables) ''host_samples_10s'' = [raw_row 70000 40]"
proof -
  have "rc_Raw day_cutoffs \<noteq> 0" by (simp add: day_cutoffs_def time_defs)
  note this = retention_exact [OF this, of True "\<lambda>_. False" "hours 24 + seconds 65" raw_tables, simplified]
  moreover have "del_where (\<lambda>x. int_lt (x ''ts'') 65000) (raw_tables ''host_samples_10s'') = [raw_row 70000 40]"
    by (simp add: raw_tables_def raw_row_def row_of_def del_where_def)
  ultimately show ?thesis by (simp add: cutoffs_def day_cutoffs_def time_defs)
qed



theorem retention_spoils_rollup_witness:
  "\<exists>row1 row3 n1 n3.
    host_bucket (minutes 1 div 1000000) 1 (RollupOnce (seconds 120) raw_tables (''host_rollups_'' @ ''1m'')) = [row1] \<and> row1 ''sample_count'' = SInt n1 \<and>
    host_bucket (minutes 1 div 1000000) 1
      (RollupOnce (seconds 180) (fst (applyRetention (\<lambda>_. False) (hours 24 + seconds 65) day_cutoffs False (RollupOnce (seconds 120) raw_tables)))
        (''host_rollups_'' @ ''1m'')) = [row3] \<and> row3 ''sample_count'' = SInt n3 \<and> n3 < n1"
  by (rule retention_spoils_rollup [OF refl refl refl, where x = "raw_row 70000 40" and y = "raw_row 60000 20"])
    (simp_all add: rollup_tiers_def day_cutoffs_def raw_tables_def int_ts_def raw_row_def row_of_def bucket_of_def truncate_time_def trunc_div_def zero_time_def time_defs)

subsection \<open>The writer\<close>

lemma sample_write:
  "WriteBatch None [] sample_batch (sample_manager (\<lambda>_. [])) =
    (sample_manager ((\<lambda>_. [])(''host_samples_10s'' := [host_sample sample_snapshot])), None)"
  by (simp add: WriteBatch_def sample_batch_def sample_manager_def write_samples_def writeCollectorStateEvents_def
      insert_replace_def del_where_def sample_snapshot_def Let_def)

lemma sample_outcome: "snd (WriteBatch c names sample_batch m) = c"
  by (simp add: WriteBatch_def sample_batch_def sample_snapshot_def write_samples_def split: prod.split option.split)

theorem collector_transition_lost_witness:
  "\<exists>m1 m2. WriteBatch (Some (ErrMsg ''database is locked'')) [''host''] sample_batch (sample_manager (\<lambda>_. [])) =
      (m1, Some (ErrMsg ''database is locked'')) \<and>
    WriteBatch None [''host''] sample_batch m1 = (m2, None) \<and> mg_tables m2 ''collector_state_events'' = []"
proof -
  let ?w = "\<lambda>c. WriteBatch c [''host''] sample_batch" and ?e = "ErrMsg ''database is locked''"
  obtain m1 m2 where m1: "?w (Some ?e) (sample_manager (\<lambda>_. [])) = (m1, Some ?e)" and m2: "?w None m1 = (m2, None)"
    using sample_outcome by (metis prod.collapse)
  have "CollectorState_Valid (coll_State health)" if "snap_Collectors (batch_Snapshot sample_batch) name = Some health" for name health
    using that by (auto simp: sample_batch_def sample_snapshot_def sample_health_def CollectorState_Valid_def split: if_splits)
  from collector_transition_lost [OF m1 m2 this] show ?thesis using m1 m2 by (auto simp: sample_manager_def)
qed


theorem newest_batch_kept_witness:
  "\<exists>p. persist_reachable 1 p \<and> pq_producer p = Resting \<and> length (offered p) = 1 \<and> last (written p @ pq_queue p) = last (offered p)"
proof -
  let ?e = "Publish 0 sample_snapshot [] (NewEngine 64)"
  let ?p = "enqueue ?e False (Start_persistence 1)"
  have "persist_reachable 1 ?p"
    by (rule persist_reachable.step [OF persist_reachable.start persist_step.tick]) (simp add: Start_persistence_def)
  then have r: "persist_reachable 1 (enqueue_step (pq_producer ?p) ?p)" (is "persist_reachable 1 ?q")
    by (rule persist_reachable.step) (rule persist_step.produce)
  have "pq_producer ?q = Resting \<and> length (offered ?q) = 1"
    by (simp add: enqueue_def Start_persistence_def PersistenceBatch_of_def Publish_def NewEngine_def Let_def)
  then show ?thesis using newest_batch_kept [OF r] r by (intro exI [of _ ?q]) auto
qed

theorem events_after_refines_log_witness:
  "EventsAfter 2 (Publish 0 sample_snapshot [sample_event] (Publish 0 sample_snapshot [sample_event] (NewEngine 1))) =
    [sample_event\<lparr>event_ID := 4\<rparr>]"
proof -
  let ?e1 = "Publish 0 sample_snapshot [sample_event] (NewEngine 1)"
  let ?log = "[sample_event\<lparr>event_ID := 2\<rparr>, sample_event\<lparr>event_ID := 4\<rparr>]"
  have z: "event_ID sample_event = 0" by (simp add: sample_event_def)
  have "engine_run 1 (Publish 0 sample_snapshot [sample_event] ?e1)
      (([] @ fst (number_events [sample_event] (Suc (eng_nextMessage (NewEngine 1))))) @ fst (number_events [sample_event] (Suc (eng_nextMessage ?e1))))"
    by (rule engine_run.publish, rule engine_run.publish, rule engine_run.new) (simp_all add: z)
  then have "engine_run 1 (Publish 0 sample_snapshot [sample_event] ?e1) ?log"
    by (simp add: z NewEngine_def Publish_def Let_def eval_nat_numeral)
  from events_after_refines_log [OF this, of 2] show ?thesis
    by (simp add: z Publish_def NewEngine_def Let_def)
qed

subsection \<open>Queries\<close>

definition cpu_query :: MetricQuery where
  "cpu_query = \<lparr>mq_Scope = ''host'', mq_ID = [], mq_Metrics = [MetricCPU], mq_From = seconds 50, mq_To = seconds 150\<rparr>"

definition cpu_point :: "int \<Rightarrow> rat \<Rightarrow> Point" where
  "cpu_point ts v = \<lparr>pt_At = from_milli ts, pt_Min = Some v, pt_Avg = Some v, pt_Max = Some v, pt_Count = 1\<rparr>"

lemma cpu_query_simps [simp]:
  "mq_Scope cpu_query = ''host''" "mq_From cpu_query = seconds 50" "mq_To cpu_query = seconds 150" "mq_Metrics cpu_query = [MetricCPU]"
  "selectResolution (time_sub (seconds 150) (seconds 50)) = ResolutionRaw" "Validate_query cpu_query = Inr ()"
  by (simp_all add: cpu_query_def Validate_query_def metricAllowed_def hostMetrics_def selectResolution_def time_sub_def time_defs
      min_duration_def max_duration_def zero_time_def)

lemma cpu_source: "metricSource ''host'' MetricCPU ResolutionRaw = Inr (''cpu_busy_pct'', ''cpu_busy_pct'', ''cpu_busy_pct'', [], ''host_samples_10s'')"
  by (simp add: metricSource_def raw_columns_def Let_def)

lemma cpu_query_result:
  "\<exists>r s. QueryMetrics cpu_query T = Inr r \<and> mr_Resolution r = ResolutionRaw \<and> mr_Series r = [s] \<and> ser_Metric s = MetricCPU \<and>
    ser_Points s = map (raw_point ''cpu_busy_pct'') (selected_rows cpu_query (T ''host_samples_10s''))"
  by (simp add: QueryMetrics_def bind_result_def metricPoints_def cpu_source Let_def)




theorem write_query_roundtrip_witness:
  "\<exists>m' r s. WriteBatch None [] sample_batch (sample_manager (\<lambda>_. [])) = (m', None) \<and> QueryMetrics cpu_query (mg_tables m') = Inr r \<and>
    s \<in> set (mr_Series r) \<and> cpu_point 100000 50 \<in> set (ser_Points s)"
proof -
  let ?m = "sample_manager ((\<lambda>_. [])(''host_samples_10s'' := [host_sample sample_snapshot]))"
  note w = sample_write
  obtain r s where q: "QueryMetrics cpu_query (mg_tables ?m) = Inr r" "mr_Resolution r = ResolutionRaw" "mr_Series r = [s]" "ser_Metric s = MetricCPU"
    using cpu_query_result by blast
  have at: "from_milli (unix_milli (snap_At (batch_Snapshot sample_batch))) = from_milli 100000"
    by (simp add: sample_batch_def sample_snapshot_def time_defs)
  have v: "Some 50 = host_value (ser_Metric s) (snap_Host (batch_Snapshot sample_batch))"
    by (simp add: q(4) sample_batch_def sample_snapshot_def sample_host_def)
  have "cpu_point 100000 50 \<in> set (ser_Points s)"
    using write_query_roundtrip [OF w _ q(1) _ q(2) _ _ _ v] unfolding at cpu_point_def
    by (simp add: q(3) sample_batch_def sample_snapshot_def time_defs)
  then show ?thesis using w q by (intro exI [of _ ?m] exI [of _ r] exI [of _ s]) simp
qed

end
