(* ===== verification/Settings_Text.thy ===== *)
theory Settings_Text
  imports Auth_Limiter "HOL-Library.List_Lexorder"
begin

section \<open>Text of settings\<close>

text \<open>
  The conversions of the standard library that \<^verbatim>\<open>internal/settings\<close> uses: durations, booleans, file
  paths and lists in text. Functions of the network library, \<open>url.Parse\<close>, the conversions of
  floating point numbers and the JSON form of a string are parameters.
\<close>

record settings_lib =
  set_net :: net_lib
  set_url :: "string \<Rightarrow> url option"
  parse_float :: "string \<Rightarrow> float64 option"
  format_float :: "float64 \<Rightarrow> string"
  json_string :: "string \<Rightarrow> string"
  json_unstring :: "string \<Rightarrow> string option"

subsection \<open>Values\<close>

definition ParseBool :: "string \<Rightarrow> bool option" where
  "ParseBool s =
    (if s \<in> {''1'', ''t'', ''T'', ''TRUE'', ''true'', ''True''} then Some True
     else if s \<in> {''0'', ''f'', ''F'', ''FALSE'', ''false'', ''False''} then Some False
     else None)"

definition FormatBool :: "bool \<Rightarrow> string" where
  "FormatBool b = (if b then ''true'' else ''false'')"

text \<open>
  \<open>time.ParseDuration\<close>: a sign, then numbers with units. The fraction of a number is taken
  exactly and cut to whole nanoseconds; the sum is kept in 64 bits.
\<close>

definition unitMap :: "(string \<times> int) list" where
  "unitMap = [(''ns'', 1), (''us'', 1000), ([CHR 0xC2, CHR 0xB5, CHR ''s''], 1000), ([CHR 0xCE, CHR 0xBC, CHR ''s''], 1000),
     (''ms'', 1000000), (''s'', seconds 1), (''m'', minutes 1), (''h'', hours 1)]"

definition unit_char :: "char \<Rightarrow> bool" where
  "unit_char c = (c \<noteq> CHR ''.'' \<and> \<not> is_digit c)"

lemma dropWhile_shorter: "takeWhile P xs \<noteq> [] \<Longrightarrow> length (dropWhile P xs) < length xs"
  by (cases xs) (auto simp: le_imp_less_Suc length_dropWhile_le split: if_splits)

function parse_units :: "string \<Rightarrow> int \<Rightarrow> int option" where
  "parse_units s d =
    (if s = [] then Some d
     else
       let ds = takeWhile is_digit s; s1 = dropWhile is_digit s;
           dot = (s1 \<noteq> [] \<and> hd s1 = CHR ''.'');
           fs = (if dot then takeWhile is_digit (tl s1) else []);
           s2 = (if dot then dropWhile is_digit (tl s1) else s1);
           u = takeWhile unit_char s2
       in if ds = [] \<and> fs = [] \<or> u = [] then None
          else case map_of unitMap u of
                 None \<Rightarrow> None
               | Some w \<Rightarrow>
                 let v = int (nat_of_digits ds) * w + int (nat_of_digits fs) * w div 10 ^ length fs;
                     d' = (d + v) mod 2 ^ 64
                 in if 2 ^ 63 < v \<or> 2 ^ 63 < d' then None else parse_units (dropWhile unit_char s2) d')"
  by pat_completeness auto
termination
proof (relation "measure (\<lambda>(s, d). length s)", goal_cases)
  case (2 s d ds s1 dot fs s2 u w v d')
  have "length s2 \<le> length s"
    using length_dropWhile_le [of is_digit s] length_dropWhile_le [of is_digit "tl s1"] by (auto simp: 2)
  moreover have "length (dropWhile unit_char s2) < length s2" using 2 by (intro dropWhile_shorter) simp
  ultimately show ?case by simp
qed simp

declare parse_units.simps [simp del]

definition ParseDuration :: "string \<Rightarrow> duration option" where
  "ParseDuration s =
    (let neg = has_prefix s ''-''; s = (if has_prefix s ''-'' \<or> has_prefix s ''+'' then tl s else s)
     in if s = ''0'' then Some 0
        else if s = [] then None
        else case parse_units s 0 of
               None \<Rightarrow> None
             | Some d \<Rightarrow> if neg then Some (- d) else if d = 2 ^ 63 then None else Some d)"

text \<open>\<open>Duration.String\<close>: hours, minutes and seconds, or one smaller unit, without trailing zeros.\<close>

fun pad_digits :: "nat \<Rightarrow> nat \<Rightarrow> string" where
  "pad_digits 0 n = []"
| "pad_digits (Suc k) n = pad_digits k (n div 10) @ [digit (n mod 10)]"

definition fraction_text :: "nat \<Rightarrow> nat \<Rightarrow> string" where
  "fraction_text width n =
    (let ds = rev (dropWhile (\<lambda>c. c = CHR ''0'') (rev (pad_digits width n))) in if ds = [] then [] else CHR ''.'' # ds)"

definition Duration_String :: "duration \<Rightarrow> string" where
  "Duration_String d =
    (let n = nat \<bar>d\<bar>; sign = (if d < 0 then ''-'' else []);
         scaled = (\<lambda>width (u :: string). show_nat (n div 10 ^ width) @ fraction_text width (n mod 10 ^ width) @ u)
     in sign @
        (if n = 0 then ''0s''
         else if n < 1000 then show_nat n @ ''ns''
         else if n < 1000000 then scaled 3 [CHR 0xC2, CHR 0xB5, CHR ''s'']
         else if n < 1000000000 then scaled 6 ''ms''
         else
           let s = n div 1000000000; tail = show_nat (s mod 60) @ fraction_text 9 (n mod 1000000000) @ ''s''
           in if s < 60 then tail
              else if s < 3600 then show_nat (s div 60) @ ''m'' @ tail
              else show_nat (s div 3600) @ ''h'' @ show_nat (s div 60 mod 60) @ ''m'' @ tail))"

text \<open>\<open>filepath.Join\<close> of two elements, with \<open>filepath.Clean\<close>, and \<open>filepath.IsAbs\<close>.\<close>

definition clean_step :: "bool \<Rightarrow> string \<Rightarrow> string list \<Rightarrow> string list" where
  "clean_step rooted e stack =
    (if e = [] \<or> e = ''.'' then stack
     else if e = ''..'' then
       (case stack of
          e' # rest \<Rightarrow> if e' \<noteq> ''..'' then rest else e # stack
        | [] \<Rightarrow> if rooted then [] else [e])
     else e # stack)"

fun join_with :: "string \<Rightarrow> string list \<Rightarrow> string" where
  "join_with sep [] = []"
| "join_with sep [s] = s"
| "join_with sep (s # t # ss) = s @ sep @ join_with sep (t # ss)"

definition IsAbs :: "string \<Rightarrow> bool" where
  "IsAbs path = has_prefix path ''/''"

definition Clean :: "string \<Rightarrow> string" where
  "Clean path =
    (let body = join_with ''/'' (rev (fold (clean_step (IsAbs path)) (split_on (CHR ''/'') path) []));
         out = (if IsAbs path then ''/'' else []) @ body
     in if out = [] then ''.'' else out)"

definition join_path :: "string \<Rightarrow> string \<Rightarrow> string" where
  "join_path dir name = Clean (if dir = [] then name else dir @ ''/'' @ name)"

definition trim_right :: "string \<Rightarrow> string \<Rightarrow> string" where
  "trim_right s cutset = rev (dropWhile (\<lambda>c. c \<in> set cutset) (rev s))"

function split_str :: "string \<Rightarrow> string \<Rightarrow> string \<Rightarrow> string list" where
  "split_str sep acc s =
    (if s = [] then [rev acc]
     else if sep \<noteq> [] \<and> has_prefix s sep then rev acc # split_str sep [] (drop (length sep) s)
     else split_str sep (hd s # acc) (tl s))"
  by pat_completeness auto
termination by (relation "measure (\<lambda>(sep, acc, s). length s)") auto

declare split_str.simps [simp del]

definition trimmed_parts :: "string list \<Rightarrow> string list" where
  "trimmed_parts parts = filter (\<lambda>s. s \<noteq> []) (map trim_space parts)"

end
