(* ===== verification/Settings_Config.thy ===== *)
theory Settings_Config
  imports Settings_Text
begin

section \<open>Configuration\<close>

text \<open>
  \<^verbatim>\<open>internal/settings/settings.go\<close> and \<^verbatim>\<open>load.go\<close>: the configuration, its defaults, its validation, and
  how it is put together from a file, the environment and overrides. A Go map from strings is
  an association list in the order of its keys, and a loop over it visits the keys in that
  order. These loops write different fields for different keys, so the order shows in the
  choice of an error only. Of the errors of the standard library only the fact is kept.
\<close>

record Paths =
  DataDir :: string
  DatabasePath :: string
  RuntimeDir :: string
  HostProc :: string
  HostSys :: string
  HostPasswd :: string
  MasterKey :: string
  MasterKeyFile :: string
  masterKeyLoadedFromFile :: bool

record HTTP =
  ListenAddress :: string
  TrustedProxyCIDRs :: "string list"

record Collection =
  HostInterval :: duration
  ContainerInterval :: duration
  MinimumInterval :: duration

record Persistence =
  RawInterval :: duration
  QueueBatchLimit :: int

record Retention =
  Preset :: string
  Raw :: duration
  OneMinute :: duration
  FifteenMinute :: duration
  OneHour :: duration

record Database =
  TargetBudgetBytes :: int
  WarningRatio :: float64
  CriticalRatio :: float64
  EmergencyPauseRatio :: float64

record Notifications =
  AllowPrivateTargets :: bool
  NotifyConcurrency :: int
  QueueCapacity :: int
  DeliveryTimeout :: duration
  ReminderInterval :: duration

record Logs =
  MaxResponseBytes :: int
  MaxLines :: int
  RedactionPatterns :: "string list"

record Sessions =
  SessionIdle :: duration
  SessionLifetime :: duration

record Coolify =
  CoolifyURL :: string
  APITokenText :: string
  APITokenFile :: string
  AllowInsecureHTTP :: bool

record Auth =
  Mode :: string
  ProxyCIDRs :: "string list"
  IdentityHeader :: string
  AllowedSubject :: string

record Features =
  AdvancedAuth :: bool
  Portability :: bool

text \<open>The structs with one or two fields, \<open>Live, Charts, Docker, Checks\<close> and \<open>Prometheus\<close>, are written out.\<close>

record Config =
  cfg_Paths :: Paths
  cfg_HTTP :: HTTP
  cfg_Collection :: Collection
  cfg_SSEInterval :: duration
  cfg_Persistence :: Persistence
  cfg_Retention :: Retention
  cfg_Database :: Database
  cfg_MaxPointsPerSeries :: int
  cfg_DockerSocketPath :: string
  cfg_DockerConcurrency :: int
  cfg_ChecksConcurrency :: int
  cfg_Notifications :: Notifications
  cfg_Logs :: Logs
  cfg_Coolify :: Coolify
  cfg_Auth :: Auth
  cfg_Features :: Features
  cfg_Prometheus :: bool
  cfg_Sessions :: Sessions
  cfg_Demo :: bool

definition Defaults :: Config where
  "Defaults =
    \<lparr>cfg_Paths = \<lparr>DataDir = ''/var/lib/binnacle'', DatabasePath = [], RuntimeDir = [], HostProc = ''/proc'', HostSys = ''/sys'',
       HostPasswd = ''/host/etc/passwd'', MasterKey = [], MasterKeyFile = [], masterKeyLoadedFromFile = False\<rparr>,
     cfg_HTTP = \<lparr>ListenAddress = '':8080'', TrustedProxyCIDRs = []\<rparr>,
     cfg_Collection = \<lparr>HostInterval = seconds 2, ContainerInterval = seconds 2, MinimumInterval = seconds 1\<rparr>,
     cfg_SSEInterval = seconds 2,
     cfg_Persistence = \<lparr>RawInterval = seconds 10, QueueBatchLimit = 60\<rparr>,
     cfg_Retention = \<lparr>Preset = ''balanced'', Raw = hours 48, OneMinute = hours (30 * 24), FifteenMinute = hours (365 * 24), OneHour = 0\<rparr>,
     cfg_Database = \<lparr>TargetBudgetBytes = 1073741824, WarningRatio = 80/100, CriticalRatio = 95/100, EmergencyPauseRatio = 98/100\<rparr>,
     cfg_MaxPointsPerSeries = 1000, cfg_DockerSocketPath = ''/var/run/docker.sock'', cfg_DockerConcurrency = 4, cfg_ChecksConcurrency = 8,
     cfg_Notifications = \<lparr>AllowPrivateTargets = False, NotifyConcurrency = 4, QueueCapacity = 1000, DeliveryTimeout = seconds 15,
       ReminderInterval = hours 2\<rparr>,
     cfg_Logs = \<lparr>MaxResponseBytes = 1048576, MaxLines = 5000, RedactionPatterns = []\<rparr>,
     cfg_Coolify = \<lparr>CoolifyURL = [], APITokenText = [], APITokenFile = [], AllowInsecureHTTP = False\<rparr>,
     cfg_Auth = \<lparr>Mode = ''local'', ProxyCIDRs = [], IdentityHeader = ''X-Forwarded-User'', AllowedSubject = []\<rparr>,
     cfg_Features = \<lparr>AdvancedAuth = False, Portability = False\<rparr>, cfg_Prometheus = False,
     cfg_Sessions = \<lparr>SessionIdle = hours 12, SessionLifetime = hours 720\<rparr>, cfg_Demo = False\<rparr>"

definition RetentionPreset :: "string \<Rightarrow> Retention option" where
  "RetentionPreset name =
    (if name = ''minimal''
     then Some \<lparr>Preset = name, Raw = hours 12, OneMinute = hours (7 * 24), FifteenMinute = hours (90 * 24), OneHour = hours (365 * 24)\<rparr>
     else if name = ''balanced'' then Some (cfg_Retention Defaults)
     else if name = ''long-term''
     then Some \<lparr>Preset = name, Raw = hours (7 * 24), OneMinute = hours (90 * 24), FifteenMinute = hours (2 * 365 * 24), OneHour = 0\<rparr>
     else None)"

definition Normalize :: "Config \<Rightarrow> Config" where
  "Normalize c =
    (let p = cfg_Paths c;
         p = (if RuntimeDir p = [] then p\<lparr>RuntimeDir := join_path (DataDir p) ''runtime''\<rparr> else p);
         p = (if DatabasePath p = [] then p\<lparr>DatabasePath := join_path (DataDir p) ''binnacle.db''\<rparr> else p)
     in c\<lparr>cfg_Paths := p\<rparr>)"

subsection \<open>Validation\<close>

definition validateExactProxy :: "settings_lib \<Rightarrow> string \<Rightarrow> unit result" where
  "validateExactProxy lib v =
    (case parse_prefix (set_net lib) v of
       None \<Rightarrow> Inl (ErrMsg ''netip.ParsePrefix'')
     | Some (a, bits) \<Rightarrow>
       if bits \<noteq> BitLen a then Inl (ErrMsg ''must identify one exact host (/32 for IPv4 or /128 for IPv6)'') else Inr ())"

text \<open>\<open>require\<close> is one check of \<open>Validate\<close>: an error unless the condition holds.\<close>

definition require :: "bool \<Rightarrow> string \<Rightarrow> unit result \<Rightarrow> unit result" where
  "require ok msg rest = (if ok then rest else Inl (ErrMsg msg))"

fun require_paths :: "(string \<times> string) list \<Rightarrow> unit result \<Rightarrow> unit result" where
  "require_paths [] rest = rest"
| "require_paths ((name, path) # ps) rest = require (path \<noteq> [] \<and> IsAbs path) (name @ '' must be an absolute path'') (require_paths ps rest)"

fun require_positive :: "(string \<times> duration) list \<Rightarrow> unit result \<Rightarrow> unit result" where
  "require_positive [] rest = rest"
| "require_positive ((name, d) # ds) rest = require (0 < d) (name @ '' must be positive'') (require_positive ds rest)"

definition coolify_url_ok :: "settings_lib \<Rightarrow> Coolify \<Rightarrow> bool" where
  "coolify_url_ok lib k =
    (case set_url lib (CoolifyURL k) of
       None \<Rightarrow> False
     | Some u \<Rightarrow> url_Hostname u \<noteq> [] \<and> \<not> url_HasUser u \<and>
         (url_Scheme u = ''https'' \<or> AllowInsecureHTTP k \<and> url_Scheme u = ''http''))"

definition Validate_config :: "settings_lib \<Rightarrow> Config \<Rightarrow> unit result" where
  "Validate_config lib c0 =
    (let c = Normalize c0; p = cfg_Paths c; a = cfg_Auth c; k = cfg_Collection c; s = cfg_Sessions c; l = cfg_Logs c;
         n = cfg_Notifications c; d = cfg_Database c; r = cfg_Retention c
     in require_paths [(''data_dir'', DataDir p), (''database_path'', DatabasePath p), (''runtime_dir'', RuntimeDir p),
          (''host_proc'', HostProc p), (''host_sys'', HostSys p), (''host_passwd'', HostPasswd p), (''docker.socket_path'', cfg_DockerSocketPath c)] (
        require (split_host_port (set_net lib) (ListenAddress (cfg_HTTP c)) \<noteq> None) ''http.listen_address'' (
        require (list_all (\<lambda>v. validateExactProxy lib v = Inr ()) (TrustedProxyCIDRs (cfg_HTTP c))) ''http.trusted_proxy_cidrs'' (
        require (Mode a \<in> {''local'', ''proxy'', ''local_and_proxy''}) ''auth.mode must be local, proxy, or local_and_proxy'' (
        require (list_all (\<lambda>v. validateExactProxy lib v = Inr ()) (ProxyCIDRs a)) ''auth.proxy_cidrs'' (
        require (MasterKeyFile p = [] \<or> IsAbs (MasterKeyFile p)) ''paths.master_key_file must be an absolute path'' (
        require (MasterKeyFile p = [] \<or> MasterKey p = [] \<or> masterKeyLoadedFromFile p)
          ''paths.master_key and paths.master_key_file cannot both be configured'' (
        require (Mode a = ''local'' \<or> ProxyCIDRs a \<noteq> [] \<and> trim_space (IdentityHeader a) \<noteq> [] \<and> trim_space (AllowedSubject a) \<noteq> [])
          ''proxy auth requires proxy_cidrs, identity_header, and allowed_subject'' (
        require (AdvancedAuth (cfg_Features c) \<or> Mode a = ''local'') ''proxy authentication requires features.advanced_auth=true'' (
        require (Portability (cfg_Features c) \<or> \<not> cfg_Prometheus c) ''prometheus requires features.portability=true'' (
        require (0 < MinimumInterval k \<and> MinimumInterval k \<le> HostInterval k \<and> MinimumInterval k \<le> ContainerInterval k)
          ''collection intervals must be at least minimum_interval'' (
        require_positive [(''live.sse_interval'', cfg_SSEInterval c), (''persistence.raw_interval'', RawInterval (cfg_Persistence c)),
          (''sessions.idle_timeout'', SessionIdle s), (''sessions.absolute_lifetime'', SessionLifetime s)] (
        require (SessionIdle s \<le> SessionLifetime s) ''sessions.absolute_lifetime must be at least idle_timeout'' (
        require (0 < QueueBatchLimit (cfg_Persistence c) \<and> 0 < cfg_MaxPointsPerSeries c \<and> 0 < cfg_DockerConcurrency c \<and>
          0 < cfg_ChecksConcurrency c \<and> 0 < MaxResponseBytes l \<and> 0 < MaxLines l \<and> 0 < TargetBudgetBytes d)
          ''limits and budgets must be positive'' (
        require (MaxResponseBytes l \<le> 1048576 \<and> MaxLines l \<le> 5000 \<and> length (RedactionPatterns l) \<le> 16)
          ''log limits exceed the supported ceilings'' (
        require (CoolifyURL (cfg_Coolify c) = [] \<or> coolify_url_ok lib (cfg_Coolify c)) ''coolify.url must be a valid HTTPS URL'' (
        require (1 \<le> NotifyConcurrency n \<and> NotifyConcurrency n \<le> 32 \<and> 1 \<le> QueueCapacity n \<and> QueueCapacity n \<le> 10000 \<and>
          seconds 1 \<le> DeliveryTimeout n \<and> DeliveryTimeout n \<le> minutes 1 \<and> minutes 1 \<le> ReminderInterval n \<and> ReminderInterval n \<le> hours 24)
          ''notification limits are outside supported bounds'' (
        require (0 < WarningRatio d \<and> WarningRatio d < CriticalRatio d \<and> CriticalRatio d < EmergencyPauseRatio d \<and> EmergencyPauseRatio d \<le> 1)
          ''database ratios must be ordered between zero and one'' (
        require (Preset r \<in> {''minimal'', ''balanced'', ''long-term'', ''advanced''}) ''retention.preset must be minimal, balanced, long-term, or advanced'' (
        require (Preset r \<noteq> ''advanced'' \<or> 0 < Raw r \<and> Raw r < OneMinute r \<and> OneMinute r < FifteenMinute r \<and>
          (OneHour r = 0 \<or> FifteenMinute r < OneHour r)) ''advanced retention tiers must be ordered'' (
        Inr ())))))))))))))))))))))"

definition UIOverridable :: "string \<Rightarrow> bool" where
  "UIOverridable key =
    (key \<notin> {''paths.data_dir'', ''paths.database_path'', ''paths.runtime_dir'', ''paths.master_key'', ''paths.master_key_file'',
      ''http.listen_address'', ''docker.socket_path'', ''paths.host_proc'', ''paths.host_sys'', ''paths.host_passwd'', ''coolify.url'',
      ''coolify.api_token_file'', ''coolify.allow_insecure_http'', ''auth.mode'', ''auth.proxy_cidrs'', ''auth.identity_header'',
      ''auth.allowed_subject'', ''features.advanced_auth'', ''features.portability'', ''prometheus.enabled'',
      ''notifications.allow_private_targets'', ''notifications.max_concurrency'', ''notifications.queue_capacity'',
      ''notifications.delivery_timeout'', ''notifications.reminder_interval''})"

subsection \<open>Applying values\<close>

definition with_value :: "string \<Rightarrow> 'v option \<Rightarrow> ('v \<Rightarrow> Config) \<Rightarrow> Config result" where
  "with_value key parsed f = (case parsed of None \<Rightarrow> Inl (ErrMsg (key @ '': invalid value'')) | Some v \<Rightarrow> Inr (f v))"

definition on_paths :: "(Paths \<Rightarrow> Paths) \<Rightarrow> Config \<Rightarrow> Config" where
  "on_paths f c = c\<lparr>cfg_Paths := f (cfg_Paths c)\<rparr>"

definition on_retention :: "(Retention \<Rightarrow> Retention) \<Rightarrow> Config \<Rightarrow> Config" where
  "on_retention f c = c\<lparr>cfg_Retention := f (cfg_Retention c)\<rparr>"

definition on_notifications :: "(Notifications \<Rightarrow> Notifications) \<Rightarrow> Config \<Rightarrow> Config" where
  "on_notifications f c = c\<lparr>cfg_Notifications := f (cfg_Notifications c)\<rparr>"

text \<open>The cases of the switch in \<open>apply\<close>: what each key does with its value.\<close>

definition setters :: "settings_lib \<Rightarrow> (string \<times> (string \<Rightarrow> Config \<Rightarrow> Config result)) list" where
  "setters lib =
    [(''paths.data_dir'', \<lambda>v c. Inr (on_paths (\<lambda>p. p\<lparr>DataDir := v\<rparr>) c)),
     (''paths.database_path'', \<lambda>v c. Inr (on_paths (\<lambda>p. p\<lparr>DatabasePath := v\<rparr>) c)),
     (''paths.runtime_dir'', \<lambda>v c. Inr (on_paths (\<lambda>p. p\<lparr>RuntimeDir := v\<rparr>) c)),
     (''paths.host_proc'', \<lambda>v c. Inr (on_paths (\<lambda>p. p\<lparr>HostProc := v\<rparr>) c)),
     (''paths.host_sys'', \<lambda>v c. Inr (on_paths (\<lambda>p. p\<lparr>HostSys := v\<rparr>) c)),
     (''paths.host_passwd'', \<lambda>v c. Inr (on_paths (\<lambda>p. p\<lparr>HostPasswd := v\<rparr>) c)),
     (''paths.master_key'', \<lambda>v c. Inr (on_paths (\<lambda>p. p\<lparr>MasterKey := v\<rparr>) c)),
     (''paths.master_key_file'', \<lambda>v c. Inr (on_paths (\<lambda>p. p\<lparr>MasterKeyFile := v\<rparr>) c)),
     (''coolify.url'', \<lambda>v c. Inr (c\<lparr>cfg_Coolify := (cfg_Coolify c)\<lparr>CoolifyURL := trim_right v ''/''\<rparr>\<rparr>)),
     (''coolify.api_token_file'', \<lambda>v c. Inr (c\<lparr>cfg_Coolify := (cfg_Coolify c)\<lparr>APITokenFile := v\<rparr>\<rparr>)),
     (''coolify.allow_insecure_http'', \<lambda>v c. with_value ''coolify.allow_insecure_http'' (ParseBool v)
        (\<lambda>b. c\<lparr>cfg_Coolify := (cfg_Coolify c)\<lparr>AllowInsecureHTTP := b\<rparr>\<rparr>)),
     (''auth.mode'', \<lambda>v c. Inr (c\<lparr>cfg_Auth := (cfg_Auth c)\<lparr>Mode := to_lower (trim_space v)\<rparr>\<rparr>)),
     (''auth.proxy_cidrs'', \<lambda>v c. Inr (c\<lparr>cfg_Auth := (cfg_Auth c)\<lparr>ProxyCIDRs := trimmed_parts (split_on (CHR '','') v)\<rparr>\<rparr>)),
     (''auth.identity_header'', \<lambda>v c. Inr (c\<lparr>cfg_Auth := (cfg_Auth c)\<lparr>IdentityHeader := trim_space v\<rparr>\<rparr>)),
     (''auth.allowed_subject'', \<lambda>v c. Inr (c\<lparr>cfg_Auth := (cfg_Auth c)\<lparr>AllowedSubject := v\<rparr>\<rparr>)),
     (''prometheus.enabled'', \<lambda>v c. with_value ''prometheus.enabled'' (ParseBool v) (\<lambda>b. c\<lparr>cfg_Prometheus := b\<rparr>)),
     (''features.advanced_auth'', \<lambda>v c. with_value ''features.advanced_auth'' (ParseBool v)
        (\<lambda>b. c\<lparr>cfg_Features := (cfg_Features c)\<lparr>AdvancedAuth := b\<rparr>\<rparr>)),
     (''features.portability'', \<lambda>v c. with_value ''features.portability'' (ParseBool v)
        (\<lambda>b. c\<lparr>cfg_Features := (cfg_Features c)\<lparr>Portability := b\<rparr>\<rparr>)),
     (''http.listen_address'', \<lambda>v c. Inr (c\<lparr>cfg_HTTP := (cfg_HTTP c)\<lparr>ListenAddress := v\<rparr>\<rparr>)),
     (''http.trusted_proxy_cidrs'', \<lambda>v c. Inr (c\<lparr>cfg_HTTP := (cfg_HTTP c)\<lparr>TrustedProxyCIDRs := trimmed_parts (split_on (CHR '','') v)\<rparr>\<rparr>)),
     (''collection.host_interval'', \<lambda>v c. with_value ''collection.host_interval'' (ParseDuration v)
        (\<lambda>d. c\<lparr>cfg_Collection := (cfg_Collection c)\<lparr>HostInterval := d\<rparr>\<rparr>)),
     (''collection.container_interval'', \<lambda>v c. with_value ''collection.container_interval'' (ParseDuration v)
        (\<lambda>d. c\<lparr>cfg_Collection := (cfg_Collection c)\<lparr>ContainerInterval := d\<rparr>\<rparr>)),
     (''collection.minimum_interval'', \<lambda>v c. with_value ''collection.minimum_interval'' (ParseDuration v)
        (\<lambda>d. c\<lparr>cfg_Collection := (cfg_Collection c)\<lparr>MinimumInterval := d\<rparr>\<rparr>)),
     (''live.sse_interval'', \<lambda>v c. with_value ''live.sse_interval'' (ParseDuration v) (\<lambda>d. c\<lparr>cfg_SSEInterval := d\<rparr>)),
     (''persistence.raw_interval'', \<lambda>v c. with_value ''persistence.raw_interval'' (ParseDuration v)
        (\<lambda>d. c\<lparr>cfg_Persistence := (cfg_Persistence c)\<lparr>RawInterval := d\<rparr>\<rparr>)),
     (''persistence.queue_batch_limit'', \<lambda>v c. with_value ''persistence.queue_batch_limit'' (atoi v)
        (\<lambda>i. c\<lparr>cfg_Persistence := (cfg_Persistence c)\<lparr>QueueBatchLimit := i\<rparr>\<rparr>)),
     (''retention.preset'', \<lambda>v c. Inr c),
     (''retention.raw'', \<lambda>v c. with_value ''retention.raw'' (ParseDuration v) (\<lambda>d. on_retention (\<lambda>r. r\<lparr>Raw := d\<rparr>) c)),
     (''retention.one_minute'', \<lambda>v c. with_value ''retention.one_minute'' (ParseDuration v) (\<lambda>d. on_retention (\<lambda>r. r\<lparr>OneMinute := d\<rparr>) c)),
     (''retention.fifteen_minute'', \<lambda>v c. with_value ''retention.fifteen_minute'' (ParseDuration v)
        (\<lambda>d. on_retention (\<lambda>r. r\<lparr>FifteenMinute := d\<rparr>) c)),
     (''retention.one_hour'', \<lambda>v c. with_value ''retention.one_hour'' (ParseDuration v) (\<lambda>d. on_retention (\<lambda>r. r\<lparr>OneHour := d\<rparr>) c)),
     (''database.target_budget_bytes'', \<lambda>v c. with_value ''database.target_budget_bytes'' (atoi v)
        (\<lambda>i. c\<lparr>cfg_Database := (cfg_Database c)\<lparr>TargetBudgetBytes := i\<rparr>\<rparr>)),
     (''database.warning_ratio'', \<lambda>v c. with_value ''database.warning_ratio'' (parse_float lib v)
        (\<lambda>x. c\<lparr>cfg_Database := (cfg_Database c)\<lparr>WarningRatio := x\<rparr>\<rparr>)),
     (''database.critical_ratio'', \<lambda>v c. with_value ''database.critical_ratio'' (parse_float lib v)
        (\<lambda>x. c\<lparr>cfg_Database := (cfg_Database c)\<lparr>CriticalRatio := x\<rparr>\<rparr>)),
     (''database.emergency_pause_ratio'', \<lambda>v c. with_value ''database.emergency_pause_ratio'' (parse_float lib v)
        (\<lambda>x. c\<lparr>cfg_Database := (cfg_Database c)\<lparr>EmergencyPauseRatio := x\<rparr>\<rparr>)),
     (''charts.max_points_per_series'', \<lambda>v c. with_value ''charts.max_points_per_series'' (atoi v) (\<lambda>i. c\<lparr>cfg_MaxPointsPerSeries := i\<rparr>)),
     (''docker.socket_path'', \<lambda>v c. Inr (c\<lparr>cfg_DockerSocketPath := v\<rparr>)),
     (''docker.max_concurrency'', \<lambda>v c. with_value ''docker.max_concurrency'' (atoi v) (\<lambda>i. c\<lparr>cfg_DockerConcurrency := i\<rparr>)),
     (''checks.max_concurrency'', \<lambda>v c. with_value ''checks.max_concurrency'' (atoi v) (\<lambda>i. c\<lparr>cfg_ChecksConcurrency := i\<rparr>)),
     (''notifications.allow_private_targets'', \<lambda>v c. with_value ''notifications.allow_private_targets'' (ParseBool v)
        (\<lambda>b. on_notifications (\<lambda>n. n\<lparr>AllowPrivateTargets := b\<rparr>) c)),
     (''notifications.max_concurrency'', \<lambda>v c. with_value ''notifications.max_concurrency'' (atoi v)
        (\<lambda>i. on_notifications (\<lambda>n. n\<lparr>NotifyConcurrency := i\<rparr>) c)),
     (''notifications.queue_capacity'', \<lambda>v c. with_value ''notifications.queue_capacity'' (atoi v)
        (\<lambda>i. on_notifications (\<lambda>n. n\<lparr>QueueCapacity := i\<rparr>) c)),
     (''notifications.delivery_timeout'', \<lambda>v c. with_value ''notifications.delivery_timeout'' (ParseDuration v)
        (\<lambda>d. on_notifications (\<lambda>n. n\<lparr>DeliveryTimeout := d\<rparr>) c)),
     (''notifications.reminder_interval'', \<lambda>v c. with_value ''notifications.reminder_interval'' (ParseDuration v)
        (\<lambda>d. on_notifications (\<lambda>n. n\<lparr>ReminderInterval := d\<rparr>) c)),
     (''logs.max_response_bytes'', \<lambda>v c. with_value ''logs.max_response_bytes'' (atoi v)
        (\<lambda>i. c\<lparr>cfg_Logs := (cfg_Logs c)\<lparr>MaxResponseBytes := i\<rparr>\<rparr>)),
     (''logs.max_lines'', \<lambda>v c. with_value ''logs.max_lines'' (atoi v) (\<lambda>i. c\<lparr>cfg_Logs := (cfg_Logs c)\<lparr>MaxLines := i\<rparr>\<rparr>)),
     (''logs.redaction_patterns'', \<lambda>v c. Inr (c\<lparr>cfg_Logs := (cfg_Logs c)\<lparr>RedactionPatterns := trimmed_parts (split_str ''||'' [] v)\<rparr>\<rparr>)),
     (''sessions.idle_timeout'', \<lambda>v c. with_value ''sessions.idle_timeout'' (ParseDuration v)
        (\<lambda>d. c\<lparr>cfg_Sessions := (cfg_Sessions c)\<lparr>SessionIdle := d\<rparr>\<rparr>)),
     (''sessions.absolute_lifetime'', \<lambda>v c. with_value ''sessions.absolute_lifetime'' (ParseDuration v)
        (\<lambda>d. c\<lparr>cfg_Sessions := (cfg_Sessions c)\<lparr>SessionLifetime := d\<rparr>\<rparr>)),
     (''demo'', \<lambda>v c. with_value ''demo'' (ParseBool v) (\<lambda>b. c\<lparr>cfg_Demo := b\<rparr>))]"

type_synonym value_map = "(string \<times> string) list"

definition set_value :: "settings_lib \<Rightarrow> string \<times> string \<Rightarrow> Config \<Rightarrow> Config result" where
  "set_value lib kv c =
    (case map_of (setters lib) (fst kv) of None \<Rightarrow> Inl (ErrMsg (''unknown key '' @ fst kv)) | Some f \<Rightarrow> f (snd kv) c)"

definition apply_values :: "settings_lib \<Rightarrow> value_map \<Rightarrow> Config \<Rightarrow> Config result" where
  "apply_values lib values c =
    fold_result (set_value lib) values
      (case map_of values ''retention.preset'' of None \<Rightarrow> c | Some v \<Rightarrow> on_retention (\<lambda>r. r\<lparr>Preset := to_lower v\<rparr>) c)"

definition ResolveOverrides :: "settings_lib \<Rightarrow> Config \<Rightarrow> value_map \<Rightarrow> Config result" where
  "ResolveOverrides lib base values =
    bind_result
      (case map_of values ''retention.preset'' of
         None \<Rightarrow> Inr base
       | Some name \<Rightarrow>
           if name = ''advanced'' then Inr base
           else (case RetentionPreset (to_lower name) of
                   None \<Rightarrow> Inl (ErrMsg (''unknown retention preset '' @ name))
                 | Some preset \<Rightarrow> Inr (base\<lparr>cfg_Retention := preset\<rparr>)))
      (\<lambda>resolved. bind_result (apply_values lib values resolved)
      (\<lambda>resolved. let resolved = Normalize resolved
         in bind_result (Validate_config lib resolved) (\<lambda>_. Inr resolved)))"

end
