(* ===== verification/Settings_Load.thy ===== *)
theory Settings_Load
  imports Settings_Config
begin

section \<open>Loading the configuration\<close>

text \<open>
  \<^verbatim>\<open>internal/settings/load.go\<close>: the configuration is the defaults, changed by an optional file, then by
  the environment, then by overrides. The environment is a function that is empty where a
  variable is not set. The TOML decoder is a parameter: a file is a tree whose leaves are the
  text that \<open>fmt.Sprint\<close> gives for their values. The decoder fills a map of any shape, so it
  leaves no key undecoded.
\<close>

datatype Source = SourceDefault | SourceFile | SourceEnvironment | SourceAdmin

record Effective =
  eff_Value :: string
  eff_Source :: Source
  eff_Secret :: bool
  eff_RestartRequired :: bool

datatype toml = TValue string | TTable "(string \<times> toml) list"

record file_system =
  toml_file :: "string \<Rightarrow> (string \<times> toml) list result"
  read_file :: "string \<Rightarrow> string result"
  regular_file :: "string \<Rightarrow> bool"

definition Discover :: "(string \<Rightarrow> string) \<Rightarrow> (string \<Rightarrow> bool) \<Rightarrow> string" where
  "Discover getenv exists =
    (if getenv ''BINNACLE_CONFIG_FILE'' \<noteq> [] then getenv ''BINNACLE_CONFIG_FILE''
     else case find exists [''/etc/binnacle/binnacle.toml'', ''/var/lib/binnacle/binnacle.toml''] of None \<Rightarrow> [] | Some p \<Rightarrow> p)"

definition environment :: "(string \<times> string) list" where
  "environment =
    [(''BINNACLE_DATA_DIR'', ''paths.data_dir''), (''BINNACLE_DATABASE_PATH'', ''paths.database_path''),
     (''BINNACLE_RUNTIME_DIR'', ''paths.runtime_dir''), (''BINNACLE_HOST_PROC'', ''paths.host_proc''), (''BINNACLE_HOST_SYS'', ''paths.host_sys''),
     (''BINNACLE_MASTER_KEY'', ''paths.master_key''), (''BINNACLE_MASTER_KEY_FILE'', ''paths.master_key_file''),
     (''BINNACLE_LISTEN_ADDRESS'', ''http.listen_address''), (''BINNACLE_TRUSTED_PROXY_CIDRS'', ''http.trusted_proxy_cidrs''),
     (''BINNACLE_HOST_INTERVAL'', ''collection.host_interval''), (''BINNACLE_CONTAINER_INTERVAL'', ''collection.container_interval''),
     (''BINNACLE_MINIMUM_INTERVAL'', ''collection.minimum_interval''), (''BINNACLE_SSE_INTERVAL'', ''live.sse_interval''),
     (''BINNACLE_RAW_INTERVAL'', ''persistence.raw_interval''), (''BINNACLE_QUEUE_BATCH_LIMIT'', ''persistence.queue_batch_limit''),
     (''BINNACLE_RETENTION_PRESET'', ''retention.preset''), (''BINNACLE_RETENTION_RAW'', ''retention.raw''),
     (''BINNACLE_RETENTION_ONE_MINUTE'', ''retention.one_minute''), (''BINNACLE_RETENTION_FIFTEEN_MINUTE'', ''retention.fifteen_minute''),
     (''BINNACLE_RETENTION_ONE_HOUR'', ''retention.one_hour''), (''BINNACLE_DATABASE_TARGET_BUDGET_BYTES'', ''database.target_budget_bytes''),
     (''BINNACLE_DATABASE_WARNING_RATIO'', ''database.warning_ratio''), (''BINNACLE_DATABASE_CRITICAL_RATIO'', ''database.critical_ratio''),
     (''BINNACLE_DATABASE_EMERGENCY_PAUSE_RATIO'', ''database.emergency_pause_ratio''),
     (''BINNACLE_CHARTS_MAX_POINTS'', ''charts.max_points_per_series''), (''BINNACLE_DOCKER_SOCKET'', ''docker.socket_path''),
     (''BINNACLE_DOCKER_MAX_CONCURRENCY'', ''docker.max_concurrency''), (''BINNACLE_CHECKS_MAX_CONCURRENCY'', ''checks.max_concurrency''),
     (''BINNACLE_NOTIFICATIONS_ALLOW_PRIVATE_TARGETS'', ''notifications.allow_private_targets''),
     (''BINNACLE_NOTIFICATIONS_MAX_CONCURRENCY'', ''notifications.max_concurrency''),
     (''BINNACLE_NOTIFICATIONS_QUEUE_CAPACITY'', ''notifications.queue_capacity''),
     (''BINNACLE_NOTIFICATIONS_DELIVERY_TIMEOUT'', ''notifications.delivery_timeout''),
     (''BINNACLE_NOTIFICATIONS_REMINDER_INTERVAL'', ''notifications.reminder_interval''),
     (''BINNACLE_LOGS_MAX_RESPONSE_BYTES'', ''logs.max_response_bytes''), (''BINNACLE_LOGS_MAX_LINES'', ''logs.max_lines''),
     (''BINNACLE_LOGS_REDACTION_PATTERNS'', ''logs.redaction_patterns''), (''BINNACLE_SESSION_IDLE_TIMEOUT'', ''sessions.idle_timeout''),
     (''BINNACLE_SESSION_ABSOLUTE_LIFETIME'', ''sessions.absolute_lifetime''), (''BINNACLE_DEMO'', ''demo'')]"

definition coolify_environment :: "(string \<times> string) list" where
  "coolify_environment = [(''BINNACLE_COOLIFY_URL'', ''coolify.url''), (''BINNACLE_COOLIFY_API_TOKEN_FILE'', ''coolify.api_token_file''),
     (''BINNACLE_COOLIFY_ALLOW_INSECURE_HTTP'', ''coolify.allow_insecure_http'')]"

definition auth_environment :: "(string \<times> string) list" where
  "auth_environment = [(''BINNACLE_AUTH_MODE'', ''auth.mode''), (''BINNACLE_AUTH_PROXY_CIDRS'', ''auth.proxy_cidrs''),
     (''BINNACLE_AUTH_IDENTITY_HEADER'', ''auth.identity_header''), (''BINNACLE_AUTH_ALLOWED_SUBJECT'', ''auth.allowed_subject'')]"

definition feature_environment :: "(string \<times> string) list" where
  "feature_environment = [(''BINNACLE_FEATURE_ADVANCED_AUTH'', ''features.advanced_auth''), (''BINNACLE_FEATURE_PORTABILITY'', ''features.portability'')]"

definition supported :: "string list" where
  "supported = map snd environment @ [''paths.host_passwd'', ''coolify.url'', ''coolify.api_token'', ''coolify.api_token_file'',
     ''coolify.allow_insecure_http'', ''auth.mode'', ''auth.proxy_cidrs'', ''auth.identity_header'', ''auth.allowed_subject'',
     ''prometheus.enabled'', ''features.advanced_auth'', ''features.portability'']"

fun flatten :: "string \<Rightarrow> (string \<times> toml) list \<Rightarrow> value_map" where
  "flatten prefix [] = []"
| "flatten prefix ((k, TTable child) # rest) =
    flatten (if prefix = [] then k else prefix @ ''.'' @ k) child @ flatten prefix rest"
| "flatten prefix ((k, TValue v) # rest) =
    (if prefix = [] then k else prefix @ ''.'' @ k, v) # flatten prefix rest"

text \<open>A map is kept in the order of its keys; of two entries with one key the later one counts.\<close>

definition map_put :: "string \<times> 'v \<Rightarrow> (string \<times> 'v) list \<Rightarrow> (string \<times> 'v) list" where
  "map_put kv m = sort_key fst (kv # filter (\<lambda>e. fst e \<noteq> fst kv) m)"

definition readTOML :: "file_system \<Rightarrow> string \<Rightarrow> value_map result" where
  "readTOML fs path =
    bind_result (toml_file fs path) (\<lambda>raw.
      let out = fold map_put (flatten [] raw) []
      in case find (\<lambda>kv. fst kv \<notin> set supported) out of
           Some kv \<Rightarrow> Inl (ErrMsg (''unknown key '' @ fst kv @ '' in '' @ path))
         | None \<Rightarrow> Inr out)"

definition lookup :: "settings_lib \<Rightarrow> Config \<Rightarrow> string \<Rightarrow> string" where
  "lookup lib c key =
    (let p = cfg_Paths c; k = cfg_Coolify c; a = cfg_Auth c; n = cfg_Notifications c; d = cfg_Database c; r = cfg_Retention c;
         values =
       [(''paths.data_dir'', DataDir p), (''paths.database_path'', DatabasePath p), (''paths.runtime_dir'', RuntimeDir p),
        (''paths.host_proc'', HostProc p), (''paths.host_sys'', HostSys p), (''http.listen_address'', ListenAddress (cfg_HTTP c)),
        (''paths.host_passwd'', HostPasswd p), (''paths.master_key_file'', MasterKeyFile p), (''coolify.url'', CoolifyURL k),
        (''coolify.api_token_file'', APITokenFile k), (''coolify.allow_insecure_http'', FormatBool (AllowInsecureHTTP k)),
        (''auth.mode'', Mode a), (''auth.proxy_cidrs'', join_with '','' (ProxyCIDRs a)), (''auth.identity_header'', IdentityHeader a),
        (''auth.allowed_subject'', AllowedSubject a), (''prometheus.enabled'', FormatBool (cfg_Prometheus c)),
        (''features.advanced_auth'', FormatBool (AdvancedAuth (cfg_Features c))), (''features.portability'', FormatBool (Portability (cfg_Features c))),
        (''http.trusted_proxy_cidrs'', join_with '','' (TrustedProxyCIDRs (cfg_HTTP c))), (''docker.socket_path'', cfg_DockerSocketPath c),
        (''collection.host_interval'', Duration_String (HostInterval (cfg_Collection c))),
        (''collection.container_interval'', Duration_String (ContainerInterval (cfg_Collection c))),
        (''collection.minimum_interval'', Duration_String (MinimumInterval (cfg_Collection c))),
        (''live.sse_interval'', Duration_String (cfg_SSEInterval c)),
        (''persistence.raw_interval'', Duration_String (RawInterval (cfg_Persistence c))),
        (''persistence.queue_batch_limit'', show_int (QueueBatchLimit (cfg_Persistence c))),
        (''retention.preset'', Preset r), (''retention.raw'', Duration_String (Raw r)), (''retention.one_minute'', Duration_String (OneMinute r)),
        (''retention.fifteen_minute'', Duration_String (FifteenMinute r)), (''retention.one_hour'', Duration_String (OneHour r)),
        (''database.target_budget_bytes'', show_int (TargetBudgetBytes d)), (''database.warning_ratio'', format_float lib (WarningRatio d)),
        (''database.critical_ratio'', format_float lib (CriticalRatio d)), (''database.emergency_pause_ratio'', format_float lib (EmergencyPauseRatio d)),
        (''charts.max_points_per_series'', show_int (cfg_MaxPointsPerSeries c)), (''docker.max_concurrency'', show_int (cfg_DockerConcurrency c)),
        (''checks.max_concurrency'', show_int (cfg_ChecksConcurrency c)), (''logs.max_response_bytes'', show_int (MaxResponseBytes (cfg_Logs c))),
        (''notifications.allow_private_targets'', FormatBool (AllowPrivateTargets n)),
        (''notifications.max_concurrency'', show_int (NotifyConcurrency n)), (''notifications.queue_capacity'', show_int (QueueCapacity n)),
        (''notifications.delivery_timeout'', Duration_String (DeliveryTimeout n)),
        (''notifications.reminder_interval'', Duration_String (ReminderInterval n)),
        (''logs.max_lines'', show_int (MaxLines (cfg_Logs c))), (''sessions.idle_timeout'', Duration_String (SessionIdle (cfg_Sessions c))),
        (''sessions.absolute_lifetime'', Duration_String (SessionLifetime (cfg_Sessions c))), (''demo'', FormatBool (cfg_Demo c))]
     in case map_of values key of Some v \<Rightarrow> v | None \<Rightarrow> ''configured'')"

type_synonym sources = "string \<Rightarrow> Source option"

definition effective :: "settings_lib \<Rightarrow> Config \<Rightarrow> sources \<Rightarrow> string \<Rightarrow> Effective option" where
  "effective lib c sources key =
    (if key \<in> set supported
     then let secret = (key \<in> {''paths.master_key'', ''coolify.api_token'', ''auth.allowed_subject''})
       in Some \<lparr>eff_Value = if secret then ''configured'' else lookup lib c key,
            eff_Source = (case sources key of None \<Rightarrow> SourceDefault | Some s \<Rightarrow> s),
            eff_Secret = secret, eff_RestartRequired = \<not> UIOverridable key\<rparr>
     else None)"

definition resolveMasterKeyFile :: "file_system \<Rightarrow> Config \<Rightarrow> Config result" where
  "resolveMasterKeyFile fs c =
    (let p = cfg_Paths c
     in if MasterKeyFile p = [] then Inr c
        else if MasterKey p \<noteq> [] then Inl (ErrMsg ''paths.master_key and paths.master_key_file cannot both be configured'')
        else if \<not> IsAbs (MasterKeyFile p) then Inl (ErrMsg ''paths.master_key_file must be an absolute path'')
        else case read_file fs (MasterKeyFile p) of
               Inl e \<Rightarrow> Inl e
             | Inr raw \<Rightarrow>
               if \<not> regular_file fs (MasterKeyFile p) then Inl (ErrMsg ''master key file must be a regular file'')
               else if 4096 < length raw then Inl (ErrMsg ''master key file is too large'')
               else let key = trim_right raw [CHR 0x0D, CHR 0x0A]
                 in if key = [] then Inl (ErrMsg ''master key file is empty'')
                    else Inr (on_paths (\<lambda>p. p\<lparr>MasterKey := key, masterKeyLoadedFromFile := True\<rparr>) c))"

text \<open>One variable of the environment: an empty one is skipped.\<close>

definition apply_env :: "settings_lib \<Rightarrow> (string \<Rightarrow> string) \<Rightarrow> string \<times> string \<Rightarrow> Config \<times> sources \<Rightarrow> (Config \<times> sources) result" where
  "apply_env lib getenv ek s =
    (let value = getenv (fst ek)
     in if value = [] then Inr s
        else bind_result (apply_values lib [(snd ek, value)] (fst s)) (\<lambda>c. Inr (c, (snd s)(snd ek \<mapsto> SourceEnvironment))))"

definition load_file :: "settings_lib \<Rightarrow> file_system \<Rightarrow> string \<Rightarrow> Config \<Rightarrow> (Config \<times> sources) result" where
  "load_file lib fs path c =
    (if path = [] then Inr (c, Map.empty)
     else bind_result (readTOML fs path) (\<lambda>values.
       bind_result (apply_values lib values c) (\<lambda>c. Inr (c, \<lambda>k. if k \<in> fst ` set values then Some SourceFile else None))))"

definition load_token :: "file_system \<Rightarrow> (string \<Rightarrow> string) \<Rightarrow> Config \<times> sources \<Rightarrow> (Config \<times> sources) result" where
  "load_token fs getenv s =
    (let token = trim_space (getenv ''BINNACLE_COOLIFY_API_TOKEN'');
         (c, src) = (if token \<noteq> [] then ((fst s)\<lparr>cfg_Coolify := (cfg_Coolify (fst s))\<lparr>APITokenText := token\<rparr>\<rparr>,
             (snd s)(''coolify.api_token'' \<mapsto> SourceEnvironment)) else s);
         k = cfg_Coolify c
     in if APITokenText k = [] \<and> APITokenFile k \<noteq> []
        then bind_result (read_file fs (APITokenFile k)) (\<lambda>raw.
          if 4096 < length raw then Inl (ErrMsg ''Coolify token file is too large'')
          else Inr (c\<lparr>cfg_Coolify := k\<lparr>APITokenText := trim_space raw\<rparr>\<rparr>, src))
        else Inr (c, src))"

definition apply_override :: "settings_lib \<Rightarrow> string \<times> string \<Rightarrow> Config \<times> sources \<Rightarrow> (Config \<times> sources) result" where
  "apply_override lib kv s =
    (if \<not> UIOverridable (fst kv) then Inl (ErrMsg (''UI override for '' @ fst kv @ '' is not allowed''))
     else bind_result (apply_values lib [kv] (fst s)) (\<lambda>c. Inr (c, (snd s)(fst kv \<mapsto> SourceAdmin))))"

definition LoadWith :: "settings_lib \<Rightarrow> file_system \<Rightarrow> (string \<Rightarrow> string) \<Rightarrow> (string \<Rightarrow> bool) \<Rightarrow> value_map result \<Rightarrow>
    (Config \<times> (string \<Rightarrow> Effective option)) result" where
  "LoadWith lib fs getenv exists provider =
    bind_result (load_file lib fs (Discover getenv exists) Defaults) (\<lambda>s.
    bind_result (fold_result (apply_env lib getenv)
      (environment @ [(''BINNACLE_HOST_PASSWD'', ''paths.host_passwd'')] @ coolify_environment @ auth_environment @
       [(''BINNACLE_PROMETHEUS_ENABLED'', ''prometheus.enabled'')] @ feature_environment) s) (\<lambda>s.
    bind_result (load_token fs getenv s) (\<lambda>(c, src).
    bind_result (resolveMasterKeyFile fs c) (\<lambda>c.
    let src = (if MasterKeyFile (cfg_Paths c) \<noteq> [] then src(''paths.master_key'' := src ''paths.master_key_file'') else src)
    in bind_result provider (\<lambda>overrides.
    bind_result (fold_result (apply_override lib) overrides (c, src)) (\<lambda>(c, src).
    let c = Normalize c
    in bind_result (Validate_config lib c) (\<lambda>_. Inr (c, effective lib c src))))))))"

end
