(* ===== verification/Settings_Service.thy ===== *)
theory Settings_Service
  imports Settings_Load Storage_Writer Auth_Sessions
begin

section \<open>The settings service\<close>

text \<open>
  \<^verbatim>\<open>internal/settings/store.go\<close>: overrides are rows of the table \<^verbatim>\<open>settings\<close>, with a revision in
  \<^verbatim>\<open>application_metadata\<close> and an audit table. The service holds the deployment configuration and the
  one in force. Its methods run under a lock, and \<open>Patch\<close> in one transaction. The function that
  \<open>main\<close> installs for changes is \<open>apply_config\<close> below; \<open>svc_applied\<close> records what it was called with.
\<close>

record setting_row =
  set_key :: string
  set_value_json :: string
  set_updated_at :: int
  set_updated_by :: string

record audit_row =
  aud_revision :: int
  aud_setting_key :: string
  aud_previous :: "string option"
  aud_new :: string
  aud_actor :: string
  aud_changed_at :: int

record service =
  svc_rows :: "setting_row list"
  svc_audit :: "audit_row list"
  svc_metadata :: "(string \<times> string) list"
  svc_base :: Config
  svc_effective :: "string \<Rightarrow> Effective option"
  svc_current :: Config
  svc_applied :: "Config list"

definition ErrRevisionConflict :: go_error where
  "ErrRevisionConflict = ErrMsg ''settings revision conflict''"

fun decode_rows :: "settings_lib \<Rightarrow> setting_row list \<Rightarrow> value_map result" where
  "decode_rows lib [] = Inr []"
| "decode_rows lib (r # rows) =
    (case json_unstring lib (set_value_json r) of
       None \<Rightarrow> Inl (ErrMsg (''decode setting '' @ set_key r))
     | Some v \<Rightarrow> bind_result (decode_rows lib rows) (\<lambda>m. Inr ((set_key r, v) # m)))"

definition overrides :: "settings_lib \<Rightarrow> service \<Rightarrow> value_map result" where
  "overrides lib s = decode_rows lib (sort_key set_key (svc_rows s))"

definition revision :: "service \<Rightarrow> int result" where
  "revision s =
    (case map_of (svc_metadata s) ''settings_revision'' of
       None \<Rightarrow> Inl ErrNoRows
     | Some raw \<Rightarrow> (case atoi raw of None \<Rightarrow> Inl (ErrMsg ''strconv.ParseInt'') | Some i \<Rightarrow> Inr i))"

definition NewService :: "setting_row list \<Rightarrow> audit_row list \<Rightarrow> (string \<times> string) list \<Rightarrow> Config \<Rightarrow> (string \<Rightarrow> Effective option) \<Rightarrow> service" where
  "NewService rows audit meta base eff =
    \<lparr>svc_rows = rows, svc_audit = audit, svc_metadata = meta, svc_base = base, svc_effective = eff, svc_current = base, svc_applied = []\<rparr>"

definition Initialize_settings :: "settings_lib \<Rightarrow> service \<Rightarrow> service outcome" where
  "Initialize_settings lib s =
    (case bind_result (overrides lib s) (ResolveOverrides lib (svc_base s)) of
       Inl e \<Rightarrow> (s, Some e)
     | Inr c \<Rightarrow> (s\<lparr>svc_current := c, svc_applied := svc_applied s @ [c]\<rparr>, None))"

datatype ApplyMode = ApplyLive | ApplyRestart

definition editable :: "string list" where
  "editable = [''collection.host_interval'', ''collection.container_interval'', ''persistence.raw_interval'', ''retention.preset'',
     ''retention.raw'', ''retention.one_minute'', ''retention.fifteen_minute'', ''retention.one_hour'', ''database.target_budget_bytes'',
     ''charts.max_points_per_series'', ''sessions.idle_timeout'', ''sessions.absolute_lifetime'']"

definition visible :: "(string \<times> ApplyMode) list" where
  "visible = [(''paths.data_dir'', ApplyRestart), (''http.listen_address'', ApplyRestart), (''docker.socket_path'', ApplyRestart),
     (''paths.host_proc'', ApplyRestart), (''paths.host_sys'', ApplyRestart)] @ map (\<lambda>k. (k, ApplyLive)) editable"

record SettingView =
  view_Value :: string
  view_Source :: Source
  view_ApplyMode :: ApplyMode

record settings_snapshot =
  ss_Revision :: int
  ss_Values :: "(string \<times> SettingView) list"
  ss_Features :: Features

definition view_of :: "settings_lib \<Rightarrow> service \<Rightarrow> value_map \<Rightarrow> Config \<Rightarrow> string \<times> ApplyMode \<Rightarrow> string \<times> SettingView" where
  "view_of lib s over c km =
    (let source = (case svc_effective s (fst km) of None \<Rightarrow> SourceDefault | Some e \<Rightarrow> eff_Source e);
         source = (if map_of over (fst km) \<noteq> None then SourceAdmin else source)
     in (fst km, \<lparr>view_Value = lookup lib c (fst km), view_Source = source, view_ApplyMode = snd km\<rparr>))"

definition Snapshot_settings :: "settings_lib \<Rightarrow> service \<Rightarrow> settings_snapshot result" where
  "Snapshot_settings lib s =
    bind_result (overrides lib s) (\<lambda>over.
    bind_result (revision s) (\<lambda>rv.
    bind_result (ResolveOverrides lib (svc_base s) over) (\<lambda>c.
      Inr \<lparr>ss_Revision = rv, ss_Values = map (view_of lib s over c) visible, ss_Features = cfg_Features c\<rparr>)))"

definition snapshotLocked :: "settings_lib \<Rightarrow> service \<Rightarrow> settings_snapshot result" where
  "snapshotLocked lib s =
    bind_result (overrides lib s) (\<lambda>over.
    bind_result (revision s) (\<lambda>rv.
      Inr \<lparr>ss_Revision = rv, ss_Values = map (view_of lib s over (svc_current s)) visible, ss_Features = cfg_Features (svc_current s)\<rparr>))"

text \<open>
  \<open>Patch\<close>. \<open>changes\<close> is a map, so its keys are distinct; \<open>now\<close> is the current time in milliseconds.
  \<open>write_change\<close> is the body of the loop over the changes. The argument \<open>committed\<close> is what
  \<open>tx.Commit\<close> returns.
\<close>

definition write_change :: "settings_lib \<Rightarrow> int \<Rightarrow> int \<Rightarrow> string \<Rightarrow> value_map \<Rightarrow> string \<times> string \<Rightarrow> service \<Rightarrow> service" where
  "write_change lib now rv actor current kv s =
    (let raw = json_string lib (snd kv);
         previous = map_option (json_string lib) (map_of current (fst kv));
         rows = upsert (\<lambda>r. set_key r = fst kv)
           (\<lambda>r. r\<lparr>set_value_json := raw, set_updated_at := now, set_updated_by := actor\<rparr>)
           \<lparr>set_key = fst kv, set_value_json = raw, set_updated_at = now, set_updated_by = actor\<rparr> (svc_rows s)
     in s\<lparr>svc_rows := rows,
          svc_audit := svc_audit s @ [\<lparr>aud_revision = rv, aud_setting_key = fst kv, aud_previous = previous, aud_new = raw,
            aud_actor = actor, aud_changed_at = now\<rparr>]\<rparr>)"

definition write_revision :: "int \<Rightarrow> service \<Rightarrow> service" where
  "write_revision rv s =
    s\<lparr>svc_metadata := map (\<lambda>kv. if fst kv = ''settings_revision'' then (fst kv, show_int rv) else kv) (svc_metadata s)\<rparr>"

definition Patch :: "settings_lib \<Rightarrow> go_error option \<Rightarrow> int \<Rightarrow> int \<Rightarrow> value_map \<Rightarrow> string \<Rightarrow> service \<Rightarrow> service \<times> settings_snapshot result" where
  "Patch lib committed now expected changes actor s =
    (if changes = [] \<or> 16 < length changes then (s, Inl (ErrMsg ''one to sixteen settings changes are required''))
     else case find (\<lambda>kv. fst kv \<notin> set editable \<or> \<not> UIOverridable (fst kv)) changes of
       Some kv \<Rightarrow> (s, Inl (ErrMsg (''setting '' @ fst kv @ '' is not editable'')))
     | None \<Rightarrow>
       (case bind_result (revision s) (\<lambda>rv.
          if rv \<noteq> expected then Inl ErrRevisionConflict
          else bind_result (overrides lib s) (\<lambda>current.
            bind_result (ResolveOverrides lib (svc_base s) (fold map_put changes current)) (\<lambda>c. Inr (rv, current, c)))) of
          Inl e \<Rightarrow> (s, Inl e)
        | Inr (rv, current, c) \<Rightarrow>
          (case committed of
             Some e \<Rightarrow> (s, Inl e)
           | None \<Rightarrow>
             let s = write_revision (rv + 1) (fold (write_change lib now (rv + 1) actor current) changes s);
                 s = s\<lparr>svc_current := c, svc_applied := svc_applied s @ [c]\<rparr>
             in (s, snapshotLocked lib s))))"

text \<open>
  \<open>SetRetentionPreset\<close> tries three times. Other requests may run between its calls: \<open>others n\<close> is
  what they do to the service before the \<open>n\<close>-th patch.
\<close>

fun preset_attempts :: "settings_lib \<Rightarrow> nat \<Rightarrow> nat \<Rightarrow> (nat \<Rightarrow> service \<Rightarrow> service) \<Rightarrow> int \<Rightarrow> string \<Rightarrow> string \<Rightarrow> service \<Rightarrow> service outcome" where
  "preset_attempts lib 0 n others now preset actor s = (s, Some ErrRevisionConflict)"
| "preset_attempts lib (Suc k) n others now preset actor s =
    (case Snapshot_settings lib s of
       Inl e \<Rightarrow> (s, Some e)
     | Inr snap \<Rightarrow>
       (case Patch lib None now (ss_Revision snap) [(''retention.preset'', preset)] actor (others n s) of
          (s', Inr _) \<Rightarrow> (s', None)
        | (s', Inl e) \<Rightarrow> if e = ErrRevisionConflict then preset_attempts lib k (Suc n) others now preset actor s' else (s', Some e)))"

definition SetRetentionPreset :: "settings_lib \<Rightarrow> (nat \<Rightarrow> service \<Rightarrow> service) \<Rightarrow> int \<Rightarrow> string \<Rightarrow> string \<Rightarrow> service \<Rightarrow> service outcome" where
  "SetRetentionPreset lib others now preset actor s =
    (if Preset (cfg_Retention (svc_current s)) = preset then (s, None)
     else if RetentionPreset preset = None then (s, Some (ErrMsg ''retention preset is invalid''))
     else preset_attempts lib 3 0 others now preset actor s)"

text \<open>\<open>cmd/binnacle/main.go\<close>: what a changed configuration does to the running program.\<close>

definition retention_of :: "Config \<Rightarrow> RetentionCutoffs" where
  "retention_of c = (let r = cfg_Retention c
    in \<lparr>rc_Raw = Raw r, rc_OneMinute = OneMinute r, rc_FifteenMinute = FifteenMinute r, rc_OneHour = OneHour r\<rparr>)"

definition apply_config :: "Config \<Rightarrow> SessionConfig \<times> manager \<Rightarrow> SessionConfig \<times> manager" where
  "apply_config c sm =
    (SetConfig \<lparr>IdleTimeout = SessionIdle (cfg_Sessions c), AbsoluteLifetime = SessionLifetime (cfg_Sessions c)\<rparr> (fst sm),
     SetRetention (retention_of c) (snd sm))"

end
