(* ===== verification/Settings_Properties.thy ===== *)
theory Settings_Properties
  imports Settings_Service
begin

section \<open>What the settings service guarantees\<close>

subsection \<open>Validation\<close>

lemma require_Inr [simp]: "(require ok msg rest = Inr ()) = (ok \<and> rest = Inr ())"
  by (simp add: require_def)

lemma require_paths_Inr [simp]:
  "(require_paths ps rest = Inr ()) = (list_all (\<lambda>p. snd p \<noteq> [] \<and> IsAbs (snd p)) ps \<and> rest = Inr ())"
  by (induction ps) auto

lemma require_positive_Inr [simp]: "(require_positive ds rest = Inr ()) = (list_all (\<lambda>d. 0 < snd d) ds \<and> rest = Inr ())"
  by (induction ds) auto

lemma Normalize_fields [simp]:
  "cfg_Collection (Normalize c) = cfg_Collection c" "cfg_Persistence (Normalize c) = cfg_Persistence c"
  "cfg_Retention (Normalize c) = cfg_Retention c" "cfg_Database (Normalize c) = cfg_Database c"
  "cfg_Notifications (Normalize c) = cfg_Notifications c" "cfg_Sessions (Normalize c) = cfg_Sessions c"
  "cfg_Auth (Normalize c) = cfg_Auth c" "cfg_Features (Normalize c) = cfg_Features c"
  "cfg_Logs (Normalize c) = cfg_Logs c"
  by (simp_all add: Normalize_def Let_def)


lemma LoadWith_valid: "LoadWith lib fs getenv exists provider = Inr (c, eff) \<Longrightarrow> Validate_config lib c = Inr ()"
  by (auto simp: LoadWith_def Let_def bind_result_Inr split: prod.splits)

subsection \<open>Patches\<close>

lemma Patch_effect:
  assumes "Patch lib committed now expected changes actor s = (s', r)" and "s' \<noteq> s"
  obtains current c where "committed = None" and "revision s = Inr expected" and "overrides lib s = Inr current"
    and "ResolveOverrides lib (svc_base s) (fold map_put changes current) = Inr c"
    and "s' = (write_revision (expected + 1) (fold (write_change lib now (expected + 1) actor current) changes s))
      \<lparr>svc_current := c, svc_applied := svc_applied s @ [c]\<rparr>"
proof -
  have app: "svc_applied (write_revision n (fold (write_change lib now k actor m) xs t)) = svc_applied t" for n k m xs t
    by (induction xs arbitrary: t) (simp_all add: write_revision_def write_change_def Let_def)
  show ?thesis
    using assms that
    by (auto simp: Patch_def Let_def bind_result_Inr app split: if_splits option.splits sum.splits prod.splits)
qed

lemma Patch_unchanged: "fst (Patch lib (Some e) now expected changes actor s) = s"
  by (auto simp: Patch_def split: option.splits sum.splits)

lemma write_changes_frame:
  "svc_base (fold (write_change lib now n actor m) changes s) = svc_base s"
  "svc_metadata (fold (write_change lib now n actor m) changes s) = svc_metadata s"
  "svc_audit (fold (write_change lib now n actor m) changes s) = svc_audit s @
     map (\<lambda>kv. \<lparr>aud_revision = n, aud_setting_key = fst kv, aud_previous = map_option (json_string lib) (map_of m (fst kv)),
       aud_new = json_string lib (snd kv), aud_actor = actor, aud_changed_at = now\<rparr>) changes"
  by (induction changes arbitrary: s) (simp_all add: write_change_def Let_def)

lemma write_revision_frame [simp]:
  "svc_base (write_revision n s) = svc_base s" "svc_rows (write_revision n s) = svc_rows s" "svc_audit (write_revision n s) = svc_audit s"
  by (simp_all add: write_revision_def)



subsection \<open>Restarts\<close>

definition json_law :: "settings_lib \<Rightarrow> bool" where
  "json_law lib = (\<forall>s. json_unstring lib (json_string lib s) = Some s)"

definition entry :: "settings_lib \<Rightarrow> setting_row \<Rightarrow> string \<times> string" where
  "entry lib r = (set_key r, the (json_unstring lib (set_value_json r)))"

lemma fst_entry [simp]: "fst (entry lib r) = set_key r"
  by (simp add: entry_def)

definition readable :: "settings_lib \<Rightarrow> setting_row list \<Rightarrow> bool" where
  "readable lib rows = (distinct (map set_key rows) \<and> list_all (\<lambda>r. json_unstring lib (set_value_json r) \<noteq> None) rows)"

lemma decode_rows_entries:
  "list_all (\<lambda>r. json_unstring lib (set_value_json r) \<noteq> None) rows \<Longrightarrow> decode_rows lib rows = Inr (map (entry lib) rows)"
  by (induction rows) (auto simp: entry_def bind_result_def)

lemma map_sort_key: "map f (sort_key (\<lambda>x. g (f x)) xs) = sort_key g (map f xs)"
proof -
  have "map f (insort_key (\<lambda>x. g (f x)) x ys) = insort_key g (f x) (map f ys)" for x ys
    by (induction ys) auto
  then show ?thesis by (induction xs) simp_all
qed

lemma sort_key_unique:
  assumes "distinct (map fst xs)" and "distinct (map fst ys)" and "set xs = set ys"
  shows "sort_key fst xs = sort_key fst (ys :: (string \<times> 'v) list)"
proof (rule map_sorted_distinct_set_unique [where f = fst])
  show "inj_on fst (set (sort_key fst xs) \<union> set (sort_key fst ys))"
    using assms by (simp add: distinct_map)
qed (use assms in \<open>simp_all add: distinct_map\<close>)

lemma distinct_map_sort_key: "distinct (map f (sort_key g xs)) = distinct (map f xs)"
  by (simp add: distinct_map)

lemma overrides_entries: "readable lib (svc_rows s) \<Longrightarrow> overrides lib s = Inr (sort_key fst (map (entry lib) (svc_rows s)))"
  using map_sort_key [of "entry lib" fst "svc_rows s"] by (simp add: overrides_def readable_def decode_rows_entries list_all_iff)

lemma write_change_overrides:
  assumes "json_law lib" and "readable lib (svc_rows s)" and "overrides lib s = Inr m"
  shows "readable lib (svc_rows (write_change lib now n actor cur kv s)) \<and>
    overrides lib (write_change lib now n actor cur kv s) = Inr (map_put kv m)"
proof -
  let ?rows = "svc_rows s" and ?s = "write_change lib now n actor cur kv s"
  let ?f = "\<lambda>r. r\<lparr>set_value_json := json_string lib (snd kv), set_updated_at := now, set_updated_by := actor\<rparr>"
  let ?r = "\<lparr>set_key = fst kv, set_value_json = json_string lib (snd kv), set_updated_at = now, set_updated_by = actor\<rparr>"
  have dist: "distinct (map set_key ?rows)" and dec: "\<And>r. r \<in> set ?rows \<Longrightarrow> json_unstring lib (set_value_json r) \<noteq> None"
    using assms(2) by (auto simp: readable_def list_all_iff)
  have rows: "svc_rows ?s = upsert (\<lambda>r. set_key r = fst kv) ?f ?r ?rows" by (simp add: write_change_def Let_def)
  have law: "json_unstring lib (json_string lib v) = Some v" for v using assms(1) by (simp add: json_law_def)
  have sets: "set (svc_rows ?s) = (if \<exists>r \<in> set ?rows. set_key r = fst kv
      then (\<lambda>r. if set_key r = fst kv then ?f r else r) ` set ?rows else insert ?r (set ?rows))"
    unfolding rows upsert_def by (simp add: upd_where_def list_ex_iff)
  have keys: "distinct (map set_key (svc_rows ?s))"
  proof -
    have "map set_key (upd_where (\<lambda>r. set_key r = fst kv) ?f xs) = map set_key xs" for xs :: "setting_row list"
      by (induction xs) (auto simp: upd_where_def)
    then show ?thesis using dist by (auto simp: rows upsert_def list_ex_iff)
  qed
  have read: "readable lib (svc_rows ?s)"
    unfolding readable_def list_all_iff using keys dec by (auto simp: sets law split: if_splits)
  have m: "m = sort_key fst (map (entry lib) ?rows)" using assms(3) overrides_entries [OF assms(2)] by simp
  have e: "entry lib (?f r) = kv" if "set_key r = fst kv" for r using that by (simp add: entry_def law)
  have r: "entry lib ?r = kv" by (simp add: entry_def law)
  have image: "entry lib ` set (svc_rows ?s) = insert kv (entry lib ` {r \<in> set ?rows. set_key r \<noteq> fst kv})"
  proof (cases "\<exists>r \<in> set ?rows. set_key r = fst kv")
    case True
    have "(\<lambda>r. entry lib (if set_key r = fst kv then ?f r else r)) ` set ?rows =
        (\<lambda>r. if set_key r = fst kv then kv else entry lib r) ` set ?rows"
      by (rule image_cong) (simp_all add: e)
    also have "\<dots> = insert kv (entry lib ` {r \<in> set ?rows. set_key r \<noteq> fst kv})" using True by (auto simp: image_iff)
    finally show ?thesis unfolding sets if_P [OF True] image_image .
  next
    case False
    then have "{r \<in> set ?rows. set_key r \<noteq> fst kv} = set ?rows" by blast
    then show ?thesis using False by (simp add: sets r)
  qed
  have filtered: "set (kv # filter (\<lambda>x. fst x \<noteq> fst kv) m) = insert kv (entry lib ` {r \<in> set ?rows. set_key r \<noteq> fst kv})"
    by (auto simp: m)
  have "distinct (map fst m)" using dist unfolding m by (simp add: distinct_map_sort_key comp_def)
  then have dm: "distinct (map fst (kv # filter (\<lambda>x. fst x \<noteq> fst kv) m))" by (auto simp: distinct_map_filter)
  have "sort_key fst (map (entry lib) (svc_rows ?s)) = sort_key fst (kv # filter (\<lambda>x. fst x \<noteq> fst kv) m)"
    by (rule sort_key_unique [OF _ dm]) (simp_all only: filtered image set_map, simp add: comp_def keys)
  then show ?thesis using read overrides_entries [OF read] by (simp add: map_put_def)
qed

text \<open>
  A run of the service: it starts with the rows in the database, which \<open>Initialize\<close> resolves, and
  goes on with patches. The table has one row per key.
\<close>

inductive service_run :: "settings_lib \<Rightarrow> Config \<Rightarrow> (string \<Rightarrow> Effective option) \<Rightarrow> service \<Rightarrow> bool" for lib base eff where
  start: "readable lib rows \<Longrightarrow> Initialize_settings lib (NewService rows audit meta base eff) = (s, None) \<Longrightarrow> service_run lib base eff s"
| patch: "service_run lib base eff s \<Longrightarrow> Patch lib committed now expected changes actor s = (s', r) \<Longrightarrow> service_run lib base eff s'"

lemma write_changes_overrides:
  "json_law lib \<Longrightarrow> readable lib (svc_rows s) \<Longrightarrow> overrides lib s = Inr m \<Longrightarrow>
    readable lib (svc_rows (fold (write_change lib now n actor cur) changes s)) \<and>
    overrides lib (fold (write_change lib now n actor cur) changes s) = Inr (fold map_put changes m)"
  by (induction changes arbitrary: s m) (simp_all add: write_change_overrides)

lemma overrides_rows: "svc_rows s = svc_rows t \<Longrightarrow> overrides lib s = overrides lib t"
  by (simp add: overrides_def)

lemma service_run_inv:
  assumes "service_run lib base eff s" and "json_law lib"
  shows "svc_base s = base \<and> readable lib (svc_rows s) \<and>
    (\<exists>m. overrides lib s = Inr m \<and> ResolveOverrides lib base m = Inr (svc_current s))"
  using assms(1)
proof (induction rule: service_run.induct)
  case (start rows audit meta s)
  have r: "bind_result (overrides lib (NewService rows audit meta base eff)) (ResolveOverrides lib base) = Inr (svc_current s)"
    and s: "svc_rows s = rows" "svc_base s = base"
    using start(2) by (auto simp: Initialize_settings_def NewService_def split: sum.splits)
  have "overrides lib s = overrides lib (NewService rows audit meta base eff)"
    by (rule overrides_rows) (simp add: s NewService_def)
  then show ?case using r start(1) s by (auto simp: bind_result_Inr)
next
  case (patch s committed now expected changes actor s' r)
  show ?case
  proof (cases "s' = s")
    case True
    then show ?thesis using patch by simp
  next
    case False
    obtain current c where p: "overrides lib s = Inr current" "ResolveOverrides lib (svc_base s) (fold map_put changes current) = Inr c"
      "s' = (write_revision (expected + 1) (fold (write_change lib now (expected + 1) actor current) changes s))
        \<lparr>svc_current := c, svc_applied := svc_applied s @ [c]\<rparr>"
      by (rule Patch_effect [OF patch(2) False]) blast
    let ?w = "fold (write_change lib now (expected + 1) actor current) changes s"
    have w: "readable lib (svc_rows ?w)" "overrides lib ?w = Inr (fold map_put changes current)"
      using write_changes_overrides [OF assms(2) _ p(1)] patch.IH by blast+
    have "overrides lib s' = overrides lib ?w" by (rule overrides_rows) (simp add: p(3))
    then show ?thesis using w p patch.IH by (simp add: write_changes_frame)
  qed
qed

text \<open>
  C38. Settings survive a restart. After any run of patches, a new process with the same deployment
  configuration and the same database starts without an error and has exactly the
  configuration that was in force before. The JSON library is assumed to read back the strings
  that it has written.
\<close>

theorem settings_survive_restart:
  assumes "service_run lib base eff s" and "json_law lib"
  shows "\<exists>s'. Initialize_settings lib (NewService (svc_rows s) (svc_audit s) (svc_metadata s) base eff) = (s', None) \<and>
    svc_current s' = svc_current s \<and> svc_applied s' = [svc_current s]"
proof -
  obtain m where m: "overrides lib s = Inr m" "ResolveOverrides lib base m = Inr (svc_current s)"
    using service_run_inv [OF assms] by blast
  have "overrides lib (NewService (svc_rows s) (svc_audit s) (svc_metadata s) base eff) = Inr m"
    using m(1) overrides_rows [of "NewService (svc_rows s) (svc_audit s) (svc_metadata s) base eff" s lib] by (simp add: NewService_def)
  then show ?thesis using m(2) by (simp add: Initialize_settings_def NewService_def bind_result_def)
qed


subsection \<open>Retention presets\<close>

definition tiers :: "Config \<Rightarrow> duration \<times> duration \<times> duration \<times> duration" where
  "tiers c = (let r = cfg_Retention c in (Raw r, OneMinute r, FifteenMinute r, OneHour r))"

definition tier_keys :: "string list" where
  "tier_keys = [''retention.raw'', ''retention.one_minute'', ''retention.fifteen_minute'', ''retention.one_hour'']"

lemma with_value_Inr: "(with_value key parsed f = Inr c) = (\<exists>v. parsed = Some v \<and> c = f v)"
  by (auto simp: with_value_def split: option.splits)

definition keeps :: "(Config \<Rightarrow> 'v) \<Rightarrow> (string \<Rightarrow> Config \<Rightarrow> Config result) \<Rightarrow> bool" where
  "keeps g f = (\<forall>v c c'. f v c = Inr c' \<longrightarrow> g c' = g c)"

lemma keeps_intros:
  "(\<And>v c. g (h v c) = g c) \<Longrightarrow> keeps g (\<lambda>v c. Inr (h v c))"
  "(\<And>x v c. g (k x v c) = g c) \<Longrightarrow> keeps g (\<lambda>v c. with_value key (parse v) (\<lambda>x. k x v c))"
  by (auto simp: keeps_def with_value_Inr)

lemmas field_updates = on_paths_def on_retention_def on_notifications_def

lemma setters_keep:
  "list_all (\<lambda>kf. fst kf \<in> set tier_keys \<or> keeps cfg_Retention (snd kf)) (setters lib)"
  "list_all (\<lambda>kf. fst kf = ''retention.raw'' \<or> keeps (\<lambda>c. Raw (cfg_Retention c)) (snd kf)) (setters lib)"
  "list_all (\<lambda>kf. keeps (\<lambda>c. Preset (cfg_Retention c)) (snd kf)) (setters lib)"
  by (simp_all add: setters_def tier_keys_def keeps_intros field_updates)

lemma set_value_keeps:
  assumes "set_value lib kv c = Inr c'"
  shows "fst kv \<notin> set tier_keys \<Longrightarrow> cfg_Retention c' = cfg_Retention c"
    and "fst kv \<noteq> ''retention.raw'' \<Longrightarrow> Raw (cfg_Retention c') = Raw (cfg_Retention c)"
    and "Preset (cfg_Retention c') = Preset (cfg_Retention c)"
proof -
  obtain f where f: "map_of (setters lib) (fst kv) = Some f" "f (snd kv) c = Inr c'"
    using assms by (auto simp: set_value_def split: option.splits)
  note mem = map_of_SomeD [OF f(1)]
  show "fst kv \<notin> set tier_keys \<Longrightarrow> cfg_Retention c' = cfg_Retention c"
    using setters_keep(1) [of lib] mem f(2) by (fastforce simp: list_all_iff keeps_def)
  show "fst kv \<noteq> ''retention.raw'' \<Longrightarrow> Raw (cfg_Retention c') = Raw (cfg_Retention c)"
    using setters_keep(2) [of lib] mem f(2) by (fastforce simp: list_all_iff keeps_def)
  show "Preset (cfg_Retention c') = Preset (cfg_Retention c)"
    using setters_keep(3) [of lib] mem f(2) by (fastforce simp: list_all_iff keeps_def)
qed

lemma set_raw: "set_value lib (''retention.raw'', v) c = Inr c' \<Longrightarrow> ParseDuration v = Some (Raw (cfg_Retention c'))"
  by (auto simp: set_value_def setters_def with_value_Inr on_retention_def)

lemma fold_set_raw:
  "fold_result (set_value lib) vs c = Inr c' \<Longrightarrow> distinct (map fst vs) \<Longrightarrow> map_of vs ''retention.raw'' = Some v \<Longrightarrow>
    ParseDuration v = Some (Raw (cfg_Retention c'))"
proof (induction vs arbitrary: c)
  case Nil
  then show ?case by simp
next
  case (Cons kv vs)
  obtain c1 where c1: "set_value lib kv c = Inr c1" "fold_result (set_value lib) vs c1 = Inr c'"
    using Cons.prems(1) by (auto simp: bind_result_Inr)
  show ?case
  proof (cases "fst kv = ''retention.raw''")
    case True
    have "Raw (cfg_Retention c') = Raw (cfg_Retention c1)"
    proof (rule fold_result_inv [OF c1(2), where P = "\<lambda>x. Raw (cfg_Retention x) = Raw (cfg_Retention c1)"])
      show "Raw (cfg_Retention t') = Raw (cfg_Retention c1)"
        if "x \<in> set vs" "Raw (cfg_Retention t) = Raw (cfg_Retention c1)" "set_value lib x t = Inr t'" for x t t'
      proof -
        have "fst x \<noteq> ''retention.raw''" using Cons.prems(2) True that(1) by (metis distinct.simps(2) image_eqI list.set_map list.simps(9))
        from set_value_keeps(2) [OF that(3) this] that(2) show ?thesis by simp
      qed
    qed simp
    moreover have "kv = (''retention.raw'', v)" using Cons.prems(3) True by (cases kv) simp
    ultimately show ?thesis using set_raw c1(1) by metis
  next
    case False
    have "map_of vs ''retention.raw'' = Some v" using Cons.prems(3) False by (cases kv) simp
    moreover have "distinct (map fst vs)" using Cons.prems(2) by simp
    ultimately show ?thesis using Cons.IH [OF c1(2)] by blast
  qed
qed

lemma resolved_raw:
  assumes "ResolveOverrides lib base m = Inr c" and "distinct (map fst m)" and "map_of m ''retention.raw'' = Some v"
  shows "ParseDuration v = Some (Raw (cfg_Retention c))"
  using assms fold_set_raw [OF _ assms(2,3)]
  by (auto simp: ResolveOverrides_def apply_values_def Let_def bind_result_Inr)

lemma resolved_preset:
  assumes "ResolveOverrides lib base m = Inr c" and "map_of m ''retention.preset'' = Some name"
  shows "Preset (cfg_Retention c) = to_lower name"
proof -
  obtain b c' where f: "fold_result (set_value lib) m (on_retention (\<lambda>r. r\<lparr>Preset := to_lower name\<rparr>) b) = Inr c'" and c: "c = Normalize c'"
    using assms by (auto simp: ResolveOverrides_def apply_values_def Let_def bind_result_Inr)
  have "Preset (cfg_Retention c') = to_lower name"
    by (rule fold_result_inv [OF f, where P = "\<lambda>x. Preset (cfg_Retention x) = to_lower name"])
      (simp add: on_retention_def, metis set_value_keeps(3))
  then show ?thesis by (simp add: c)
qed

lemma map_of_filter_key: "x \<noteq> k \<Longrightarrow> map_of (filter (\<lambda>e. fst e \<noteq> k) m) x = map_of m x"
  by (induction m) auto

lemma map_put_props:
  "distinct (map fst m) \<Longrightarrow> distinct (map fst (map_put kv m)) \<and> map_of (map_put kv m) = (map_of m)(fst kv \<mapsto> snd kv)"
proof -
  assume d: "distinct (map fst m)"
  let ?l = "kv # filter (\<lambda>e. fst e \<noteq> fst kv) m"
  have dl: "distinct (map fst ?l)" using d by (auto simp: distinct_map_filter)
  have ds: "distinct (map fst (sort_key fst ?l))" using dl by (simp only: distinct_map_sort_key)
  have "map_of (sort_key fst ?l) = map_of ?l" using map_of_inject_set [OF ds dl] by (simp only: set_sort)
  moreover have "map_of ?l = (map_of m)(fst kv \<mapsto> snd kv)"
    by (cases kv) (simp add: fun_eq_iff map_of_filter_key)
  ultimately show "distinct (map fst (map_put kv m)) \<and> map_of (map_put kv m) = (map_of m)(fst kv \<mapsto> snd kv)"
    using ds by (simp only: map_put_def)
qed

lemma fold_map_put_props:
  "distinct (map fst m) \<Longrightarrow> distinct (map fst (fold map_put changes m)) \<and>
    (k \<notin> fst ` set changes \<longrightarrow> map_of (fold map_put changes m) k = map_of m k)"
proof (induction changes arbitrary: m)
  case (Cons kv changes)
  then show ?case using map_put_props [of m kv] by simp
qed simp

lemma overrides_distinct: "readable lib (svc_rows s) \<Longrightarrow> overrides lib s = Inr m \<Longrightarrow> distinct (map fst m)"
  by (auto simp: overrides_entries distinct_map_sort_key comp_def readable_def)

text \<open>
  C40. Going back to a named preset does not bring its tiers back. When an override of
  \<^verbatim>\<open>retention.raw\<close> is stored, from a time with the preset \<^verbatim>\<open>advanced\<close>, a patch that selects the
  named preset succeeds and the service reports it, but raw samples are still kept for the time
  of the old override. A patch never removes an override, and tiers are checked with \<^verbatim>\<open>advanced\<close> only.
\<close>

theorem preset_keeps_old_tiers:
  assumes "service_run lib base eff s" and "json_law lib"
    and "overrides lib s = Inr m" and "map_of m ''retention.raw'' = Some v" and "ParseDuration v = Some d"
    and "Patch lib None now expected [(''retention.preset'', name)] actor s = (s', r)" and "s' \<noteq> s"
  shows "Preset (cfg_Retention (svc_current s')) = to_lower name \<and> rc_Raw (retention_of (svc_current s')) = d"
proof -
  obtain current c where p: "overrides lib s = Inr current"
    "ResolveOverrides lib (svc_base s) (fold map_put [(''retention.preset'', name)] current) = Inr c" "svc_current s' = c"
    by (rule Patch_effect [OF assms(6,7)]) simp
  let ?m = "map_put (''retention.preset'', name) m"
  have m: "distinct (map fst m)" using overrides_distinct [OF _ assms(3)] service_run_inv [OF assms(1,2)] by blast
  have res: "ResolveOverrides lib (svc_base s) ?m = Inr c" using p(1,2) assms(3) by simp
  have dm: "distinct (map fst ?m)" and of_m: "map_of ?m = (map_of m)(''retention.preset'' \<mapsto> name)"
    using map_put_props [OF m, of "(''retention.preset'', name)"] by simp_all
  have "ParseDuration v = Some (Raw (cfg_Retention c))" by (rule resolved_raw [OF res dm]) (simp add: of_m assms(4))
  moreover have "Preset (cfg_Retention c) = to_lower name" by (rule resolved_preset [OF res]) (simp add: of_m)
  ultimately show ?thesis using assms(5) by (simp add: p(3) retention_of_def Let_def)
qed

text \<open>
  Retention can be switched off by accident. Under a named preset an override of \<^verbatim>\<open>retention.raw\<close>
  is not checked; with a value of zero, retention removes nothing from any table from then on,
  the rollups of the other tiers included.
\<close>

theorem zero_raw_stops_retention:
  assumes "service_run lib base eff s" and "json_law lib"
    and "Patch lib None now expected [(''retention.raw'', v)] actor s = (s', r)" and "s' \<noteq> s" and "ParseDuration v = Some 0"
  shows "applyRetention cancelled t (retention_of (svc_current s')) aggressive T = (T, None)"
proof -
  obtain current c where p: "overrides lib s = Inr current"
    "ResolveOverrides lib (svc_base s) (fold map_put [(''retention.raw'', v)] current) = Inr c" "svc_current s' = c"
    by (rule Patch_effect [OF assms(3,4)]) simp
  have m: "distinct (map fst current)" using overrides_distinct [OF _ p(1)] service_run_inv [OF assms(1,2)] by blast
  have "ParseDuration v = Some (Raw (cfg_Retention c))"
    by (rule resolved_raw [of lib "svc_base s" "map_put (''retention.raw'', v) current"])
      (use p(2) map_put_props [OF m, of "(''retention.raw'', v)"] in simp_all)
  then show ?thesis using assms(5) by (simp add: p(3) applyRetention_def retention_of_def Let_def)
qed

lemma apply_env_keeps:
  assumes "apply_env lib getenv ek x = Inr x'"
  shows "snd ek \<in> set tier_keys \<Longrightarrow> getenv (fst ek) = [] \<Longrightarrow> x' = x"
    and "snd ek \<notin> set tier_keys \<Longrightarrow> tiers (fst x') = tiers (fst x)"
    and "snd ek \<noteq> ''retention.preset'' \<Longrightarrow> Preset (cfg_Retention (fst x')) = Preset (cfg_Retention (fst x))"
proof -
  have one: "cfg_Retention c' = cfg_Retention c1" if "set_value lib (k, v) c1 = Inr c'" "k \<notin> set tier_keys" for k v c1 c'
    using set_value_keeps(1) [OF that(1)] that(2) by simp
  show "snd ek \<in> set tier_keys \<Longrightarrow> getenv (fst ek) = [] \<Longrightarrow> x' = x" using assms by (simp add: apply_env_def)
  show "snd ek \<notin> set tier_keys \<Longrightarrow> tiers (fst x') = tiers (fst x)"
    using assms by (auto simp: apply_env_def apply_values_def Let_def bind_result_Inr tiers_def on_retention_def dest!: one split: if_splits)
  show "snd ek \<noteq> ''retention.preset'' \<Longrightarrow> Preset (cfg_Retention (fst x')) = Preset (cfg_Retention (fst x))"
    using assms by (auto simp: apply_env_def apply_values_def Let_def bind_result_Inr dest: set_value_keeps(3) split: if_splits)
qed

lemma fold_result_establish:
  assumes "fold_result f xs s = Inr s'" and "x \<in> set xs"
    and "\<And>t t'. f x t = Inr t' \<Longrightarrow> Q t'" and "\<And>y t t'. y \<in> set xs \<Longrightarrow> Q t \<Longrightarrow> f y t = Inr t' \<Longrightarrow> Q t'"
  shows "Q s'"
  using assms
proof (induction xs arbitrary: s)
  case Nil
  then show ?case by simp
next
  case (Cons y xs)
  obtain t where t: "f y s = Inr t" "fold_result f xs t = Inr s'" using Cons.prems(1) by (auto simp: bind_result_Inr)
  show ?case
  proof (cases "x = y")
    case True
    then have "Q t" using Cons.prems(3) t(1) by simp
    then show ?thesis by (rule fold_result_inv [OF t(2)]) (use Cons.prems(4) in auto)
  next
    case False
    show ?thesis
    proof (rule Cons.IH [OF t(2) _ Cons.prems(3)])
      show "x \<in> set xs" using False Cons.prems(2) by simp
      show "Q u'" if "z \<in> set xs" "Q u" "f z u = Inr u'" for z u u' by (rule Cons.prems(4) [OF _ that(2,3)]) (simp add: that(1))
    qed
  qed
qed

definition all_environment :: "(string \<times> string) list" where
  "all_environment = environment @ [(''BINNACLE_HOST_PASSWD'', ''paths.host_passwd'')] @ coolify_environment @ auth_environment @
     [(''BINNACLE_PROMETHEUS_ENABLED'', ''prometheus.enabled'')] @ feature_environment"

lemma environment_keys:
  "list_all (\<lambda>ek. snd ek \<in> set tier_keys \<longrightarrow> fst ek \<in> {''BINNACLE_RETENTION_RAW'', ''BINNACLE_RETENTION_ONE_MINUTE'',
     ''BINNACLE_RETENTION_FIFTEEN_MINUTE'', ''BINNACLE_RETENTION_ONE_HOUR''}) all_environment"
  "list_all (\<lambda>ek. snd ek = ''retention.preset'' \<longrightarrow> fst ek = ''BINNACLE_RETENTION_PRESET'') all_environment"
  "(''BINNACLE_RETENTION_PRESET'', ''retention.preset'') \<in> set all_environment"
  by (simp_all add: all_environment_def environment_def coolify_environment_def auth_environment_def feature_environment_def tier_keys_def)

lemma load_rest_retention:
  "load_token fs getenv x = Inr x' \<Longrightarrow> cfg_Retention (fst x') = cfg_Retention (fst x)"
  "resolveMasterKeyFile fs c = Inr c' \<Longrightarrow> cfg_Retention c' = cfg_Retention c"
  by (auto simp: load_token_def resolveMasterKeyFile_def Let_def bind_result_Inr on_paths_def split: if_splits sum.splits prod.splits)

text \<open>
  A preset that is selected in the environment changes its name only. With
  \<^verbatim>\<open>BINNACLE_RETENTION_PRESET\<close> set and no tier given, the configuration is accepted, names the preset
  and has the tiers of the defaults.
\<close>

theorem env_preset_keeps_tiers:
  assumes "LoadWith lib fs getenv exists (Inr []) = Inr (c, eff)" and "Discover getenv exists = []"
    and "getenv ''BINNACLE_RETENTION_PRESET'' = name" and "name \<noteq> []"
    and "getenv ''BINNACLE_RETENTION_RAW'' = []" and "getenv ''BINNACLE_RETENTION_ONE_MINUTE'' = []"
    and "getenv ''BINNACLE_RETENTION_FIFTEEN_MINUTE'' = []" and "getenv ''BINNACLE_RETENTION_ONE_HOUR'' = []"
  shows "Preset (cfg_Retention c) = to_lower name \<and> tiers c = tiers Defaults"
proof -
  obtain x x1 c1 where env: "fold_result (apply_env lib getenv) all_environment (Defaults, Map.empty) = Inr x"
    and tok: "load_token fs getenv x = Inr x1" and key: "resolveMasterKeyFile fs (fst x1) = Inr c1" and c: "c = Normalize c1"
    using assms(1) by (auto simp: LoadWith_def load_file_def assms(2) all_environment_def Let_def bind_result_Inr split: prod.splits)
  have "cfg_Retention c = cfg_Retention (fst x)"
    using load_rest_retention(1) [OF tok] load_rest_retention(2) [OF key] by (simp add: c)
  moreover have "tiers (fst x) = tiers Defaults"
  proof (rule fold_result_inv [OF env, where P = "\<lambda>x. tiers (fst x) = tiers Defaults"])
    show "tiers (fst t') = tiers Defaults"
      if "ek \<in> set all_environment" "tiers (fst t) = tiers Defaults" "apply_env lib getenv ek t = Inr t'" for ek t t'
    proof (cases "snd ek \<in> set tier_keys")
      case True
      then have "getenv (fst ek) = []" using environment_keys(1) that(1) assms(5-8) by (auto simp: list_all_iff)
      then show ?thesis using apply_env_keeps(1) [OF that(3) True] that(2) by simp
    next
      case False
      then show ?thesis using apply_env_keeps(2) [OF that(3)] that(2) by simp
    qed
  qed simp
  moreover have "Preset (cfg_Retention (fst x)) = to_lower name"
  proof (rule fold_result_establish [OF env environment_keys(3), where Q = "\<lambda>x. Preset (cfg_Retention (fst x)) = to_lower name"])
    show set_it: "Preset (cfg_Retention (fst t')) = to_lower name"
      if "apply_env lib getenv (''BINNACLE_RETENTION_PRESET'', ''retention.preset'') t = Inr t'" for t t'
      using that assms(3,4)
      by (auto simp: apply_env_def apply_values_def Let_def bind_result_Inr on_retention_def dest!: set_value_keeps(3))
    show "Preset (cfg_Retention (fst t')) = to_lower name"
      if "ek \<in> set all_environment" "Preset (cfg_Retention (fst t)) = to_lower name" "apply_env lib getenv ek t = Inr t'" for ek t t'
    proof (cases "snd ek = ''retention.preset''")
      case True
      then have "ek = (''BINNACLE_RETENTION_PRESET'', ''retention.preset'')"
        using environment_keys(2) that(1) by (auto simp: list_all_iff prod_eq_iff)
      then show ?thesis using set_it that(3) by simp
    next
      case False
      then show ?thesis using apply_env_keeps(3) [OF that(3)] that(2) by simp
    qed
  qed
  ultimately show ?thesis by (simp add: tiers_def)
qed

end
