(* ===== verification/Settings_Samples.thy ===== *)
theory Settings_Samples
  imports Settings_Properties
begin

section \<open>Settings on concrete data\<close>

text \<open>
  A library that splits one listen address and quotes strings, the default configuration, and a
  database with one override. The definitions are evaluated with the simplifier.
\<close>

definition sample_lib :: settings_lib where
  "sample_lib =
    \<lparr>set_net = \<lparr>split_host_port = (\<lambda>s. if has_prefix s '':'' then Some ([], tl s) else None), parse_addr = (\<lambda>_. None),
       parse_prefix = (\<lambda>_. None), show_addr = (\<lambda>_. []), url_parse = (\<lambda>_. None), canonical_header = (\<lambda>s. s)\<rparr>,
     set_url = (\<lambda>_. None), parse_float = (\<lambda>_. None), format_float = (\<lambda>_. []),
     json_string = (\<lambda>s. CHR 0x22 # s @ [CHR 0x22]), json_unstring = (\<lambda>s. if s = [] then None else Some (butlast (tl s)))\<rparr>"

lemma sample_json: "json_law sample_lib"
  by (simp add: json_law_def sample_lib_def)

definition sample_rows :: "setting_row list" where
  "sample_rows = [\<lparr>set_key = ''retention.raw'', set_value_json = CHR 0x22 # ''1h'' @ [CHR 0x22], set_updated_at = 0, set_updated_by = ''admin''\<rparr>]"

definition sample_service :: service where
  "sample_service = fst (Initialize_settings sample_lib (NewService sample_rows [] [(''settings_revision'', ''0'')] Defaults (\<lambda>_. None)))"

definition patched :: "value_map \<Rightarrow> service" where
  "patched changes = fst (Patch sample_lib None 1000 0 changes ''admin'' sample_service)"

lemma sample_readable: "readable sample_lib sample_rows"
  by (simp add: readable_def sample_rows_def sample_lib_def)

definition with_retention :: "Retention \<Rightarrow> Config" where
  "with_retention r = Normalize (Defaults\<lparr>cfg_Retention := r\<rparr>)"

lemma sample_valid:
  "Preset r \<in> {''minimal'', ''balanced'', ''long-term''} \<Longrightarrow> Validate_config sample_lib (with_retention r) = Inr ()"
  by (auto simp: Validate_config_def with_retention_def Defaults_def Normalize_def sample_lib_def join_path_def Clean_def clean_step_def
      IsAbs_def has_prefix_def Let_def time_defs)

lemma set_value_simps:
  "set_value lib (''retention.raw'', v) c = with_value ''retention.raw'' (ParseDuration v) (\<lambda>d. on_retention (\<lambda>r. r\<lparr>Raw := d\<rparr>) c)"
  "set_value lib (''retention.preset'', v) c = Inr c"
  by (simp_all add: set_value_def setters_def)

lemma sample_durations: "ParseDuration ''1h'' = Some (hours 1)" "ParseDuration ''0s'' = Some 0"
  by code_simp+

lemma lower_minimal: "to_lower ''minimal'' = ''minimal''"
  by code_simp

definition minimal_tiers :: Retention where
  "minimal_tiers = \<lparr>Preset = ''minimal'', Raw = hours 12, OneMinute = hours (7 * 24), FifteenMinute = hours (90 * 24), OneHour = hours (365 * 24)\<rparr>"

lemma minimal_preset: "RetentionPreset ''minimal'' = Some minimal_tiers"
  by (simp add: RetentionPreset_def minimal_tiers_def)

lemma normalized: "Normalize (Defaults\<lparr>cfg_Retention := r\<rparr>) = with_retention r"
  by (simp add: with_retention_def)

lemma sample_resolved:
  "ParseDuration v = Some d \<Longrightarrow>
    ResolveOverrides sample_lib Defaults [(''retention.raw'', v)] = Inr (with_retention ((cfg_Retention Defaults)\<lparr>Raw := d\<rparr>))"
  "ResolveOverrides sample_lib Defaults [(''retention.preset'', ''minimal''), (''retention.raw'', ''1h'')] =
    Inr (with_retention (minimal_tiers\<lparr>Raw := hours 1\<rparr>))"
proof -
  have "Preset ((cfg_Retention Defaults)\<lparr>Raw := d\<rparr>) \<in> {''minimal'', ''balanced'', ''long-term''}" by (simp add: Defaults_def)
  then show "ParseDuration v = Some d \<Longrightarrow>
    ResolveOverrides sample_lib Defaults [(''retention.raw'', v)] = Inr (with_retention ((cfg_Retention Defaults)\<lparr>Raw := d\<rparr>))"
    using sample_valid
    by (simp add: ResolveOverrides_def apply_values_def bind_result_def set_value_simps with_value_def on_retention_def normalized Let_def)
  have "Preset (minimal_tiers\<lparr>Raw := hours 1\<rparr>) \<in> {''minimal'', ''balanced'', ''long-term''}" by (simp add: minimal_tiers_def)
  then have "Validate_config sample_lib (with_retention (minimal_tiers\<lparr>Raw := hours 1\<rparr>)) = Inr ()" by (rule sample_valid)
  moreover have "minimal_tiers\<lparr>Preset := ''minimal'', Raw := hours 1\<rparr> = minimal_tiers\<lparr>Raw := hours 1\<rparr>" by (simp add: minimal_tiers_def)
  ultimately show "ResolveOverrides sample_lib Defaults [(''retention.preset'', ''minimal''), (''retention.raw'', ''1h'')] =
    Inr (with_retention (minimal_tiers\<lparr>Raw := hours 1\<rparr>))"
    by (simp add: ResolveOverrides_def apply_values_def bind_result_def set_value_simps with_value_def on_retention_def normalized Let_def
        lower_minimal minimal_preset sample_durations)
qed

lemma sample_overrides:
  "svc_rows s = sample_rows \<Longrightarrow> overrides sample_lib s = Inr [(''retention.raw'', ''1h'')]"
  by (simp add: overrides_def sample_rows_def sample_lib_def bind_result_def)

lemma sample_initialized:
  "Initialize_settings sample_lib (NewService sample_rows [] [(''settings_revision'', ''0'')] Defaults (\<lambda>_. None)) = (sample_service, None)"
  using sample_resolved(1) [OF sample_durations(1)]
  by (simp add: sample_service_def Initialize_settings_def sample_overrides NewService_def bind_result_def)

lemma sample_service_fields [simp]:
  "svc_rows sample_service = sample_rows" "svc_base sample_service = Defaults" "svc_metadata sample_service = [(''settings_revision'', ''0'')]"
  using sample_resolved(1) [OF sample_durations(1)]
  by (simp_all add: sample_service_def Initialize_settings_def sample_overrides NewService_def bind_result_def)

lemma sample_run: "service_run sample_lib Defaults (\<lambda>_. None) sample_service"
  by (rule service_run.start [OF sample_readable sample_initialized])

lemma zero_text: "atoi ''0'' = Some 0"
  by code_simp

lemma sample_revision: "revision sample_service = Inr 0"
  by (simp add: revision_def zero_text)

lemma merged:
  "fold map_put [(''retention.preset'', ''minimal'')] [(''retention.raw'', ''1h'')] = [(''retention.preset'', ''minimal''), (''retention.raw'', ''1h'')]"
  "fold map_put [(''retention.raw'', ''0s'')] [(''retention.raw'', ''1h'')] = [(''retention.raw'', ''0s'')]"
  by code_simp+

lemma patched_current:
  assumes "ResolveOverrides sample_lib Defaults (fold map_put changes [(''retention.raw'', ''1h'')]) = Inr c"
    and "changes = [(k, v)]" and "k \<in> {''retention.preset'', ''retention.raw''}"
  shows "Patch sample_lib None 1000 0 changes ''admin'' sample_service = (patched changes, snapshotLocked sample_lib (patched changes)) \<and>
    patched changes \<noteq> sample_service"
proof -
  have ok: "k \<in> set editable \<and> UIOverridable k" using assms(3) by (auto simp: editable_def UIOverridable_def)
  then have find: "find (\<lambda>kv. fst kv \<in> set editable \<longrightarrow> \<not> UIOverridable (fst kv)) changes = None"
    by (simp add: assms(2))
  have some: "changes \<noteq> [] \<and> \<not> 16 < length changes" by (simp add: assms(2))
  have run: "Patch sample_lib None 1000 0 changes ''admin'' sample_service = (patched changes, snapshotLocked sample_lib (patched changes))"
    using some assms(1) unfolding patched_def Patch_def
    by (simp add: find sample_revision sample_overrides bind_result_def Let_def)
  have "length (svc_applied (patched changes)) = Suc (length (svc_applied sample_service))"
    using some assms(1) unfolding patched_def Patch_def
    by (simp add: find sample_revision sample_overrides bind_result_def Let_def assms(2) ok write_revision_def write_change_def)
  then show ?thesis using run by auto
qed

lemmas preset_patch = patched_current [OF _ refl, of "''retention.preset''" "''minimal''", unfolded merged, OF sample_resolved(2)]
lemmas zero_patch = patched_current [OF _ refl, of "''retention.raw''" "''0s''", unfolded merged, OF sample_resolved(1) [OF sample_durations(2)]]

theorem preset_keeps_old_tiers_witness:
  "service_run sample_lib Defaults (\<lambda>_. None) sample_service \<and>
    Preset (cfg_Retention (svc_current (patched [(''retention.preset'', ''minimal'')]))) = ''minimal'' \<and>
    rc_Raw (retention_of (svc_current (patched [(''retention.preset'', ''minimal'')]))) = hours 1"
  using preset_keeps_old_tiers [OF sample_run sample_json sample_overrides [OF sample_service_fields(1)] _ sample_durations(1), of 1000 0 "''minimal''" "''admin''"]
    preset_patch sample_run
  by (simp add: lower_minimal)

theorem zero_raw_stops_retention_witness:
  "patched [(''retention.raw'', ''0s'')] \<noteq> sample_service \<and>
    applyRetention (\<lambda>_. False) (hours 1000) (retention_of (svc_current (patched [(''retention.raw'', ''0s'')]))) True
      (\<lambda>_. [\<lambda>_. SInt 0]) = (\<lambda>_. [\<lambda>_. SInt 0], None)"
  using zero_raw_stops_retention [OF sample_run sample_json _ _ sample_durations(2)] zero_patch by blast


theorem settings_survive_restart_witness:
  "\<exists>s'. Initialize_settings sample_lib (NewService (svc_rows (patched [(''retention.preset'', ''minimal'')]))
      (svc_audit (patched [(''retention.preset'', ''minimal'')])) (svc_metadata (patched [(''retention.preset'', ''minimal'')])) Defaults (\<lambda>_. None)) = (s', None) \<and>
    svc_current s' = svc_current (patched [(''retention.preset'', ''minimal'')])"
proof -
  have "service_run sample_lib Defaults (\<lambda>_. None) (patched [(''retention.preset'', ''minimal'')])"
    by (rule service_run.patch [OF sample_run]) (use preset_patch in blast)
  from settings_survive_restart [OF this sample_json] show ?thesis by blast
qed


subsection \<open>Loading\<close>

definition no_files :: file_system where
  "no_files = \<lparr>toml_file = (\<lambda>_. Inl (ErrMsg ''no file'')), read_file = (\<lambda>_. Inl (ErrMsg ''no file'')), regular_file = (\<lambda>_. False)\<rparr>"

definition preset_env :: "string \<Rightarrow> string" where
  "preset_env k = (if k = ''BINNACLE_RETENTION_PRESET'' then ''minimal'' else [])"

lemma sample_loaded:
  "\<exists>eff. LoadWith sample_lib no_files preset_env (\<lambda>_. False) (Inr []) = Inr (with_retention ((cfg_Retention Defaults)\<lparr>Preset := ''minimal''\<rparr>), eff)"
proof -
  have "Validate_config sample_lib (with_retention ((cfg_Retention Defaults)\<lparr>Preset := ''minimal''\<rparr>)) = Inr ()"
    by (rule sample_valid) simp
  moreover have "cfg_Coolify Defaults = \<lparr>CoolifyURL = [], APITokenText = [], APITokenFile = [], AllowInsecureHTTP = False\<rparr>"
    "MasterKeyFile (cfg_Paths Defaults) = []"
    by (simp_all add: Defaults_def)
  ultimately show ?thesis
    by (simp add: LoadWith_def load_file_def Discover_def environment_def coolify_environment_def auth_environment_def feature_environment_def
        apply_env_def preset_env_def apply_values_def set_value_simps on_retention_def lower_minimal bind_result_def load_token_def
        resolveMasterKeyFile_def trim_space_def normalized Let_def)
qed

theorem env_preset_keeps_tiers_witness:
  "\<exists>c eff. LoadWith sample_lib no_files preset_env (\<lambda>_. False) (Inr []) = Inr (c, eff) \<and>
    Preset (cfg_Retention c) = ''minimal'' \<and> tiers c = tiers Defaults"
proof -
  obtain eff where l: "LoadWith sample_lib no_files preset_env (\<lambda>_. False) (Inr []) =
      Inr (with_retention ((cfg_Retention Defaults)\<lparr>Preset := ''minimal''\<rparr>), eff)"
    using sample_loaded by blast
  have "Discover preset_env (\<lambda>_. False) = []" by (simp add: Discover_def preset_env_def)
  from env_preset_keeps_tiers [OF l this refl] show ?thesis using l by (simp add: preset_env_def lower_minimal)
qed

end
