(* ===== verification/Spec2Isabelle.thy ===== *)
theory Spec2Isabelle
  imports Monitor_Samples Alert_Health Delivery_Samples Check_Samples Auth_Samples Deletion_Samples Storage_Samples Settings_Samples
begin

text \<open>
  Binnacle, a verification development.

  Binnacle is a self-hosted monitor for one Docker host, written in Go. Collectors publish
  snapshots and events to a metrics engine; a persistence queue writes them to SQLite, where
  rollups, retention and history queries work on them; health checks run on a schedule; an
  alert evaluator turns observations into alerts; alerts are grouped into incidents, whose
  lifecycle is delivered to notification channels; an authentication layer guards the API; a
  settings service holds the configuration. All paths below are under \<^verbatim>\<open>src/internal\<close>.

  \<^bold>\<open>Conventions.\<close> \<open>Binnacle_Base\<close> is the prelude: times and durations are integers of nanoseconds,
  with the saturation of \<open>Time.Sub\<close> and the wrap-around of 64-bit arithmetic written out; a fallible
  function returns a sum with the error on the left; a handler of several transactions returns
  the state and an optional error; a table is a list of rows with the statements of SQL as
  functions; text functions of the standard library are defined on byte strings. A float is a
  rational number. A function under a lock, or a transaction, is one step. Where goroutines or
  requests interleave, the model is a step relation over single statements and channel operations.

  \<^bold>\<open>Alerts and incidents.\<close> \<open>Alert_State\<close> models \<^verbatim>\<open>alerts/state.go\<close> and \<^verbatim>\<open>types.go\<close>: the function \<open>Advance\<close>
  with its phases, and runs of one key through storage. \<open>Monitor_Schema\<close> has the tables,
  \<open>Alert_Store\<close> \<^verbatim>\<open>alerts/repository.go\<close>, \<open>Alert_Evaluator\<close> \<^verbatim>\<open>alerts/evaluator.go\<close>, \<open>Alert_Health\<close>
  \<^verbatim>\<open>alerts/health.go\<close>, \<open>Incidents\<close> the incident part of \<^verbatim>\<open>notifications/repository.go\<close>. \<open>Alert_Invariants\<close>
  and \<open>Incident_Invariants\<close> show what each operation keeps; \<open>Monitor_System\<close> puts them together as
  a transition system of rounds and requests. Shown: triggers and resolutions alternate and
  respect the cooldown; a key has one firing alert exactly while its phase says so; an incident
  is open exactly while one of its alerts fires; why a resolution fails while its trigger event is
  stored; how one check masks another one.

  \<^bold>\<open>Deliveries.\<close> \<open>Outbound\<close> models \<^verbatim>\<open>outbound/policy.go\<close>, \<open>Channels\<close> the channel part of
  \<^verbatim>\<open>notifications/repository.go\<close>, \<open>Delivery_Worker\<close> \<^verbatim>\<open>notifications/worker.go\<close>; \<open>Delivery_System\<close> lets the
  dispatcher, the runners and requests interleave. \<open>Delivery_Invariants\<close> and \<open>Delivery_Properties\<close> show
  that deliveries of one incident to one channel exclude each other and that every delivery is
  settled after a bounded number of attempts; only allowed addresses are dialled.

  \<^bold>\<open>Checks.\<close> \<open>Checks\<close>, \<open>Check_Runner\<close> and \<open>Check_Scheduler\<close> model \<^verbatim>\<open>checks/\<close>: repository, one run with
  its redirections, and the queue with its workers. Shown: a check is in one place only, every
  requested URL has passed the policy, the counters of streaks are the lengths of the streaks,
  and a full queue ends the scheduling.

  \<^bold>\<open>Authentication.\<close> \<open>Auth_Base\<close> has encodings and the parameters of the cryptographic and network
  libraries; \<open>Auth_Limiter\<close>, \<open>Auth_Users\<close>, \<open>Auth_Sessions\<close> and \<open>Auth_MFA\<close> model \<^verbatim>\<open>auth/\<close>; \<open>Auth_System\<close>
  is the transition system of all of them. Shown: at most one administrator, setup tokens and
  recovery codes work once, sessions are unforgeable and over for good, the limiter keeps its
  rate, forwarding headers cannot change the address that is limited, passwords round trip.

  \<^bold>\<open>Storage.\<close> \<open>Storage_Tables\<close> has rows with named columns, foreign keys and deletion in batches as
  a locale that is interpreted on them. \<open>Storage_Deletion\<close> and \<open>Deletion_Run\<close> model \<^verbatim>\<open>storage/deletion.go\<close>
  statement by statement; \<open>Deletion_Properties\<close> shows that a run implements its one-step
  specification and never leaves its scope, and how a cancellation is lost. \<open>Storage_Writer\<close> models
  \<^verbatim>\<open>writer.go, hosts.go, resources.go, retention.go, budget.go, retry.go\<close>, \<open>Storage_Rollups\<close> \<^verbatim>\<open>rollups.go\<close>
  over a locale of keyed groups, \<open>Storage_History\<close> \<^verbatim>\<open>history.go\<close> and \<^verbatim>\<open>events.go\<close>, \<open>Metrics_Types\<close> and
  \<open>Metrics_Engine\<close> \<^verbatim>\<open>metrics/\<close>, \<open>Storage_Persistence\<close> \<^verbatim>\<open>persistence.go\<close> as two interleaved goroutines. Shown
  in these, \<open>Storage_Properties\<close> and \<open>History_Properties\<close>: retention removes exactly the rows that are
  too old; a rollup row is the aggregate of its bucket, until retention cuts into it; the event
  buffer implements a log; the newest batch is never dropped; reported gaps are right, responses
  are bounded, and what is written is read back.

  \<^bold>\<open>Settings.\<close> \<open>Settings_Text\<close> has durations, booleans and paths as text, \<open>Settings_Config\<close> and
  \<open>Settings_Load\<close> model \<^verbatim>\<open>settings/settings.go\<close> and \<^verbatim>\<open>load.go\<close>, \<open>Settings_Service\<close> \<^verbatim>\<open>store.go\<close> and the function
  that \<^verbatim>\<open>cmd/binnacle/main.go\<close> installs for changes. \<open>Settings_Properties\<close> shows that every
  configuration in force is well formed, that a restart resolves the same one, that a patch is
  applied once on the revision its author has seen, and what presets do not do.

  The theories named \<open>..._Samples\<close> apply the properties to concrete data.

  \<^bold>\<open>Bounds and fuel.\<close> Loops end by structure or by a measure (\<open>prune\<close>: rows that are too old, \<open>evict\<close>,
  \<open>parse_units\<close>: length of the text). \<open>RunDeletion\<close> takes the number of steps of its machine; that
  enough steps reach the end is part of \<open>deletion_refines\<close>. Retry loops have the bounds of the code.

  \<^bold>\<open>Parameters.\<close> Random bytes, clocks, the results of commits, DNS, dialling, HTTP exchanges, SHA-256,
  HMAC, Argon2id, AES-GCM, parsers of addresses and URLs, floating point text, JSON strings, TOML
  and the file system are arguments. What a property relies on is a named hypothesis: that
  drawn identifiers are new, that a cipher opens what it sealed and that JSON strings are read
  back. Every such property has a witness with concrete functions.

  \<^bold>\<open>Not modelled.\<close> The HTTP handlers (\<^verbatim>\<open>api/\<close>), which decode a request and call an operation modelled
  here; the collectors and the Docker and Coolify clients, which read from outside and whose
  results are inputs here; resource naming, diagnostics, onboarding, preferences and demo data;
  opening and migrating the database; start-up and shutdown; errors of the database other than
  violated constraints and failed commits.
\<close>

end
